theory Spec2Isabelle
  imports Complex_Main "HOL-Library.Log_Nat" "HOL-Library.Word" "HOL-Library.Monad_Syntax"
begin

section \<open>Single-precision arithmetic\<close>

text \<open>
  The kernels of \<^verbatim>\<open>segnet.cpp\<close> compute in C \<^verbatim>\<open>float\<close>, IEEE binary32. A finite
  float is carried here as the real number it denotes, and every operation rounds its exact
  result to the nearest binary32 value, ties to even: 24 significant bits, least exponent
  \<open>-149\<close> (so subnormal results are rounded on the fixed grid \<open>2 powi -149\<close>).
  Each C operator is rounded on its own, in the order the expressions are written; a
  compiler that fuses a multiplication and an addition rounds once less.  Infinities, NaN and
  results of magnitude \<open>2 ^ 128\<close> or more are outside the model, and so is a division by
  zero (the host function rejects a zero output size before any kernel runs).
\<close>

definition rne :: "real \<Rightarrow> int" where
  "rne v = (let f = \<lfloor>v\<rfloor>; d = v - of_int f in
            if d < 1/2 then f else if 1/2 < d then f + 1 else if even f then f else f + 1)"

definition ilog2 :: "real \<Rightarrow> int" where
  "ilog2 v = (if 1 \<le> v then bitlen \<lfloor>v\<rfloor> - 1 else - bitlen (\<lceil>1 / v\<rceil> - 1))"

definition fl32 :: "real \<Rightarrow> real" where
  "fl32 v = (if v = 0 then 0 else
       let q = max (ilog2 \<bar>v\<bar> - 23) (- 149) in of_int (rne (v / 2 powi q)) * 2 powi q)"

definition fadd :: "real \<Rightarrow> real \<Rightarrow> real" where
  "fadd a b = fl32 (a + b)"

definition fsub :: "real \<Rightarrow> real \<Rightarrow> real" where
  "fsub a b = fl32 (a - b)"

definition fmul :: "real \<Rightarrow> real \<Rightarrow> real" where
  "fmul a b = fl32 (a * b)"

definition fdiv :: "real \<Rightarrow> real \<Rightarrow> real" where
  "fdiv a b = fl32 (a / b)"

text \<open>\<^verbatim>\<open>float(i)\<close> for an \<^verbatim>\<open>int\<close> \<open>i\<close>: rounded, exact up to \<open>2 ^ 24\<close>.\<close>

definition float_of_int :: "int \<Rightarrow> real" where
  "float_of_int i = fl32 (of_int i)"

text \<open>
  \<^verbatim>\<open>int(v)\<close> for a float \<open>v\<close> discards the fraction (truncation towards zero). The
  conversion is undefined in C++ when the truncated value does not fit an \<^verbatim>\<open>int\<close>; the
  model keeps the truncated value.
\<close>

definition int_of_float :: "real \<Rightarrow> int" where
  "int_of_float v = (if 0 \<le> v then \<lfloor>v\<rfloor> else \<lceil>v\<rceil>)"

text \<open>
  A float converted to \<^verbatim>\<open>unsigned char\<close> is truncated too, and the conversion is undefined
  when the truncated value is not in \<open>0..255\<close>: \<open>None\<close>.
\<close>

definition uchar_of_float :: "real \<Rightarrow> 8 word option" where
  "uchar_of_float v =
     (if 0 \<le> int_of_float v \<and> int_of_float v \<le> 255 then Some (word_of_int (int_of_float v)) else None)"


section \<open>Data model\<close>

text \<open>The CUDA vector types of the source: \<^verbatim>\<open>float4\<close> colours, \<^verbatim>\<open>int2\<close> grid sizes.\<close>

datatype float4 = make_float4 (f4_x: real) (f4_y: real) (f4_z: real) (f4_w: real)

datatype float3 = make_float3 (f3_x: real) (f3_y: real) (f3_z: real)

datatype int2 = make_int2 (i2_x: int) (i2_y: int)

text \<open>
  The template parameter \<^verbatim>\<open>T\<close> of \<^verbatim>\<open>gpuSegOverlay\<close> is one of \<^verbatim>\<open>uchar3\<close>,
  \<^verbatim>\<open>uchar4\<close>, \<^verbatim>\<open>float3\<close>, \<^verbatim>\<open>float4\<close>; an image buffer holds pixels of
  that type.
\<close>

datatype vecT = T_uchar3 | T_uchar4 | T_float3 | T_float4

datatype pixel =
    Uchar3 "8 word" "8 word" "8 word"
  | Uchar4 "8 word" "8 word" "8 word" "8 word"
  | Float3 real real real
  | Float4 real real real real

text \<open>The members \<^verbatim>\<open>.x\<close>, \<^verbatim>\<open>.y\<close>, \<^verbatim>\<open>.z\<close> of a pixel, promoted to float.\<close>

fun px_x :: "pixel \<Rightarrow> real" where
  "px_x (Uchar3 a b c) = of_int (uint a)"
| "px_x (Uchar4 a b c d) = of_int (uint a)"
| "px_x (Float3 a b c) = a"
| "px_x (Float4 a b c d) = a"

fun px_y :: "pixel \<Rightarrow> real" where
  "px_y (Uchar3 a b c) = of_int (uint b)"
| "px_y (Uchar4 a b c d) = of_int (uint b)"
| "px_y (Float3 a b c) = b"
| "px_y (Float4 a b c d) = b"

fun px_z :: "pixel \<Rightarrow> real" where
  "px_z (Uchar3 a b c) = of_int (uint c)"
| "px_z (Uchar4 a b c d) = of_int (uint c)"
| "px_z (Float3 a b c) = c"
| "px_z (Float4 a b c d) = c"

text \<open>The CUDA constructor \<^verbatim>\<open>make_uchar3\<close> applied to float arguments, as \<^verbatim>\<open>clip\<close> calls it.\<close>

definition make_uchar3 :: "real \<Rightarrow> real \<Rightarrow> real \<Rightarrow> pixel option" where
  "make_uchar3 a b c =
     do { a' \<leftarrow> uchar_of_float a; b' \<leftarrow> uchar_of_float b; c' \<leftarrow> uchar_of_float c;
          Some (Uchar3 a' b' c') }"

text \<open>
  Modelled from the spec: \<^verbatim>\<open>make_vec<T>\<close> is declared in \<^verbatim>\<open>cudaVector.h\<close>, which is
  not among the sources. The spec has the final pixel values ``written in whatever the
  output's native channel type is'', for the four layouts 3-channel 8-bit, 4-channel 8-bit,
  3-channel float and 4-channel float, and the alpha ``forced to opaque (255 / 1.0 depending
  on type)'' where the kernel passes 255: the three colour arguments are converted to the
  channel type of \<^verbatim>\<open>T\<close> in order, a 3-channel type has no member for the fourth, and the
  fourth argument, an alpha on the scale \<open>0..255\<close> of the class colours, is written as it is
  in an 8-bit pixel and on the scale \<open>0..1\<close> in a float pixel.
\<close>

definition make_vec :: "vecT \<Rightarrow> real \<Rightarrow> real \<Rightarrow> real \<Rightarrow> real \<Rightarrow> pixel option" where
  "make_vec T a b c d =
     (case T of
        T_uchar3 \<Rightarrow> make_uchar3 a b c
      | T_uchar4 \<Rightarrow>
          do { a' \<leftarrow> uchar_of_float a; b' \<leftarrow> uchar_of_float b; c' \<leftarrow> uchar_of_float c;
               d' \<leftarrow> uchar_of_float d; Some (Uchar4 a' b' c' d') }
      | T_float3 \<Rightarrow> Some (Float3 a b c)
      | T_float4 \<Rightarrow> Some (Float4 a b c (fdiv d 255)))"

text \<open>
  A device pointer is \<open>None\<close> when null and \<open>Some\<close> of the buffer's contents otherwise. A
  read through a null pointer or outside the buffer is a fault (\<open>None\<close>).
\<close>

definition rd :: "'a list option \<Rightarrow> int \<Rightarrow> 'a option" where
  "rd buf i =
     (case buf of None \<Rightarrow> None
      | Some xs \<Rightarrow> if 0 \<le> i \<and> i < int (length xs) then Some (xs ! nat i) else None)"

text \<open>
  What one GPU thread does: nothing (the early \<^verbatim>\<open>return\<close>), a fault, or one store
  \<^verbatim>\<open>output[i] = p\<close>.
\<close>

datatype thread_result = Idle | Fault | Store int pixel

definition store :: "int \<Rightarrow> pixel option \<Rightarrow> thread_result" where
  "store i p = (case p of None \<Rightarrow> Fault | Some v \<Rightarrow> Store i v)"


section \<open>The overlay kernel\<close>

text \<open>The macro \<^verbatim>\<open>LOOKUP_CLASS_MAP(ix, iy)\<close>: \<^verbatim>\<open>scores[iy * scores_dim.x + ix]\<close>.\<close>

definition LOOKUP_CLASS_MAP :: "8 word list option \<Rightarrow> int2 \<Rightarrow> int \<Rightarrow> int \<Rightarrow> 8 word option" where
  "LOOKUP_CLASS_MAP scores scores_dim ix iy = rd scores (iy * i2_x scores_dim + ix)"

text \<open>
  \<^verbatim>\<open>gpuSegOverlay<T, filter_linear, mask_only>\<close> for the thread whose global index is
  \<open>(x, y)\<close>. The indices \<^verbatim>\<open>y * out_width + x\<close>, \<^verbatim>\<open>iy * scores_dim.x + ix\<close> and
  \<^verbatim>\<open>y_in * in_width + x_in\<close> are C \<^verbatim>\<open>int\<close> expressions; they are written here on the
  integers, which is what the code computes as long as no intermediate value leaves the range
  of a 32-bit \<^verbatim>\<open>int\<close>. Every theorem about the kernel states the sizes (an output, a score
  grid and an input image of fewer than \<open>2 ^ 31\<close> elements) for which that is so.
\<close>

definition gpuSegOverlay ::
  "vecT \<Rightarrow> bool \<Rightarrow> bool \<Rightarrow> pixel list option \<Rightarrow> int \<Rightarrow> int \<Rightarrow> int \<Rightarrow> int \<Rightarrow>
   float4 list option \<Rightarrow> 8 word list option \<Rightarrow> int2 \<Rightarrow> nat \<Rightarrow> nat \<Rightarrow> thread_result" where
  "gpuSegOverlay T filter_linear mask_only input in_width in_height out_width out_height
       class_colors scores scores_dim x y =
    (if int x \<ge> out_width \<or> int y \<ge> out_height then Idle
     else
       let px = fdiv (float_of_int (int x)) (float_of_int out_width);
           py = fdiv (float_of_int (int y)) (float_of_int out_height)
       in
       if \<not> filter_linear then
         let cx = fmul px (float_of_int (i2_x scores_dim));
             cy = fmul py (float_of_int (i2_y scores_dim));
             x1 = int_of_float cx;
             y1 = int_of_float cy
         in store (int y * out_width + int x)
              (do { classIdx \<leftarrow> LOOKUP_CLASS_MAP scores scores_dim x1 y1;
                    classColor \<leftarrow> rd class_colors (uint classIdx);
                    if mask_only then
                      make_vec T (f4_x classColor) (f4_y classColor) (f4_z classColor) 255
                    else
                      do { let x_in = int_of_float (fmul px (float_of_int in_width));
                           let y_in = int_of_float (fmul py (float_of_int in_height));
                           px_in \<leftarrow> rd input (y_in * in_width + x_in);
                           let alph = fdiv (f4_w classColor) 255;
                           let inva = fsub 1 alph;
                           make_vec T
                             (fadd (fmul alph (f4_x classColor)) (fmul inva (px_x px_in)))
                             (fadd (fmul alph (f4_y classColor)) (fmul inva (px_y px_in)))
                             (fadd (fmul alph (f4_z classColor)) (fmul inva (px_z px_in)))
                             255 } })
       else
         let bx = fsub (fmul px (float_of_int (i2_x scores_dim))) (1/2);
             by = fsub (fmul py (float_of_int (i2_y scores_dim))) (1/2);
             cx = (if bx < 0 then 0 else bx);
             cy = (if by < 0 then 0 else by);
             x1 = int_of_float cx;
             y1 = int_of_float cy;
             x2 = (if x1 \<ge> i2_x scores_dim - 1 then x1 else x1 + 1);
             y2 = (if y1 \<ge> i2_y scores_dim - 1 then y1 else y1 + 1)
         in store (int y * out_width + int x)
              (do { ix \<leftarrow> LOOKUP_CLASS_MAP scores scores_dim x1 y1;
                    iy \<leftarrow> LOOKUP_CLASS_MAP scores scores_dim x2 y1;
                    iz \<leftarrow> LOOKUP_CLASS_MAP scores scores_dim x2 y2;
                    iw \<leftarrow> LOOKUP_CLASS_MAP scores scores_dim x1 y2;
                    cc0 \<leftarrow> rd class_colors (uint ix);
                    cc1 \<leftarrow> rd class_colors (uint iy);
                    cc2 \<leftarrow> rd class_colors (uint iz);
                    cc3 \<leftarrow> rd class_colors (uint iw);
                    let x1d = fsub cx (float_of_int x1);
                    let y1d = fsub cy (float_of_int y1);
                    let x1f = fsub 1 x1d;
                    let y1f = fsub 1 y1d;
                    let x2f = fsub 1 x1f;
                    let y2f = fsub 1 y1f;
                    let x1y1f = fmul x1f y1f;
                    let x1y2f = fmul x1f y2f;
                    let x2y1f = fmul x2f y1f;
                    let x2y2f = fmul x2f y2f;
                    let classColor = make_float4
                      (fadd (fadd (fadd (fmul (f4_x cc0) x1y1f) (fmul (f4_x cc1) x2y1f))
                                  (fmul (f4_x cc2) x2y2f)) (fmul (f4_x cc3) x1y2f))
                      (fadd (fadd (fadd (fmul (f4_y cc0) x1y1f) (fmul (f4_y cc1) x2y1f))
                                  (fmul (f4_y cc2) x2y2f)) (fmul (f4_y cc3) x1y2f))
                      (fadd (fadd (fadd (fmul (f4_z cc0) x1y1f) (fmul (f4_z cc1) x2y1f))
                                  (fmul (f4_z cc2) x2y2f)) (fmul (f4_z cc3) x1y2f))
                      (fadd (fadd (fadd (fmul (f4_w cc0) x1y1f) (fmul (f4_w cc1) x2y1f))
                                  (fmul (f4_w cc2) x2y2f)) (fmul (f4_w cc3) x1y2f));
                    if mask_only then
                      make_vec T (f4_x classColor) (f4_y classColor) (f4_z classColor) 255
                    else
                      do { let x_in = int_of_float (fmul px (float_of_int in_width));
                           let y_in = int_of_float (fmul py (float_of_int in_height));
                           px_in \<leftarrow> rd input (y_in * in_width + x_in);
                           let alph = fdiv (f4_w classColor) 255;
                           let inva = fsub 1 alph;
                           make_vec T
                             (fadd (fmul alph (f4_x classColor)) (fmul inva (px_x px_in)))
                             (fadd (fmul alph (f4_y classColor)) (fmul inva (px_y px_in)))
                             (fadd (fmul alph (f4_z classColor)) (fmul inva (px_z px_in)))
                             255 } }))"


section \<open>Running a grid of threads\<close>

text \<open>
  The contents of the output buffer once a launched kernel has run: the buffer after every
  store, or \<open>Trapped\<close> when some thread faulted or stored outside the buffer.
\<close>

datatype device = Trapped | Completed "pixel list"

definition run_thread :: "(nat \<Rightarrow> nat \<Rightarrow> thread_result) \<Rightarrow> nat \<times> nat \<Rightarrow> device \<Rightarrow> device" where
  "run_thread k t dev =
     (case dev of Trapped \<Rightarrow> Trapped
      | Completed buf \<Rightarrow>
          (case k (fst t) (snd t) of
             Idle \<Rightarrow> Completed buf
           | Fault \<Rightarrow> Trapped
           | Store i p \<Rightarrow>
               if 0 \<le> i \<and> i < int (length buf) then Completed (buf[nat i := p]) else Trapped))"

text \<open>
  The launches of the source use \<^verbatim>\<open>blockDim(8, 8)\<close>; a grid of \<open>gx\<close> by \<open>gy\<close> blocks runs the
  threads \<open>(x, y)\<close> with \<open>x < gx * 8\<close> and \<open>y < gy * 8\<close>. The threads are independent of one
  another; they are run here row by row.
\<close>

definition grid_threads :: "nat \<times> nat \<Rightarrow> (nat \<times> nat) list" where
  "grid_threads g = concat (map (\<lambda>y. map (\<lambda>x. (x, y)) [0..<fst g * 8]) [0..<snd g * 8])"

definition run_grid :: "nat \<times> nat \<Rightarrow> (nat \<Rightarrow> nat \<Rightarrow> thread_result) \<Rightarrow> pixel list \<Rightarrow> device" where
  "run_grid g k buf = fold (run_thread k) (grid_threads g) (Completed buf)"

text \<open>
  Modelled from the spec: \<^verbatim>\<open>iDivUp\<close> is declared in \<^verbatim>\<open>cudaUtility.h\<close>, which is not
  among the sources; ``tile count is the ceiling division of width/height by the tile edge''.
\<close>

definition iDivUp :: "nat \<Rightarrow> nat \<Rightarrow> nat" where
  "iDivUp a b = (if a mod b \<noteq> 0 then a div b + 1 else a div b)"


section \<open>The host function of the overlay\<close>

datatype cudaError =
    cudaSuccess | cudaErrorInvalidValue | cudaErrorInvalidDevicePointer | cudaErrorOther nat

text \<open>
  The enumeration \<^verbatim>\<open>imageFormat\<close> is declared in a header that is not among the sources.
  The source names four of its values; \<open>IMAGE_OTHER\<close> stands for every other tag.
\<close>

datatype imageFormat = IMAGE_RGB8 | IMAGE_RGBA8 | IMAGE_RGB32F | IMAGE_RGBA32F | IMAGE_OTHER nat

text \<open>
  Modelled from the spec: \<^verbatim>\<open>imageFormatIsRGB\<close> is not among the sources; ``Supported
  pixel formats (closed set): 3-channel 8-bit, 4-channel 8-bit, 3-channel 32-bit float,
  4-channel 32-bit float. Any other format tag is rejected'', the four that the diagnostic of
  \<^verbatim>\<open>cudaSegOverlay\<close> lists as rgb8, rgba8, rgb32f, rgba32f.
\<close>

fun imageFormatIsRGB :: "imageFormat \<Rightarrow> bool" where
  "imageFormatIsRGB IMAGE_RGB8 = True"
| "imageFormatIsRGB IMAGE_RGBA8 = True"
| "imageFormatIsRGB IMAGE_RGB32F = True"
| "imageFormatIsRGB IMAGE_RGBA32F = True"
| "imageFormatIsRGB (IMAGE_OTHER n) = False"

text \<open>
  The macro \<^verbatim>\<open>LAUNCH_OVERLAY\<close>: the pixel type of the kernel launched for a format, and no
  launch at all for a format that is none of the four.
\<close>

fun LAUNCH_OVERLAY :: "imageFormat \<Rightarrow> vecT option" where
  "LAUNCH_OVERLAY IMAGE_RGB8 = Some T_uchar3"
| "LAUNCH_OVERLAY IMAGE_RGBA8 = Some T_uchar4"
| "LAUNCH_OVERLAY IMAGE_RGB32F = Some T_float3"
| "LAUNCH_OVERLAY IMAGE_RGBA32F = Some T_float4"
| "LAUNCH_OVERLAY (IMAGE_OTHER n) = None"

text \<open>
  A kernel launch issued by a host function: the grid of blocks and the code of one thread.
  The launch is asynchronous; the host function returns the status and does not wait.
\<close>

record launch =
  gridDim :: "nat \<times> nat"
  kernel :: "nat \<Rightarrow> nat \<Rightarrow> thread_result"

text \<open>
  \<^verbatim>\<open>cudaSegOverlay\<close>. The widths and heights are \<^verbatim>\<open>uint32_t\<close> on the host and are
  converted to the \<^verbatim>\<open>int\<close> parameters of the kernel. \<open>last_error\<close> is what the runtime's
  \<^verbatim>\<open>cudaGetLastError()\<close> reports after the launch. The result is the status returned
  and the launch issued, if any.
\<close>

definition cudaSegOverlay ::
  "cudaError \<Rightarrow> pixel list option \<Rightarrow> 32 word \<Rightarrow> 32 word \<Rightarrow> pixel list option \<Rightarrow> 32 word \<Rightarrow> 32 word \<Rightarrow>
   imageFormat \<Rightarrow> float4 list option \<Rightarrow> 8 word list option \<Rightarrow> int2 \<Rightarrow> bool \<Rightarrow> bool \<Rightarrow>
   cudaError \<times> launch option" where
  "cudaSegOverlay last_error input in_width in_height output out_width out_height format
       class_colors scores scores_dim filter_linear mask_only =
    (if output = None then (cudaErrorInvalidDevicePointer, None)
     else if out_width = 0 \<or> out_height = 0 then (cudaErrorInvalidValue, None)
     else if \<not> imageFormatIsRGB format then (cudaErrorInvalidValue, None)
     else
       (last_error,
        map_option
          (\<lambda>T. \<lparr> gridDim = (iDivUp (unat out_width) 8, iDivUp (unat out_height) 8),
                 kernel = gpuSegOverlay T filter_linear mask_only input (sint in_width) (sint in_height)
                            (sint out_width) (sint out_height) class_colors scores scores_dim \<rparr>)
          (LAUNCH_OVERLAY format)))"

text \<open>
  The output buffer after the call, once the launched work (if any) has completed: untouched
  when nothing was launched.
\<close>

definition output_after :: "launch option \<Rightarrow> pixel list \<Rightarrow> device" where
  "output_after l buf =
     (case l of None \<Rightarrow> Completed buf | Some k \<Rightarrow> run_grid (gridDim k) (kernel k) buf)"


section \<open>Tensor conversion and matting\<close>

text \<open>\<^verbatim>\<open>clip\<close> on a float, and on a \<^verbatim>\<open>float3\<close> (the result is a \<^verbatim>\<open>uchar3\<close>).\<close>

definition clip :: "real \<Rightarrow> real \<Rightarrow> real \<Rightarrow> real" where
  "clip v lo hi = (if v > hi then hi else if v < lo then lo else v)"

definition clip3 :: "float3 \<Rightarrow> int \<Rightarrow> int \<Rightarrow> pixel option" where
  "clip3 px lo hi =
     make_uchar3 (clip (f3_x px) (float_of_int lo) (float_of_int hi))
                 (clip (f3_y px) (float_of_int lo) (float_of_int hi))
                 (clip (f3_z px) (float_of_int lo) (float_of_int hi))"

text \<open>\<^verbatim>\<open>TensorToRGB<float, uchar3>\<close> for the thread \<open>(x, y)\<close>.\<close>

definition TensorToRGB :: "real list option \<Rightarrow> int \<Rightarrow> int \<Rightarrow> nat \<Rightarrow> nat \<Rightarrow> thread_result" where
  "TensorToRGB srcImage width height x y =
    (let n = width * height in
     if int x \<ge> width \<or> int y \<ge> height then Idle
     else
       let dx = int_of_float (fmul (float_of_int (int x)) 1);
           dy = int_of_float (fmul (float_of_int (int y)) 1)
       in store (int y * width + int x)
            (do { r \<leftarrow> rd srcImage (n * 0 + dy * width + dx);
                  g \<leftarrow> rd srcImage (n * 1 + dy * width + dx);
                  b \<leftarrow> rd srcImage (n * 2 + dy * width + dx);
                  clip3 (make_float3 (fmul r 255) (fmul g 255) (fmul b 255)) 0 255 }))"

text \<open>
  \<^verbatim>\<open>launchTensorToRGB<float, uchar3>\<close>, which \<^verbatim>\<open>cudaTensor32ToRGB8\<close> calls. The sizes are
  \<^verbatim>\<open>size_t\<close> and are converted to the \<^verbatim>\<open>int\<close> parameters of the kernel.
\<close>

definition launchTensorToRGB ::
  "cudaError \<Rightarrow> real list option \<Rightarrow> pixel list option \<Rightarrow> 64 word \<Rightarrow> 64 word \<Rightarrow> cudaError \<times> launch option" where
  "launchTensorToRGB last_error srcDev dstDev width height =
    (if srcDev = None \<or> dstDev = None then (cudaErrorInvalidDevicePointer, None)
     else if width = 0 \<or> height = 0 then (cudaErrorInvalidValue, None)
     else
       (last_error,
        Some \<lparr> gridDim = (iDivUp (unat width) 8, iDivUp (unat height) 8),
               kernel = TensorToRGB srcDev (sint (ucast width :: 32 word)) (sint (ucast height :: 32 word)) \<rparr>))"

definition cudaTensor32ToRGB8 ::
  "cudaError \<Rightarrow> real list option \<Rightarrow> pixel list option \<Rightarrow> 64 word \<Rightarrow> 64 word \<Rightarrow> cudaError \<times> launch option" where
  "cudaTensor32ToRGB8 last_error srcDev dstDev width height =
     launchTensorToRGB last_error srcDev dstDev width height"

text \<open>\<^verbatim>\<open>BlendRGBA32ToRGB8<float, float, uchar3>\<close> for the thread \<open>(x, y)\<close>.\<close>

definition BlendRGBA32ToRGB8 ::
  "real list option \<Rightarrow> real list option \<Rightarrow> int \<Rightarrow> int \<Rightarrow> nat \<Rightarrow> nat \<Rightarrow> thread_result" where
  "BlendRGBA32ToRGB8 srcImage alphImage width height x y =
    (let n = width * height in
     if int x \<ge> width \<or> int y \<ge> height then Idle
     else
       let dx = int_of_float (fmul (float_of_int (int x)) 1);
           dy = int_of_float (fmul (float_of_int (int y)) 1)
       in store (int y * width + int x)
            (do { r \<leftarrow> rd srcImage (n * 0 + dy * width + dx);
                  g \<leftarrow> rd srcImage (n * 1 + dy * width + dx);
                  b \<leftarrow> rd srcImage (n * 2 + dy * width + dx);
                  a \<leftarrow> rd alphImage (dy * width + dx);
                  clip3 (make_float3
                           (fadd (fmul (fmul r 255) a) (fmul (fsub 1 a) 120))
                           (fadd (fmul (fmul g 255) a) (fmul (fsub 1 a) 255))
                           (fadd (fmul (fmul b 255) a) (fmul (fsub 1 a) 155))) 0 255 }))"

definition launchBlendRGBA32ToRGB8 ::
  "cudaError \<Rightarrow> real list option \<Rightarrow> real list option \<Rightarrow> pixel list option \<Rightarrow> 64 word \<Rightarrow> 64 word \<Rightarrow>
   cudaError \<times> launch option" where
  "launchBlendRGBA32ToRGB8 last_error srcDev alphDev dstDev width height =
    (if srcDev = None \<or> alphDev = None \<or> dstDev = None then (cudaErrorInvalidDevicePointer, None)
     else if width = 0 \<or> height = 0 then (cudaErrorInvalidValue, None)
     else
       (last_error,
        Some \<lparr> gridDim = (iDivUp (unat width) 8, iDivUp (unat height) 8),
               kernel = BlendRGBA32ToRGB8 srcDev alphDev
                          (sint (ucast width :: 32 word)) (sint (ucast height :: 32 word)) \<rparr>))"

definition cudaBlendRGBA32ToRGB8 ::
  "cudaError \<Rightarrow> real list option \<Rightarrow> real list option \<Rightarrow> pixel list option \<Rightarrow> 64 word \<Rightarrow> 64 word \<Rightarrow>
   cudaError \<times> launch option" where
  "cudaBlendRGBA32ToRGB8 last_error srcDev alphDev dstDev width height =
     launchBlendRGBA32ToRGB8 last_error srcDev alphDev dstDev width height"


section \<open>Evaluating the arithmetic\<close>

lemmas fl_eval = fl32_def rne_def ilog2_def compute_bitlen power_int_minus

lemmas f_ops = fadd_def fsub_def fmul_def fdiv_def float_of_int_def

lemma fl32_0: "fl32 0 = 0"
  by (simp add: fl32_def)

lemma fl32_1: "fl32 1 = 1"
  by (simp add: fl_eval)

lemma fl32_255: "fl32 255 = 255"
  by (simp add: fl_eval)

lemma grid_threads_1:
  "grid_threads (Suc 0, Suc 0) =
     concat (map (\<lambda>y. map (\<lambda>x. (x, y)) [0, 1, 2, 3, 4, 5, 6, 7]) [0, 1, 2, 3, 4, 5, 6, 7])"
  by (simp add: grid_threads_def upt_rec)


section \<open>Properties of the rounding\<close>

lemma two_powi_pos: "0 < (2::real) powi e"
  by (simp add: zero_less_power_int)

lemma two_powi_mono: "a \<le> b \<Longrightarrow> (2::real) powi a \<le> 2 powi b"
  by (rule power_int_increasing) simp_all

lemma two_powi_strict_mono: "a < b \<Longrightarrow> (2::real) powi a < 2 powi b"
  by (rule power_int_strict_increasing) simp_all

lemma two_powi_add: "(2::real) powi (a + b) = 2 powi a * 2 powi b"
  by (rule power_int_add) simp

lemma two_powi_diff: "(2::real) powi (a - b) = 2 powi a / 2 powi b"
  by (rule power_int_diff) simp

lemma ilog2_bounds:
  assumes "0 < v"
  shows "2 powi (ilog2 v) \<le> v \<and> v < 2 powi (ilog2 v + 1)"
proof (cases "1 \<le> v")
  case True
  define n where "n = \<lfloor>v\<rfloor>"
  have n: "1 \<le> n" "of_int n \<le> v" "v < of_int n + 1"
    using True by (simp_all add: n_def le_floor_iff)
  have bl: "1 \<le> bitlen n"
    using n(1) bitlen_bounds [of n] by (smt (verit) bitlen_eq_zero_iff bitlen_nonneg)
  have b: "2 ^ nat (bitlen n - 1) \<le> n" "n < 2 ^ nat (bitlen n)"
    using bitlen_bounds [of n] n(1) by simp_all
  have e: "ilog2 v = bitlen n - 1"
    using True by (simp add: ilog2_def n_def)
  have "(2::real) powi (bitlen n - 1) = of_int (2 ^ nat (bitlen n - 1))"
    using bl by (simp add: power_int_nonneg_exp)
  also have "\<dots> \<le> of_int n"
    using b(1) by (simp only: of_int_le_iff)
  finally have lo: "2 powi (ilog2 v) \<le> v"
    using n(2) e by simp
  have "n + 1 \<le> 2 ^ nat (bitlen n)"
    using b(2) by simp
  then have "(of_int (n + 1) :: real) \<le> of_int (2 ^ nat (bitlen n))"
    by (simp only: of_int_le_iff)
  also have "\<dots> = 2 powi (bitlen n)"
    using bl by (simp add: power_int_nonneg_exp)
  finally have "v < 2 powi (ilog2 v + 1)"
    using n(3) e by simp
  with lo show ?thesis ..
next
  case False
  define c where "c = \<lceil>1 / v\<rceil>"
  define m where "m = c - 1"
  have iv: "1 < 1 / v"
    using False assms by simp
  have c: "1 / v \<le> of_int c" "of_int c - 1 < 1 / v"
    unfolding c_def by linarith+
  have m: "1 \<le> m"
    using iv c(1) unfolding m_def by linarith
  have bl: "1 \<le> bitlen m"
    using m bitlen_bounds [of m] by (smt (verit) bitlen_eq_zero_iff bitlen_nonneg)
  have b: "2 ^ nat (bitlen m - 1) \<le> m" "m < 2 ^ nat (bitlen m)"
    using bitlen_bounds [of m] m by simp_all
  have e: "ilog2 v = - bitlen m"
    using False by (simp add: ilog2_def c_def m_def)
  have "of_int c \<le> (of_int (2 ^ nat (bitlen m)) :: real)"
    using b(2) unfolding m_def by (simp only: of_int_le_iff)
  also have "\<dots> = 2 powi (bitlen m)"
    using bl by (simp add: power_int_nonneg_exp)
  finally have "1 / v \<le> 2 powi (bitlen m)"
    using c(1) by simp
  then have "1 \<le> v * 2 powi (bitlen m)"
    using assms by (simp add: field_simps)
  then have "1 / 2 powi (bitlen m) \<le> v"
    using two_powi_pos [of "bitlen m"] by (simp add: pos_divide_le_eq)
  moreover have "1 / 2 powi (bitlen m) = (2::real) powi (- bitlen m)"
    by (simp only: power_int_minus inverse_eq_divide)
  ultimately have lo: "2 powi (- bitlen m) \<le> v"
    by simp
  have "(2::real) powi (bitlen m - 1) = of_int (2 ^ nat (bitlen m - 1))"
    using bl by (simp add: power_int_nonneg_exp)
  also have "\<dots> \<le> of_int m"
    using b(1) by (simp only: of_int_le_iff)
  also have "\<dots> < 1 / v"
    using c(2) by (simp add: m_def)
  finally have "v * 2 powi (bitlen m - 1) < 1"
    using assms by (simp add: field_simps)
  then have "v < 1 / 2 powi (bitlen m - 1)"
    using two_powi_pos [of "bitlen m - 1"] by (simp add: pos_less_divide_eq)
  also have "\<dots> = 2 powi (- (bitlen m - 1))"
    by (simp only: power_int_minus inverse_eq_divide)
  finally have "v < 2 powi (ilog2 v + 1)"
    using e by (simp add: algebra_simps)
  with lo e show ?thesis by simp
qed

lemma ilog2_unique:
  assumes "2 powi e \<le> v" and "v < 2 powi (e + 1)"
  shows "ilog2 v = e"
proof -
  have v: "0 < v"
    using assms(1) two_powi_pos [of e] by linarith
  note b = ilog2_bounds [OF v]
  have "\<not> ilog2 v < e"
  proof
    assume "ilog2 v < e"
    then have "(2::real) powi (ilog2 v + 1) \<le> 2 powi e"
      by (intro two_powi_mono) simp
    with b assms(1) show False by linarith
  qed
  moreover have "\<not> e < ilog2 v"
  proof
    assume "e < ilog2 v"
    then have "(2::real) powi (e + 1) \<le> 2 powi (ilog2 v)"
      by (intro two_powi_mono) simp
    with b assms(2) show False by linarith
  qed
  ultimately show ?thesis by linarith
qed

lemma rne_cases: "rne v = \<lfloor>v\<rfloor> \<or> rne v = \<lfloor>v\<rfloor> + 1"
  by (simp add: rne_def Let_def)

lemma rne_of_int: "rne (of_int n) = n"
  by (simp add: rne_def)

lemma rne_mono:
  assumes "a \<le> b"
  shows "rne a \<le> rne b"
proof (cases "\<lfloor>a\<rfloor> = \<lfloor>b\<rfloor>")
  case True
  then show ?thesis
    using assms by (auto simp: rne_def Let_def)
next
  case False
  then have "\<lfloor>a\<rfloor> + 1 \<le> \<lfloor>b\<rfloor>"
    using assms floor_mono [of a b] by linarith
  moreover have "rne a \<le> \<lfloor>a\<rfloor> + 1" "\<lfloor>b\<rfloor> \<le> rne b"
    using rne_cases [of a] rne_cases [of b] by linarith+
  ultimately show ?thesis by linarith
qed

lemma rne_le: "a \<le> of_int n \<Longrightarrow> rne a \<le> n"
  using rne_mono [of a "of_int n"] by (simp add: rne_of_int)

lemma rne_ge: "of_int n \<le> a \<Longrightarrow> n \<le> rne a"
  using rne_mono [of "of_int n" a] by (simp add: rne_of_int)

lemma rne_below_half:
  assumes "a < of_int n - 1 / 2"
  shows "rne a \<le> n - 1"
proof -
  have "a < of_int n"
    using assms by linarith
  then have f: "\<lfloor>a\<rfloor> \<le> n - 1"
    by (simp add: floor_less_iff)
  show ?thesis
  proof (cases "\<lfloor>a\<rfloor> = n - 1")
    case True
    then have "a - of_int \<lfloor>a\<rfloor> < 1 / 2"
      using assms by simp
    then show ?thesis
      using True by (simp add: rne_def Let_def)
  next
    case False
    then show ?thesis
      using f rne_cases [of a] by linarith
  qed
qed

lemma rne_minus: "rne (- v) = - rne v"
proof (cases "v = of_int \<lfloor>v\<rfloor>")
  case True
  then have "rne v = \<lfloor>v\<rfloor>" "rne (- v) = - \<lfloor>v\<rfloor>"
    by (metis rne_of_int, metis rne_of_int of_int_minus)
  then show ?thesis by simp
next
  case False
  then have c: "\<lfloor>- v\<rfloor> = - \<lfloor>v\<rfloor> - 1"
    by (smt (verit) ceiling_def ceiling_altdef of_int_floor_cancel floor_minus)
  have d: "0 < v - of_int \<lfloor>v\<rfloor>" "v - of_int \<lfloor>v\<rfloor> < 1"
    using False by (smt (verit) of_int_floor_le, linarith)
  show ?thesis
    using d unfolding rne_def Let_def c by (auto simp: algebra_simps)
qed

lemma fl32_pos:
  assumes "0 < v"
  shows "fl32 v = of_int (rne (v / 2 powi (max (ilog2 v - 23) (- 149)))) * 2 powi (max (ilog2 v - 23) (- 149))"
  using assms by (simp add: fl32_def Let_def)

lemma fl32_minus: "fl32 (- v) = - fl32 v"
  by (simp add: fl32_def Let_def rne_minus)

lemma fl32_nonneg:
  assumes "0 \<le> v"
  shows "0 \<le> fl32 v"
proof (cases "v = 0")
  case True
  then show ?thesis by (simp add: fl32_def)
next
  case False
  then have v: "0 < v" using assms by simp
  have "0 \<le> v / 2 powi (max (ilog2 v - 23) (- 149))"
    using v two_powi_pos by (simp add: less_imp_le)
  then have "0 \<le> rne (v / 2 powi (max (ilog2 v - 23) (- 149)))"
    using rne_ge [of 0] by simp
  then show ?thesis
    unfolding fl32_pos [OF v] using two_powi_pos by (simp add: less_imp_le)
qed

lemma fl32_nonpos: "v \<le> 0 \<Longrightarrow> fl32 v \<le> 0"
  using fl32_nonneg [of "- v"] by (simp add: fl32_minus)

lemma fl32_le_repr:
  assumes x: "0 < x" and xv: "x \<le> v" and v: "v = of_int m * 2 powi k"
    and m: "m < 2 ^ 24" and k: "- 149 \<le> k"
  shows "fl32 x \<le> v"
proof -
  define e where "e = ilog2 x"
  define q where "q = max (e - 23) (- 149)"
  have b: "2 powi e \<le> x" "x < 2 powi (e + 1)"
    using ilog2_bounds [OF x] by (simp_all add: e_def)
  have qk: "q \<le> k"
  proof (rule ccontr)
    assume "\<not> q \<le> k"
    then have "k + 24 \<le> e"
      using k unfolding q_def by linarith
    have "of_int m < (2::real) ^ 24"
      using m by (metis of_int_less_iff of_int_numeral of_int_power)
    then have "v < 2 ^ 24 * 2 powi k"
      unfolding v using two_powi_pos [of k] by simp
    also have "\<dots> = 2 powi (k + 24)"
      by (simp add: two_powi_add)
    also have "\<dots> \<le> 2 powi e"
      using \<open>k + 24 \<le> e\<close> by (rule two_powi_mono)
    finally show False
      using b(1) xv by linarith
  qed
  have "v / 2 powi q = of_int m * 2 powi (k - q)"
    unfolding v by (simp add: two_powi_diff)
  also have "\<dots> = of_int (m * 2 ^ nat (k - q))"
    using qk by (simp add: power_int_nonneg_exp)
  finally have vq: "v / 2 powi q = of_int (m * 2 ^ nat (k - q))" .
  have "x / 2 powi q \<le> v / 2 powi q"
    using xv two_powi_pos [of q] by (simp add: divide_right_mono less_imp_le)
  then have "rne (x / 2 powi q) \<le> m * 2 ^ nat (k - q)"
    unfolding vq by (rule rne_le)
  then have "(of_int (rne (x / 2 powi q)) :: real) \<le> of_int (m * 2 ^ nat (k - q))"
    by (simp only: of_int_le_iff)
  then have "of_int (rne (x / 2 powi q)) * 2 powi q \<le> v / 2 powi q * 2 powi q"
    unfolding vq using two_powi_pos [of q] by (simp add: mult_right_mono less_imp_le)
  then show ?thesis
    unfolding fl32_pos [OF x] using two_powi_pos [of q] by (simp add: q_def e_def)
qed

lemma fl32_ge_repr:
  assumes vx: "v \<le> x" and v: "v = of_int m * 2 powi k"
    and m0: "0 < m" and m: "m < 2 ^ 24" and k: "- 149 \<le> k"
  shows "v \<le> fl32 x"
proof -
  have vpos: "0 < v"
    unfolding v using m0 two_powi_pos [of k] by simp
  then have x: "0 < x" using vx by linarith
  define e where "e = ilog2 x"
  define q where "q = max (e - 23) (- 149)"
  have b: "2 powi e \<le> x" "x < 2 powi (e + 1)"
    using ilog2_bounds [OF x] by (simp_all add: e_def)
  have fl: "fl32 x = of_int (rne (x / 2 powi q)) * 2 powi q"
    unfolding fl32_pos [OF x] by (simp add: q_def e_def)
  show ?thesis
  proof (cases "q \<le> k")
    case True
    have "v / 2 powi q = of_int m * 2 powi (k - q)"
      unfolding v by (simp add: two_powi_diff)
    also have "\<dots> = of_int (m * 2 ^ nat (k - q))"
      using True by (simp add: power_int_nonneg_exp)
    finally have vq: "v / 2 powi q = of_int (m * 2 ^ nat (k - q))" .
    have "v / 2 powi q \<le> x / 2 powi q"
      using vx two_powi_pos [of q] by (simp add: divide_right_mono less_imp_le)
    then have "m * 2 ^ nat (k - q) \<le> rne (x / 2 powi q)"
      unfolding vq by (rule rne_ge)
    then have "(of_int (m * 2 ^ nat (k - q)) :: real) \<le> of_int (rne (x / 2 powi q))"
      by (simp only: of_int_le_iff)
    then have "v / 2 powi q * 2 powi q \<le> of_int (rne (x / 2 powi q)) * 2 powi q"
      unfolding vq using two_powi_pos [of q] by (simp add: mult_right_mono less_imp_le)
    then show ?thesis
      unfolding fl using two_powi_pos [of q] by simp
  next
    case False
    then have ke: "k + 24 \<le> e" and qe: "q = e - 23"
      using k unfolding q_def by linarith+
    have "of_int m < (2::real) ^ 24"
      using m by (metis of_int_less_iff of_int_numeral of_int_power)
    then have "v < 2 ^ 24 * 2 powi k"
      unfolding v using two_powi_pos [of k] by simp
    also have "\<dots> = 2 powi (k + 24)"
      by (simp add: two_powi_add)
    also have "\<dots> \<le> 2 powi e"
      using ke by (rule two_powi_mono)
    finally have ve: "v < 2 powi e" .
    have "2 powi e / 2 powi q = (2::real) powi 23"
      unfolding qe by (simp flip: two_powi_diff)
    also have "\<dots> = of_int (2 ^ 23)"
      by simp
    finally have eq: "2 powi e / 2 powi q = (of_int (2 ^ 23) :: real)" .
    have "2 powi e / 2 powi q \<le> x / 2 powi q"
      using b(1) two_powi_pos [of q] by (simp add: divide_right_mono less_imp_le)
    then have "2 ^ 23 \<le> rne (x / 2 powi q)"
      unfolding eq by (rule rne_ge)
    then have "(of_int (2 ^ 23) :: real) \<le> of_int (rne (x / 2 powi q))"
      by (simp only: of_int_le_iff)
    then have "(2::real) powi e / 2 powi q * 2 powi q \<le> of_int (rne (x / 2 powi q)) * 2 powi q"
      unfolding eq using two_powi_pos [of q] by (simp add: mult_right_mono less_imp_le)
    then have "2 powi e \<le> fl32 x"
      unfolding fl using two_powi_pos [of q] by simp
    then show ?thesis
      using ve by linarith
  qed
qed

lemma fl32_repr:
  assumes "v = of_int m * 2 powi k" and "\<bar>m\<bar> < 2 ^ 24" and "- 149 \<le> k"
  shows "fl32 v = v"
proof -
  have pos: "fl32 w = w" if "w = of_int n * 2 powi k" "0 < n" "n < 2 ^ 24" for w n
  proof -
    have "0 < w"
      using that two_powi_pos [of k] by simp
    from fl32_le_repr [OF this _ that(1,3) assms(3)] fl32_ge_repr [OF _ that assms(3)]
    show ?thesis by force
  qed
  consider "m = 0" | "0 < m" | "m < 0" by linarith
  then show ?thesis
  proof cases
    case 1
    then show ?thesis using assms(1) by (simp add: fl32_def)
  next
    case 2
    then show ?thesis using pos [OF assms(1)] assms(2) by simp
  next
    case 3
    have "fl32 (- v) = - v"
      using pos [of "- v" "- m"] assms(1,2) 3 by simp
    then show ?thesis
      by (simp add: fl32_minus)
  qed
qed

lemma fl32_of_int:
  assumes "\<bar>n\<bar> \<le> 2 ^ 24"
  shows "fl32 (of_int n) = of_int n"
proof (cases "\<bar>n\<bar> = 2 ^ 24")
  case True
  then consider "n = 2 ^ 24" | "n = - (2 ^ 24)"
    by (auto simp: abs_if split: if_splits)
  then show ?thesis
  proof cases
    case 1
    have "(of_int n :: real) = of_int 1 * 2 powi 24"
      using 1 by simp
    then show ?thesis
      by (rule fl32_repr) simp_all
  next
    case 2
    have "(of_int n :: real) = of_int (- 1) * 2 powi 24"
      using 2 by simp
    then show ?thesis
      by (rule fl32_repr) simp_all
  qed
next
  case False
  have "(of_int n :: real) = of_int n * 2 powi 0"
    by simp
  then show ?thesis
    by (rule fl32_repr) (use False assms in simp_all)
qed

lemma float_of_int_exact: "\<bar>n\<bar> \<le> 2 ^ 24 \<Longrightarrow> float_of_int n = of_int n"
  by (simp add: float_of_int_def fl32_of_int)

lemma fl32_is_repr: "\<exists>m k. fl32 v = of_int m * 2 powi k \<and> \<bar>m\<bar> < 2 ^ 24 \<and> - 149 \<le> k"
proof -
  have pos: "\<exists>m k. fl32 w = of_int m * 2 powi k \<and> \<bar>m\<bar> < 2 ^ 24 \<and> - 149 \<le> k" if w: "0 < w" for w
  proof -
    define e where "e = ilog2 w"
    define q where "q = max (e - 23) (- 149)"
    define r where "r = rne (w / 2 powi q)"
    have b: "2 powi e \<le> w" "w < 2 powi (e + 1)"
      using ilog2_bounds [OF w] by (simp_all add: e_def)
    have fl: "fl32 w = of_int r * 2 powi q"
      unfolding fl32_pos [OF w] by (simp add: q_def e_def r_def)
    have "w / 2 powi q < 2 powi (e + 1) / 2 powi q"
      using b(2) two_powi_pos [of q] by (simp add: divide_strict_right_mono)
    also have "\<dots> = 2 powi (e + 1 - q)"
      by (simp add: two_powi_diff)
    also have "\<dots> \<le> 2 powi 24"
      by (rule two_powi_mono) (simp add: q_def)
    also have "\<dots> = of_int (2 ^ 24)"
      by simp
    finally have "r \<le> 2 ^ 24"
      unfolding r_def by (intro rne_le) simp
    moreover have "0 \<le> r"
      unfolding r_def using w two_powi_pos [of q] by (intro rne_ge) (simp add: less_imp_le)
    moreover have "- 149 \<le> q"
      by (simp add: q_def)
    ultimately consider "\<bar>r\<bar> < 2 ^ 24" | "r = 2 ^ 24"
      by linarith
    then show ?thesis
    proof cases
      case 1
      with fl \<open>- 149 \<le> q\<close> show ?thesis by blast
    next
      case 2
      have "fl32 w = of_int 1 * 2 powi (q + 24)"
        unfolding fl 2 by (simp add: two_powi_add)
      moreover have "\<bar>1::int\<bar> < 2 ^ 24" "- 149 \<le> q + 24"
        using \<open>- 149 \<le> q\<close> by simp_all
      ultimately show ?thesis by blast
    qed
  qed
  consider "v = 0" | "0 < v" | "v < 0" by linarith
  then show ?thesis
  proof cases
    case 1
    have "fl32 v = of_int 0 * 2 powi 0" "\<bar>0::int\<bar> < 2 ^ 24" "- 149 \<le> (0::int)"
      using 1 by (simp_all add: fl32_def)
    then show ?thesis by blast
  next
    case 2
    then show ?thesis by (rule pos)
  next
    case 3
    then obtain m k where "fl32 (- v) = of_int m * 2 powi k" "\<bar>m\<bar> < 2 ^ 24" "- 149 \<le> k"
      using pos [of "- v"] by auto
    then have "fl32 v = of_int (- m) * 2 powi k" "\<bar>- m\<bar> < 2 ^ 24" "- 149 \<le> k"
      by (simp_all add: fl32_minus)
    then show ?thesis by blast
  qed
qed

lemma fl32_idem: "fl32 (fl32 v) = fl32 v"
  using fl32_is_repr [of v] fl32_repr by blast

lemma fl32_le:
  assumes "x \<le> v" and "0 \<le> v" and "fl32 v = v"
  shows "fl32 x \<le> v"
proof (cases "0 < x")
  case False
  then show ?thesis
    using fl32_nonpos [of x] assms(2) by linarith
next
  case True
  obtain m k where mk: "v = of_int m * 2 powi k" "\<bar>m\<bar> < 2 ^ 24" "- 149 \<le> k"
    using fl32_is_repr [of v] assms(3) by auto
  show ?thesis
    using fl32_le_repr [OF True assms(1) mk(1) _ mk(3)] mk(2) by linarith
qed

lemma fl32_ge:
  assumes "v \<le> x" and "0 \<le> v" and "fl32 v = v"
  shows "v \<le> fl32 x"
proof (cases "v = 0")
  case True
  then show ?thesis
    using fl32_nonneg [of x] assms(1) by linarith
next
  case False
  then have v: "0 < v" using assms(2) by simp
  obtain m k where mk: "v = of_int m * 2 powi k" "\<bar>m\<bar> < 2 ^ 24" "- 149 \<le> k"
    using fl32_is_repr [of v] assms(3) by auto
  have "0 < m"
  proof (rule ccontr)
    assume "\<not> 0 < m"
    then have "of_int m * (2::real) powi k \<le> 0"
      using two_powi_pos [of k] by (simp add: mult_le_0_iff less_imp_le)
    with v mk(1) show False by linarith
  qed
  from fl32_ge_repr [OF assms(1) mk(1) this _ mk(3)] mk(2)
  show ?thesis by linarith
qed

text \<open>The quotient of two sizes, the smaller over the larger, is a float below 1.\<close>

lemma fdiv_below_1:
  assumes "0 \<le> x" and "x < w" and "w \<le> 2 ^ 24"
  shows "0 \<le> fdiv (float_of_int x) (float_of_int w) \<and>
         fdiv (float_of_int x) (float_of_int w) \<le> 16777215 / 16777216"
proof -
  have ex: "float_of_int x = of_int x" "float_of_int w = of_int w"
    using assms by (simp_all add: float_of_int_exact)
  have w: "(0::real) < of_int w"
    using assms by simp
  have "(of_int x :: real) \<le> of_int w - 1"
    using assms(2) by (metis of_int_1 of_int_diff of_int_le_iff zle_diff1_eq)
  then have "of_int x / of_int w \<le> (of_int w - 1) / (of_int w :: real)"
    using w by (simp add: divide_right_mono)
  also have "\<dots> = 1 - 1 / of_int w"
    using w by (simp add: field_simps)
  also have "\<dots> \<le> 1 - 1 / 2 ^ 24"
  proof -
    have "(of_int w :: real) \<le> 2 ^ 24"
      using assms(3) by (metis of_int_le_iff of_int_numeral of_int_power)
    then have "1 / 2 ^ 24 \<le> 1 / (of_int w :: real)"
      using w by (simp add: frac_le)
    then show ?thesis by simp
  qed
  finally have q: "of_int x / of_int w \<le> (16777215 / 16777216 :: real)"
    by simp
  have r: "fl32 (16777215 / 16777216) = 16777215 / 16777216"
    by (simp add: fl_eval)
  have "0 \<le> of_int x / (of_int w :: real)"
    using assms(1) w by simp
  then show ?thesis
    unfolding fdiv_def ex using fl32_nonneg fl32_le [OF q _ r] by simp
qed

text \<open>A float below 1 times a float stays below that float.\<close>

lemma fl32_mult_below:
  assumes p: "0 \<le> p" "p \<le> 16777215 / 16777216" and d: "1 \<le> d" "fl32 d = d"
  shows "0 \<le> fl32 (p * d) \<and> fl32 (p * d) < d"
proof -
  define a where "a = p * d"
  define e where "e = ilog2 d"
  have dpos: "0 < d" using d(1) by simp
  have a0: "0 \<le> a" unfolding a_def using p(1) dpos by simp
  have ad: "a \<le> d - d / 2 ^ 24"
  proof -
    have "a \<le> (16777215 / 16777216) * d"
      unfolding a_def using p(2) dpos by (simp add: mult_right_mono)
    then show ?thesis by (simp add: field_simps)
  qed
  have b: "2 powi e \<le> d" "d < 2 powi (e + 1)"
    using ilog2_bounds [OF dpos] by (simp_all add: e_def)
  have e0: "0 \<le> e"
  proof (rule ccontr)
    assume "\<not> 0 \<le> e"
    then have "(2::real) powi (e + 1) \<le> 2 powi 0"
      by (intro two_powi_mono) simp
    with b(2) d(1) show False by simp
  qed
  have upper: "fl32 a < d"
  proof (cases "d = 2 powi e")
    case True
    have "a \<le> 2 powi e - 2 powi e / 2 ^ 24"
      using ad True by simp
    also have "\<dots> = of_int 16777215 * 2 powi (e - 24)"
      by (simp add: two_powi_diff field_simps)
    finally have le: "a \<le> of_int 16777215 * 2 powi (e - 24)" .
    have r: "fl32 (of_int 16777215 * 2 powi (e - 24)) = of_int 16777215 * 2 powi (e - 24)"
      by (rule fl32_repr [OF refl]) (use e0 in simp_all)
    have "fl32 a \<le> of_int 16777215 * 2 powi (e - 24)"
      by (rule fl32_le [OF le _ r]) (simp add: two_powi_pos less_imp_le)
    also have "\<dots> < 2 powi e"
      using two_powi_pos [of e] by (simp add: two_powi_diff field_simps)
    finally show ?thesis using True by simp
  next
    case False
    then have dgt: "2 powi e < d"
      using b(1) by simp
    show ?thesis
    proof (cases "a < 2 powi e")
      case True
      have r: "fl32 (2 powi e) = 2 powi e"
        using fl32_repr [of "2 powi e" 1 e] e0 by simp
      have "fl32 a \<le> 2 powi e"
        by (rule fl32_le [OF _ _ r]) (use True two_powi_pos [of e] in simp_all)
      then show ?thesis using dgt by linarith
    next
      case False
      then have lo: "2 powi e \<le> a" by simp
      have apos: "0 < a" using lo two_powi_pos [of e] by linarith
      have "0 < d / 2 ^ 24"
        using dpos by simp
      then have "a < d"
        using ad by linarith
      then have "a < 2 powi (e + 1)"
        using b(2) by linarith
      then have ia: "ilog2 a = e"
        using lo by (intro ilog2_unique)
      define q where "q = e - 23"
      have qmax: "max (ilog2 a - 23) (- 149) = q"
        using ia e0 by (simp add: q_def)
      have fl: "fl32 a = of_int (rne (a / 2 powi q)) * 2 powi q"
        unfolding fl32_pos [OF apos] qmax ..
      obtain m k where mk: "d = of_int m * 2 powi k" "\<bar>m\<bar> < 2 ^ 24" "- 149 \<le> k"
        using fl32_is_repr [of d] d(2) by auto
      have qk: "q \<le> k"
      proof (rule ccontr)
        assume "\<not> q \<le> k"
        then have "k + 24 \<le> e"
          unfolding q_def by linarith
        have "of_int m < (2::real) ^ 24"
          using mk(2) by (metis abs_less_iff of_int_less_iff of_int_numeral of_int_power)
        then have "d < 2 ^ 24 * 2 powi k"
          unfolding mk(1) using two_powi_pos [of k] by simp
        also have "\<dots> = 2 powi (k + 24)"
          by (simp add: two_powi_add)
        also have "\<dots> \<le> 2 powi e"
          using \<open>k + 24 \<le> e\<close> by (rule two_powi_mono)
        finally show False
          using b(1) by linarith
      qed
      define N where "N = m * 2 ^ nat (k - q)"
      have N: "of_int N = d / 2 powi q"
      proof -
        have "d / 2 powi q = of_int m * 2 powi (k - q)"
          unfolding mk(1) by (simp add: two_powi_diff)
        also have "\<dots> = of_int (m * 2 ^ nat (k - q))"
          using qk by (simp add: power_int_nonneg_exp)
        finally show ?thesis by (simp add: N_def)
      qed
      have "a / 2 powi q \<le> (d - d / 2 ^ 24) / 2 powi q"
        by (rule divide_right_mono [OF ad]) (simp add: two_powi_pos less_imp_le)
      also have "\<dots> = of_int N - d / 2 powi (e + 1)"
        unfolding N q_def by (simp add: two_powi_diff two_powi_add field_simps)
      also have "\<dots> < of_int N - 1 / 2"
      proof -
        have "1 / 2 < d / 2 powi (e + 1)"
          using dgt two_powi_pos [of e] by (simp add: two_powi_add field_simps)
        then show ?thesis by simp
      qed
      finally have "rne (a / 2 powi q) \<le> N - 1"
        by (rule rne_below_half)
      then have "(of_int (rne (a / 2 powi q)) :: real) \<le> of_int (N - 1)"
        by (simp only: of_int_le_iff)
      then have "fl32 a \<le> of_int (N - 1) * 2 powi q"
        unfolding fl using two_powi_pos [of q] by (simp add: mult_right_mono less_imp_le)
      also have "\<dots> = d - 2 powi q"
        using N two_powi_pos [of q] by (simp add: field_simps)
      also have "\<dots> < d"
        using two_powi_pos [of q] by simp
      finally show ?thesis .
    qed
  qed
  with fl32_nonneg [OF a0] show ?thesis
    by (simp add: a_def)
qed

text \<open>A float below \<^verbatim>\<open>float(n)\<close> is below \<open>n\<close>.\<close>

lemma below_float_of_int:
  assumes "t < float_of_int n" and "0 \<le> t" and "fl32 t = t"
  shows "t < of_int n"
proof (rule ccontr)
  assume "\<not> t < of_int n"
  then have "of_int n \<le> t" by simp
  from fl32_le [OF this assms(2,3)] assms(1) show False
    by (simp add: float_of_int_def)
qed

lemma float_of_int_ge_1: "1 \<le> n \<Longrightarrow> 1 \<le> float_of_int n"
  unfolding float_of_int_def by (rule fl32_ge) (simp_all add: fl32_1)

lemma int_of_float_nonneg: "0 \<le> v \<Longrightarrow> int_of_float v = \<lfloor>v\<rfloor>"
  by (simp add: int_of_float_def)

text \<open>The nearest cell of the point filter, and the sample of the input image.\<close>

lemma point_cell_in_range:
  assumes "0 \<le> x" and "x < w" and "w \<le> 2 ^ 24" and "1 \<le> d"
  shows "0 \<le> int_of_float (fmul (fdiv (float_of_int x) (float_of_int w)) (float_of_int d)) \<and>
         int_of_float (fmul (fdiv (float_of_int x) (float_of_int w)) (float_of_int d)) < d"
proof -
  define p where "p = fdiv (float_of_int x) (float_of_int w)"
  define t where "t = fmul p (float_of_int d)"
  have p: "0 \<le> p" "p \<le> 16777215 / 16777216"
    using fdiv_below_1 [OF assms(1-3)] by (simp_all add: p_def)
  have fd: "1 \<le> float_of_int d" "fl32 (float_of_int d) = float_of_int d"
    using assms(4) by (simp_all add: float_of_int_ge_1) (simp add: float_of_int_def fl32_idem)
  have m: "0 \<le> t" "t < float_of_int d"
    using fl32_mult_below [OF p fd] by (simp_all add: t_def fmul_def)
  have "fl32 t = t"
    by (simp add: t_def fmul_def fl32_idem)
  then have "t < of_int d"
    using m by (intro below_float_of_int)
  then have "0 \<le> \<lfloor>t\<rfloor>" "\<lfloor>t\<rfloor> < d"
    using m(1) by (simp_all add: floor_less_iff)
  then show ?thesis
    using m(1) by (simp add: int_of_float_nonneg p_def t_def)
qed

lemma linear_cell_in_range:
  assumes "0 \<le> x" and "x < w" and "w \<le> 2 ^ 24" and "1 \<le> d"
  defines "b \<equiv> fsub (fmul (fdiv (float_of_int x) (float_of_int w)) (float_of_int d)) (1 / 2)"
  shows "0 \<le> int_of_float (if b < 0 then 0 else b) \<and> int_of_float (if b < 0 then 0 else b) \<le> d - 1"
proof -
  define t where "t = fmul (fdiv (float_of_int x) (float_of_int w)) (float_of_int d)"
  define c where "c = (if b < 0 then 0 else b)"
  have p: "0 \<le> fdiv (float_of_int x) (float_of_int w)"
          "fdiv (float_of_int x) (float_of_int w) \<le> 16777215 / 16777216"
    using fdiv_below_1 [OF assms(1-3)] by simp_all
  have fd: "1 \<le> float_of_int d" "fl32 (float_of_int d) = float_of_int d"
    using assms(4) by (simp_all add: float_of_int_ge_1) (simp add: float_of_int_def fl32_idem)
  have t: "0 \<le> t" "t < float_of_int d"
    using fl32_mult_below [OF p fd] by (simp_all add: t_def fmul_def)
  have tt: "fl32 t = t"
    by (simp add: t_def fmul_def fl32_idem)
  have "b \<le> t"
    unfolding b_def fsub_def t_def [symmetric] by (rule fl32_le [OF _ t(1) tt]) simp
  then have c: "0 \<le> c" "c < float_of_int d"
    using t fd(1) by (auto simp: c_def)
  have "fl32 c = c"
    by (simp add: c_def b_def fsub_def fl32_idem fl32_0)
  then have "c < of_int d"
    using c by (intro below_float_of_int)
  then have "0 \<le> \<lfloor>c\<rfloor>" "\<lfloor>c\<rfloor> < d"
    using c(1) by (simp_all add: floor_less_iff)
  then show ?thesis
    using c(1) by (simp add: int_of_float_nonneg c_def [symmetric])
qed

subsection \<open>Relative error and the weights of an axis\<close>

lemma rne_err: "\<bar>of_int (rne y) - y\<bar> \<le> 1 / 2"
proof -
  have "of_int \<lfloor>y\<rfloor> \<le> y" "y < of_int \<lfloor>y\<rfloor> + 1"
    by linarith+
  then show ?thesis
    unfolding rne_def Let_def by (auto simp: abs_le_iff)
qed

text \<open>In the normal range a rounding changes a value by at most one part in \<open>2 ^ 24\<close>.\<close>

lemma fl32_rel_err:
  assumes "2 powi (- 126) \<le> v"
  shows "\<bar>fl32 v - v\<bar> \<le> v / 2 ^ 24"
proof -
  have v: "0 < v"
    using assms two_powi_pos [of "- 126"] by linarith
  define e where "e = ilog2 v"
  define q where "q = e - 23"
  have b: "2 powi e \<le> v" "v < 2 powi (e + 1)"
    using ilog2_bounds [OF v] by (simp_all add: e_def)
  have "- 126 \<le> e"
  proof (rule ccontr)
    assume "\<not> - 126 \<le> e"
    then have "(2::real) powi (e + 1) \<le> 2 powi (- 126)"
      by (intro two_powi_mono) simp
    with b(2) assms show False by linarith
  qed
  then have qmax: "max (ilog2 v - 23) (- 149) = q"
    by (simp add: q_def e_def)
  have fl: "fl32 v = of_int (rne (v / 2 powi q)) * 2 powi q"
    unfolding fl32_pos [OF v] qmax ..
  have "fl32 v - v = (of_int (rne (v / 2 powi q)) - v / 2 powi q) * 2 powi q"
    unfolding fl using two_powi_pos [of q] by (simp add: field_simps)
  then have "\<bar>fl32 v - v\<bar> = \<bar>of_int (rne (v / 2 powi q)) - v / 2 powi q\<bar> * 2 powi q"
    using two_powi_pos [of q] by (simp add: abs_mult)
  also have "\<dots> \<le> 1 / 2 * 2 powi q"
    using rne_err [of "v / 2 powi q"] two_powi_pos [of q] by (intro mult_right_mono) simp_all
  also have "\<dots> = 2 powi e / 2 ^ 24"
    unfolding q_def by (simp add: two_powi_diff)
  also have "\<dots> \<le> v / 2 ^ 24"
    using b(1) by (simp add: divide_right_mono)
  finally show ?thesis .
qed

lemma fl32_rel:
  assumes "v = 0 \<or> 2 powi (- 126) \<le> v"
  shows "v * (16777215 / 16777216) \<le> fl32 v \<and> fl32 v \<le> v * (16777217 / 16777216)"
proof (cases "v = 0")
  case True
  then show ?thesis by (simp add: fl32_0)
next
  case False
  then have "2 powi (- 126) \<le> v" using assms by simp
  from fl32_rel_err [OF this] have "\<bar>fl32 v - v\<bar> \<le> v / 16777216"
    by simp
  then have "fl32 v - v \<le> v / 16777216" "v - fl32 v \<le> v / 16777216"
    by linarith+
  then have "v * (16777215 / 16777216) \<le> fl32 v" "fl32 v \<le> v * (16777217 / 16777216)"
    by linarith+
  then show ?thesis ..
qed

lemma fl32_normal:
  assumes "v = 0 \<or> 2 powi (- 126) \<le> v"
  shows "fl32 v = 0 \<or> 2 powi (- 126) \<le> fl32 v"
proof (cases "v = 0")
  case True
  then show ?thesis by (simp add: fl32_0)
next
  case False
  then have v: "2 powi (- 126) \<le> v" using assms by simp
  have "fl32 (2 powi (- 126)) = 2 powi (- 126)"
    using fl32_repr [of "2 powi (- 126)" 1 "- 126"] by simp
  from fl32_ge [OF v _ this] show ?thesis
    using two_powi_pos [of "- 126"] by (simp add: less_imp_le)
qed

text \<open>The floats between 1/2 and 1 are the multiples of \<open>2 powi - 24\<close>.\<close>

lemma float_on_grid:
  assumes "fl32 v = v" and "1 / 2 \<le> v" and "v \<le> 1"
  shows "\<exists>M::int. v = of_int M / 2 ^ 24 \<and> 0 \<le> M \<and> M \<le> 2 ^ 24"
proof -
  obtain m k where mk: "v = of_int m * 2 powi k" "\<bar>m\<bar> < 2 ^ 24" "- 149 \<le> k"
    using fl32_is_repr [of v] assms(1) by auto
  have k: "- 24 \<le> k"
  proof (rule ccontr)
    assume "\<not> - 24 \<le> k"
    then have "k + 24 \<le> - 1" by simp
    have "of_int m < (2::real) ^ 24"
      using mk(2) by (metis abs_less_iff of_int_less_iff of_int_numeral of_int_power)
    then have "v < 2 ^ 24 * 2 powi k"
      unfolding mk(1) using two_powi_pos [of k] by simp
    also have "\<dots> = 2 powi (k + 24)"
      by (simp add: two_powi_add)
    also have "\<dots> \<le> 2 powi (- 1)"
      using \<open>k + 24 \<le> - 1\<close> by (rule two_powi_mono)
    finally show False
      using assms(2) by simp
  qed
  define M where "M = m * 2 ^ nat (k + 24)"
  have "v = of_int m * 2 powi (k + 24) / 2 ^ 24"
    unfolding mk(1) by (simp add: two_powi_add)
  also have "of_int m * 2 powi (k + 24) = (of_int M :: real)"
    using k by (simp add: M_def power_int_nonneg_exp)
  finally have v: "v = of_int M / 2 ^ 24" .
  have "0 \<le> (of_int M :: real)" "(of_int M :: real) \<le> 2 ^ 24"
    using assms(2,3) unfolding v by (simp_all add: field_simps)
  then have "0 \<le> M" "M \<le> 2 ^ 24"
    by (simp_all add: of_int_le_numeral_power_cancel_iff)
  with v show ?thesis by blast
qed

lemma grid_is_float:
  assumes "0 \<le> M" and "M \<le> 2 ^ 24"
  shows "fl32 (of_int M / 2 ^ 24) = of_int M / 2 ^ 24"
proof (cases "M = 2 ^ 24")
  case True
  then show ?thesis by (simp add: fl32_1)
next
  case False
  have "of_int M / 2 ^ 24 = of_int M * (2::real) powi (- 24)"
    by (simp add: power_int_minus field_simps)
  then show ?thesis
    by (rule fl32_repr) (use assms False in simp_all)
qed

text \<open>
  The two weights of an axis, \<^verbatim>\<open>1.0f - d\<close> and \<^verbatim>\<open>1.0f - (1.0f - d)\<close> for a float \<open>d\<close> in
  \<open>[0, 1]\<close>, lie on the grid of step \<open>2 powi - 24\<close> and add up to 1 exactly.
\<close>

lemma axis_weights:
  assumes "fl32 d = d" and "0 \<le> d" and "d \<le> 1"
  shows "\<exists>A::int. 0 \<le> A \<and> A \<le> 2 ^ 24 \<and> fsub 1 d = of_int A / 2 ^ 24 \<and>
           fsub 1 (fsub 1 d) = of_int (2 ^ 24 - A) / 2 ^ 24"
proof (cases "d \<le> 1 / 2")
  case True
  have h: "fl32 (1 / 2) = 1 / 2"
    by (simp add: fl_eval)
  have "1 / 2 \<le> fsub 1 d"
    unfolding fsub_def by (rule fl32_ge [OF _ _ h]) (use True in simp_all)
  moreover have "fsub 1 d \<le> 1"
    unfolding fsub_def by (rule fl32_le [OF _ _ fl32_1]) (use assms(2) in simp_all)
  moreover have "fl32 (fsub 1 d) = fsub 1 d"
    by (simp add: fsub_def fl32_idem)
  ultimately obtain M :: int where M: "fsub 1 d = of_int M / 2 ^ 24" "0 \<le> M" "M \<le> 2 ^ 24"
    using float_on_grid by blast
  have e: "1 - fsub 1 d = of_int (2 ^ 24 - M) / 2 ^ 24"
    unfolding M(1) by (simp add: field_simps)
  have "fsub 1 (fsub 1 d) = fl32 (1 - fsub 1 d)"
    by (rule fsub_def)
  also have "\<dots> = fl32 (of_int (2 ^ 24 - M) / 2 ^ 24)"
    by (simp only: e)
  also have "\<dots> = of_int (2 ^ 24 - M) / 2 ^ 24"
    by (rule grid_is_float) (use M in simp_all)
  finally show ?thesis
    using M by blast
next
  case False
  then obtain M :: int where M: "d = of_int M / 2 ^ 24" "0 \<le> M" "M \<le> 2 ^ 24"
    using float_on_grid [OF assms(1) _ assms(3)] by auto
  have s: "1 - d = of_int (2 ^ 24 - M) / 2 ^ 24"
    unfolding M(1) by (simp add: field_simps)
  have "fl32 (of_int (2 ^ 24 - M) / 2 ^ 24) = of_int (2 ^ 24 - M) / 2 ^ 24"
    by (rule grid_is_float) (use M in simp_all)
  then have a1: "fsub 1 d = of_int (2 ^ 24 - M) / 2 ^ 24"
    by (simp add: fsub_def s)
  have "1 - fsub 1 d = 1 - of_int (2 ^ 24 - M) / 2 ^ 24"
    by (simp only: a1)
  also have "\<dots> = d"
    unfolding M(1) by (simp add: field_simps)
  finally have e: "1 - fsub 1 d = d" .
  have "fsub 1 (fsub 1 d) = fl32 (1 - fsub 1 d)"
    by (rule fsub_def)
  also have "\<dots> = d"
    unfolding e by (rule assms(1))
  finally have a2: "fsub 1 (fsub 1 d) = d" .
  have "d = of_int (2 ^ 24 - (2 ^ 24 - M)) / 2 ^ 24"
    by (subst M(1)) simp
  with a2 have "fsub 1 (fsub 1 d) = of_int (2 ^ 24 - (2 ^ 24 - M)) / 2 ^ 24"
    by (rule trans)
  moreover have "0 \<le> 2 ^ 24 - M" "2 ^ 24 - M \<le> 2 ^ 24"
    using M by simp_all
  ultimately show ?thesis
    using a1 by blast
qed

text \<open>The integer part of a float is a float, and its fraction is a float in \<open>[0, 1]\<close>.\<close>

lemma floor_float:
  assumes "fl32 v = v" and "0 \<le> v"
  shows "float_of_int \<lfloor>v\<rfloor> = of_int \<lfloor>v\<rfloor>"
proof -
  obtain m k where mk: "v = of_int m * 2 powi k" "\<bar>m\<bar> < 2 ^ 24" "- 149 \<le> k"
    using fl32_is_repr [of v] assms(1) by auto
  have m0: "0 \<le> m"
  proof (rule ccontr)
    assume "\<not> 0 \<le> m"
    then have "of_int m * (2::real) powi k < 0"
      using two_powi_pos [of k] by (simp add: mult_less_0_iff)
    with assms(2) mk(1) show False by simp
  qed
  show ?thesis
  proof (cases "0 \<le> k")
    case True
    then have vi: "v = of_int (m * 2 ^ nat k)"
      unfolding mk(1) by (simp add: power_int_nonneg_exp)
    have fv: "of_int \<lfloor>v\<rfloor> = v"
      by (subst (1 2) vi) (simp only: floor_of_int)
    show ?thesis
      unfolding float_of_int_def fv by (rule assms(1))
  next
    case False
    then have "v = of_int m / of_int (2 ^ nat (- k))"
      unfolding mk(1) by (simp add: power_int_def field_simps)
    then have "\<lfloor>v\<rfloor> = m div 2 ^ nat (- k)"
      by (simp only: floor_divide_of_int_eq)
    moreover have "m div 2 ^ nat (- k) \<le> m div 1"
      using m0 by (intro zdiv_mono2) simp_all
    then have "m div 2 ^ nat (- k) \<le> m"
      by simp
    moreover have "0 \<le> m div 2 ^ nat (- k)"
      using m0 by (simp add: pos_imp_zdiv_nonneg_iff)
    ultimately have "\<bar>\<lfloor>v\<rfloor>\<bar> \<le> 2 ^ 24"
      using mk(2) by simp
    then show ?thesis
      by (rule float_of_int_exact)
  qed
qed

lemma fraction_float:
  assumes "fl32 v = v" and "0 \<le> v"
  defines "d \<equiv> fsub v (float_of_int (int_of_float v))"
  shows "fl32 d = d \<and> 0 \<le> d \<and> d \<le> 1"
proof -
  have i: "float_of_int (int_of_float v) = of_int \<lfloor>v\<rfloor>"
    using assms(2) floor_float [OF assms(1,2)] by (simp add: int_of_float_def)
  have "0 \<le> v - of_int \<lfloor>v\<rfloor>" "v - of_int \<lfloor>v\<rfloor> \<le> 1"
    by linarith+
  then have "0 \<le> d" "d \<le> 1"
    unfolding d_def fsub_def i using fl32_nonneg fl32_le [OF _ _ fl32_1] by simp_all
  moreover have "fl32 d = d"
    by (simp add: d_def fsub_def fl32_idem)
  ultimately show ?thesis by simp
qed

lemma point_cell_near_floor:
  assumes x: "0 \<le> x" "x < w" and w: "w \<le> 2 ^ 24" and d: "1 \<le> d" "d \<le> 2 ^ 22"
  shows "\<bar>int_of_float (fmul (fdiv (float_of_int x) (float_of_int w)) (float_of_int d))
           - \<lfloor>of_int x / of_int w * (of_int d :: real)\<rfloor>\<bar> \<le> 1"
proof -
  have ex: "float_of_int x = of_int x" "float_of_int w = of_int w" "float_of_int d = of_int d"
    using x w d by (simp_all add: float_of_int_exact)
  define t0 :: real where "t0 = of_int x / of_int w"
  define p where "p = fl32 t0"
  define c where "c = fl32 (p * of_int d)"
  define t :: real where "t = t0 * of_int d"
  have w0: "(0::real) < of_int w" "(of_int w :: real) \<le> 2 ^ 24"
    using x w by simp_all
  have t0: "0 \<le> t0" "t0 < 1"
    using x by (simp_all add: t0_def)
  have dr: "(1::real) \<le> of_int d" "(of_int d :: real) \<le> 2 ^ 22"
    using d by simp_all
  have t: "0 \<le> t" "t < 2 ^ 22"
  proof -
    show "0 \<le> t" using t0 dr by (simp add: t_def)
    have "t \<le> t0 * 2 ^ 22"
      unfolding t_def using t0(1) dr(2) by (rule mult_left_mono [rotated])
    also have "\<dots> < 1 * 2 ^ 22"
      using t0(2) by (intro mult_strict_right_mono) simp_all
    finally show "t < 2 ^ 22" by simp
  qed
  have n0: "t0 = 0 \<or> 2 powi (- 126) \<le> t0"
  proof (cases "x = 0")
    case True
    then show ?thesis by (simp add: t0_def)
  next
    case False
    then have "(1::real) \<le> of_int x" using x by simp
    then have "1 / of_int w \<le> t0"
      unfolding t0_def using w0 by (intro divide_right_mono) simp_all
    moreover have "1 / 2 ^ 24 \<le> 1 / (of_int w :: real)"
      using w0 by (intro divide_left_mono) simp_all
    moreover have "(2::real) powi (- 126) \<le> 1 / 2 ^ 24"
      by (simp add: power_int_minus field_simps)
    ultimately show ?thesis by linarith
  qed
  have p: "t0 * (16777215 / 16777216) \<le> p" "p \<le> t0 * (16777217 / 16777216)"
    using fl32_rel [OF n0] by (simp_all add: p_def)
  have p0: "0 \<le> p"
    unfolding p_def using t0(1) by (rule fl32_nonneg)
  have nv: "p * of_int d = 0 \<or> 2 powi (- 126) \<le> p * of_int d"
  proof (cases "t0 = 0")
    case True
    then show ?thesis by (simp add: p_def fl32_0)
  next
    case False
    then have "2 powi (- 126) \<le> t0" using n0 by simp
    moreover have "fl32 (2 powi (- 126)) = 2 powi (- 126)"
      using fl32_repr [of "2 powi (- 126)" 1 "- 126"] by simp
    ultimately have "2 powi (- 126) \<le> p"
      unfolding p_def using two_powi_pos [of "- 126"] by (intro fl32_ge) (simp_all add: less_imp_le)
    then have "2 powi (- 126) * 1 \<le> p * of_int d"
      using dr(1) two_powi_pos [of "- 126"] by (intro mult_mono) (simp_all add: less_imp_le)
    then show ?thesis by simp
  qed
  have c: "p * of_int d * (16777215 / 16777216) \<le> c" "c \<le> p * of_int d * (16777217 / 16777216)"
    using fl32_rel [OF nv] by (simp_all add: c_def)
  have "t0 * (16777215 / 16777216) * of_int d \<le> p * of_int d"
    using p(1) dr(1) by (intro mult_right_mono) simp_all
  then have lo: "t * (16777215 / 16777216) * (16777215 / 16777216) \<le> c"
    using c(1) by (simp add: t_def mult.commute mult.left_commute)
  have "p * of_int d \<le> t0 * (16777217 / 16777216) * of_int d"
    using p(2) dr(1) by (intro mult_right_mono) simp_all
  then have hi: "c \<le> t * (16777217 / 16777216) * (16777217 / 16777216)"
    using c(2) by (simp add: t_def mult.commute mult.left_commute)
  have c0: "0 \<le> c"
    unfolding c_def using p0 dr(1) by (intro fl32_nonneg) simp
  have "t - 1 < c" "c < t + 1"
    using lo hi t by simp_all
  then have "\<lfloor>t\<rfloor> - 1 \<le> \<lfloor>c\<rfloor>" "\<lfloor>c\<rfloor> \<le> \<lfloor>t\<rfloor> + 1"
    by linarith+
  then have "\<bar>\<lfloor>c\<rfloor> - \<lfloor>t\<rfloor>\<bar> \<le> 1"
    by simp
  then show ?thesis
    using c0 by (simp add: ex fdiv_def fmul_def int_of_float_nonneg c_def p_def t_def t0_def)
qed


section \<open>Threads, stores and the grid\<close>

lemma store_eq_Store: "store i p = Store j q \<longleftrightarrow> i = j \<and> p = Some q"
  by (cases p) (auto simp: store_def)

lemma store_not_Idle: "store i p \<noteq> Idle"
  by (cases p) (auto simp: store_def)

lemma gpuSegOverlay_Store:
  assumes "gpuSegOverlay T fl mo input iw ih ow oh cc sc sd x y = Store j p"
  shows "int x < ow \<and> int y < oh \<and> j = int y * ow + int x"
  using assms unfolding gpuSegOverlay_def Let_def
  by (auto simp: store_eq_Store split: if_splits)

lemma run_thread_Trapped: "run_thread k t Trapped = Trapped"
  by (simp add: run_thread_def)

lemma run_thread_Completed:
  "run_thread k t (Completed buf) =
     (case k (fst t) (snd t) of
        Idle \<Rightarrow> Completed buf
      | Fault \<Rightarrow> Trapped
      | Store i p \<Rightarrow> if 0 \<le> i \<and> i < int (length buf) then Completed (buf[nat i := p]) else Trapped)"
  by (simp add: run_thread_def)

lemma fold_run_thread_Trapped: "fold (run_thread k) ts Trapped = Trapped"
  by (induction ts) (simp_all add: run_thread_Trapped)

lemma fold_run_thread_nth:
  assumes "fold (run_thread k) ts (Completed buf) = Completed buf'"
    and "\<forall>t\<in>set ts. \<forall>q. k (fst t) (snd t) = Store (int i) q \<longrightarrow> q = p"
    and "i < length buf"
  shows "length buf' = length buf \<and>
         buf' ! i = (if \<exists>t\<in>set ts. k (fst t) (snd t) = Store (int i) p then p else buf ! i)"
  using assms
proof (induction ts arbitrary: buf)
  case Nil
  then show ?case by simp
next
  case (Cons t ts)
  show ?case
  proof (cases "k (fst t) (snd t)")
    case Idle
    with Cons.prems have "fold (run_thread k) ts (Completed buf) = Completed buf'"
      by (simp add: run_thread_Completed)
    from Cons.IH [OF this] Cons.prems Idle show ?thesis by simp
  next
    case Fault
    with Cons.prems show ?thesis
      by (simp add: run_thread_Completed fold_run_thread_Trapped)
  next
    case (Store j q)
    show ?thesis
    proof (cases "0 \<le> j \<and> j < int (length buf)")
      case False
      with Cons.prems Store show ?thesis
        by (simp add: run_thread_Completed fold_run_thread_Trapped)
    next
      case True
      with Cons.prems Store
      have f: "fold (run_thread k) ts (Completed (buf[nat j := q])) = Completed buf'"
        by (simp add: run_thread_Completed)
      have "length buf' = length (buf[nat j := q]) \<and>
            buf' ! i = (if \<exists>t\<in>set ts. k (fst t) (snd t) = Store (int i) p then p else buf[nat j := q] ! i)"
        using Cons.IH [OF f] Cons.prems by simp
      moreover have "j = int i \<Longrightarrow> q = p"
        using Cons.prems(2) Store by simp
      moreover have "j \<noteq> int i \<Longrightarrow> nat j \<noteq> i"
        using True by auto
      ultimately show ?thesis
        using Store True Cons.prems(3) by (cases "j = int i") auto
    qed
  qed
qed

lemma set_grid_threads: "set (grid_threads g) = {(x, y). x < fst g * 8 \<and> y < snd g * 8}"
  by (auto simp: grid_threads_def)

lemma fold_run_thread_in_range:
  assumes "fold (run_thread k) ts (Completed buf) = Completed buf'"
    and "t \<in> set ts" and "k (fst t) (snd t) = Store j q"
  shows "0 \<le> j \<and> j < int (length buf)"
  using assms
proof (induction ts arbitrary: buf)
  case Nil
  then show ?case by simp
next
  case (Cons a ts)
  obtain buf1 where b1: "run_thread k a (Completed buf) = Completed buf1"
    using Cons.prems(1) by (cases "run_thread k a (Completed buf)") (simp_all add: fold_run_thread_Trapped)
  have len: "length buf1 = length buf"
    using b1 by (auto simp: run_thread_Completed split: thread_result.splits if_splits)
  show ?case
  proof (cases "t = a")
    case True
    then show ?thesis
      using b1 Cons.prems(3) by (auto simp: run_thread_Completed split: if_splits)
  next
    case False
    then have "t \<in> set ts" using Cons.prems(2) by simp
    moreover have "fold (run_thread k) ts (Completed buf1) = Completed buf'"
      using Cons.prems(1) b1 by simp
    ultimately show ?thesis
      using Cons.IH [of buf1] Cons.prems(3) len by simp
  qed
qed

lemma pixel_index_inj:
  assumes "int x' < ow" and "int x < ow" and e: "int y' * ow + int x' = int y * ow + int x"
  shows "x' = x \<and> y' = y"
proof -
  have "(int y' * ow + int x') mod ow = (int y * ow + int x) mod ow"
    using e by simp
  then have x: "int x' = int x"
    using assms(1,2) by simp
  then have "int y' * ow = int y * ow"
    using e by simp
  moreover have "0 < ow"
    using assms(2) of_nat_0_le_iff [of x, where ?'a = int] by linarith
  ultimately show ?thesis
    using x by simp
qed

lemma rd_Some: "0 \<le> i \<Longrightarrow> i < int (length xs) \<Longrightarrow> rd (Some xs) i = Some (xs ! nat i)"
  by (simp add: rd_def)

lemma make_vec_float4: "make_vec T_float4 a b c 255 = Some (Float4 a b c 1)"
  by (simp add: make_vec_def fdiv_def fl32_1)

lemma make_vec_float3: "make_vec T_float3 a b c d = Some (Float3 a b c)"
  by (simp add: make_vec_def)

lemma uchar_of_float_of_int:
  "0 \<le> n \<Longrightarrow> n \<le> 255 \<Longrightarrow> uchar_of_float (of_int n) = Some (word_of_int n)"
  by (simp add: uchar_of_float_def int_of_float_def)

lemma uchar_of_float_255: "uchar_of_float 255 = Some 255"
  using uchar_of_float_of_int [of 255] by simp

lemma fold_run_thread_no_fault:
  assumes "fold (run_thread k) ts (Completed buf) = Completed buf'" and "t \<in> set ts"
  shows "k (fst t) (snd t) \<noteq> Fault"
  using assms
proof (induction ts arbitrary: buf)
  case Nil
  then show ?case by simp
next
  case (Cons a ts)
  obtain buf1 where b1: "run_thread k a (Completed buf) = Completed buf1"
    using Cons.prems(1) by (cases "run_thread k a (Completed buf)") (simp_all add: fold_run_thread_Trapped)
  show ?case
  proof (cases "t = a")
    case True
    then show ?thesis
      using b1 by (auto simp: run_thread_Completed)
  next
    case False
    then show ?thesis
      using Cons.IH [of buf1] Cons.prems b1 by simp
  qed
qed

lemma gpuSegOverlay_not_Idle:
  "int x < ow \<Longrightarrow> int y < oh \<Longrightarrow> gpuSegOverlay T fl mo input iw ih ow oh cc sc sd x y \<noteq> Idle"
  unfolding gpuSegOverlay_def Let_def by (simp add: store_not_Idle)

text \<open>
  Every kernel of the source stores at the index \<open>y * width + x\<close> of its own thread, so no two
  threads of a grid store at the same place: after a run that completed, the buffer holds at
  the index of a thread what that thread stored.
\<close>

lemma run_grid_pixel:
  assumes run: "run_grid g k buf = Completed buf'"
    and idx: "\<And>x' y' j q. k x' y' = Store j q \<Longrightarrow> int x' < w \<and> j = int y' * w + int x'"
    and live: "k x y \<noteq> Idle"
    and x: "x < fst g * 8" and y: "y < snd g * 8"
  shows "k x y = Store (int y * w + int x) (buf' ! nat (int y * w + int x))"
proof -
  have f: "fold (run_thread k) (grid_threads g) (Completed buf) = Completed buf'"
    using run by (simp add: run_grid_def)
  have mem: "(x, y) \<in> set (grid_threads g)"
    using x y by (simp add: set_grid_threads)
  have "k x y \<noteq> Fault"
    using fold_run_thread_no_fault [OF f mem] by simp
  then obtain j p where st: "k x y = Store j p"
    using live by (cases "k x y") simp_all
  have rng: "0 \<le> j \<and> j < int (length buf)"
    using fold_run_thread_in_range [OF f mem] st by simp
  have j: "j = int y * w + int x" and xw: "int x < w"
    using idx [OF st] by simp_all
  have agree: "\<forall>t\<in>set (grid_threads g). \<forall>q. k (fst t) (snd t) = Store (int (nat j)) q \<longrightarrow> q = p"
  proof (intro ballI allI impI)
    fix t q assume "k (fst t) (snd t) = Store (int (nat j)) q"
    then have s: "k (fst t) (snd t) = Store j q" using rng by simp
    from idx [OF s] j
    have "int (snd t) * w + int (fst t) = int y * w + int x" "int (fst t) < w" by simp_all
    then have "fst t = x \<and> snd t = y"
      using xw by (intro pixel_index_inj [of _ w]) simp_all
    then show "q = p" using s st by simp
  qed
  from fold_run_thread_nth [OF f agree] rng mem st
  have "buf' ! nat j = p"
    by (auto simp: nat_less_iff)
  then show ?thesis
    using st j by simp
qed

lemma run_grid_gpuSegOverlay_pixel:
  assumes run: "run_grid g (gpuSegOverlay T fl mo input iw ih ow oh cc sc sd) buf = Completed buf'"
    and "x < fst g * 8" and "y < snd g * 8" and "int x < ow" and "int y < oh"
  shows "gpuSegOverlay T fl mo input iw ih ow oh cc sc sd x y =
           Store (int y * ow + int x) (buf' ! nat (int y * ow + int x))"
proof (rule run_grid_pixel [OF run _ _ assms(2,3)])
  show "gpuSegOverlay T fl mo input iw ih ow oh cc sc sd x y \<noteq> Idle"
    using assms(4,5) by (rule gpuSegOverlay_not_Idle)
  show "int x' < ow \<and> j = int y' * ow + int x'"
    if "gpuSegOverlay T fl mo input iw ih ow oh cc sc sd x' y' = Store j q" for x' y' j q
    using gpuSegOverlay_Store [OF that] by simp
qed

lemma rd_uint:
  assumes "unat c < length xs"
  shows "rd (Some xs) (uint c) = Some (xs ! unat c)"
proof -
  have "int (unat c) < int (length xs)"
    using assms by (simp only: of_nat_less_iff)
  then have "uint c < int (length xs)"
    by simp
  moreover have "nat (uint c) = unat c"
    by simp
  ultimately show ?thesis
    unfolding rd_def by simp
qed

lemma gpuSegOverlay_Idle:
  "ow \<le> int x \<or> oh \<le> int y \<Longrightarrow> gpuSegOverlay T fl mo input iw ih ow oh cc sc sd x y = Idle"
  by (simp add: gpuSegOverlay_def)

lemma run_grid_1x1:
  assumes "k 0 0 = Store 0 p" and "\<And>x y. 1 \<le> int x \<or> 1 \<le> int y \<Longrightarrow> k x y = Idle"
  shows "run_grid (1, 1) k [p0] = Completed [p]"
  by (simp add: run_grid_def grid_threads_1 run_thread_Completed assms)

lemma index_in_range:
  fixes a b w h :: int
  assumes "0 \<le> a" and "a < w" and "0 \<le> b" and "b < h"
  shows "0 \<le> b * w + a \<and> b * w + a < w * h"
proof -
  have "b * w \<le> (h - 1) * w"
    using assms by (intro mult_right_mono) simp_all
  then have "b * w + a < (h - 1) * w + w"
    using assms(2) by linarith
  then show ?thesis
    using assms by (simp add: algebra_simps)
qed

lemma run_grid_3x1:
  assumes "k 0 0 = Store 0 a" and "k (Suc 0) 0 = Store 1 b" and "k 2 0 = Store 2 c"
    and "\<And>x y. 3 \<le> int x \<or> 1 \<le> int y \<Longrightarrow> k x y = Idle"
  shows "run_grid (1, 1) k [p0, p1, p2] = Completed [a, b, c]"
  by (simp add: run_grid_def grid_threads_1 run_thread_Completed assms)


section \<open>Validation in the host function\<close>

text \<open>
  C3. \<^verbatim>\<open>cudaSegOverlay\<close> fails before any kernel work. The checks are made in this order: a
  null output pointer returns the invalid-pointer error; with an output buffer, a zero output
  width or a zero output height returns the invalid-argument error; and with an output
  buffer, a format that is none of the four RGB formats returns the invalid-argument error
  (whatever the sizes). In each case no kernel is launched, so the output buffer is what it
  was.
\<close>

theorem cudaSegOverlay_fails_fast:
  "cudaSegOverlay last_error input in_width in_height None out_width out_height format
       class_colors scores scores_dim filter_linear mask_only = (cudaErrorInvalidDevicePointer, None)
   \<and> cudaSegOverlay last_error input in_width in_height (Some buf) 0 out_height format
       class_colors scores scores_dim filter_linear mask_only = (cudaErrorInvalidValue, None)
   \<and> cudaSegOverlay last_error input in_width in_height (Some buf) out_width 0 format
       class_colors scores scores_dim filter_linear mask_only = (cudaErrorInvalidValue, None)
   \<and> cudaSegOverlay last_error input in_width in_height (Some buf) out_width out_height (IMAGE_OTHER n)
       class_colors scores scores_dim filter_linear mask_only = (cudaErrorInvalidValue, None)
   \<and> output_after None buf = Completed buf"
  by (simp add: cudaSegOverlay_def output_after_def)

text \<open>
  C9. Of the buffer arguments, the validation of \<^verbatim>\<open>cudaSegOverlay\<close> looks at the output
  pointer only. With an output buffer, non-zero output sizes and one of the four formats,
  the call is not rejected whatever the input image, the score grid and the colour table are,
  null pointers included: the status is the one the runtime reports after the launch, and the
  kernel for the format is launched on the pointers as they were given.
\<close>

theorem cudaSegOverlay_checks_output_only:
  assumes "out_width \<noteq> 0" and "out_height \<noteq> 0" and "imageFormatIsRGB format"
  shows "\<exists>T. LAUNCH_OVERLAY format = Some T \<and>
     cudaSegOverlay last_error input in_width in_height (Some buf) out_width out_height format
         class_colors scores scores_dim filter_linear mask_only =
       (last_error,
        Some \<lparr> gridDim = (iDivUp (unat out_width) 8, iDivUp (unat out_height) 8),
               kernel = gpuSegOverlay T filter_linear mask_only input (sint in_width) (sint in_height)
                          (sint out_width) (sint out_height) class_colors scores scores_dim \<rparr>)"
  using assms by (cases format) (simp_all add: cudaSegOverlay_def)

theorem cudaSegOverlay_checks_output_only_witness:
  "(1 :: 32 word) \<noteq> 0 \<and> imageFormatIsRGB IMAGE_RGBA8 \<and>
   (\<exists>T. LAUNCH_OVERLAY IMAGE_RGBA8 = Some T \<and>
     cudaSegOverlay cudaSuccess None 0 0 (Some [Uchar4 0 0 0 0]) 1 1 IMAGE_RGBA8
         None None (make_int2 1 1) False True =
       (cudaSuccess,
        Some \<lparr> gridDim = (iDivUp (unat (1 :: 32 word)) 8, iDivUp (unat (1 :: 32 word)) 8),
               kernel = gpuSegOverlay T False True None (sint (0 :: 32 word)) (sint (0 :: 32 word))
                          (sint (1 :: 32 word)) (sint (1 :: 32 word)) None None (make_int2 1 1) \<rparr>))"
  using cudaSegOverlay_checks_output_only [of 1 1 IMAGE_RGBA8 cudaSuccess None 0 0 "[Uchar4 0 0 0 0]"
      None None "make_int2 1 1" False True]
  by simp


section \<open>Tensor conversion\<close>

lemma TensorToRGB_1x1_thread:
  "TensorToRGB (Some [1, 1 / 2, - (13421773 / 67108864)]) 1 1 0 0 = Store 0 (Uchar3 255 127 0)"
proof -
  have e1: "fl32 (255 / 2) = 255 / 2"
    by (simp add: fl_eval)
  have e2: "fl32 (- (3422552115 / 67108864)) = - 51"
    by (simp add: fl_eval)
  show ?thesis
    by (simp add: TensorToRGB_def f_ops fl32_0 fl32_1 fl32_255 e1 e2 rd_def store_def clip3_def
        clip_def make_uchar3_def uchar_of_float_def int_of_float_def)
qed

lemma TensorToRGB_1x1_idle:
  "1 \<le> int x \<or> 1 \<le> int y \<Longrightarrow> TensorToRGB src 1 1 x y = Idle"
  by (simp add: TensorToRGB_def)

lemma cudaTensor32ToRGB8_1x1:
  "cudaTensor32ToRGB8 last_error (Some [1, 1 / 2, - (13421773 / 67108864)]) (Some [p]) 1 1 =
     (last_error, Some \<lparr> gridDim = (1, 1), kernel = TensorToRGB (Some [1, 1 / 2, - (13421773 / 67108864)]) 1 1 \<rparr>)"
  by (simp add: cudaTensor32ToRGB8_def launchTensorToRGB_def iDivUp_def)

lemma run_grid_TensorToRGB_1x1:
  "run_grid (Suc 0, Suc 0) (TensorToRGB (Some [1, 1 / 2, - (13421773 / 67108864)]) 1 1) [p] =
     Completed [Uchar3 255 127 0]"
  by (simp add: run_grid_def grid_threads_1 run_thread_def TensorToRGB_1x1_idle TensorToRGB_1x1_thread)

text \<open>
  C7, as stated: the 1x1 tensor with the channel values 1.0, 0.5 and -0.2 (the float nearest
  to -0.2 is \<open>- 13421773 / 67108864\<close>) would give the pixel (255, 128, 0). It does not.
\<close>

theorem tensor_1x1_not_128:
  "output_after (snd (cudaTensor32ToRGB8 cudaSuccess (Some [1, 1 / 2, - (13421773 / 67108864)])
       (Some [Uchar3 0 0 0]) 1 1)) [Uchar3 0 0 0] \<noteq> Completed [Uchar3 255 128 0]"
  by (simp add: cudaTensor32ToRGB8_1x1 output_after_def run_grid_TensorToRGB_1x1)

text \<open>
  C7, amended: the 1x1 tensor with the channel values 1.0, 0.5 and -0.2 gives the single
  pixel (255, 127, 0). Each channel is multiplied by 255 and clipped to \<open>[0, 255]\<close>, and the
  float that results (127.5 for the second channel) loses its fraction when it is written as
  an 8-bit channel: the conversion truncates, it does not round.
\<close>

theorem tensor_1x1_truncates:
  "cudaTensor32ToRGB8 cudaSuccess (Some [1, 1 / 2, - (13421773 / 67108864)]) (Some [p]) 1 1 =
     (cudaSuccess, Some \<lparr> gridDim = (1, 1), kernel = TensorToRGB (Some [1, 1 / 2, - (13421773 / 67108864)]) 1 1 \<rparr>)
   \<and> output_after (snd (cudaTensor32ToRGB8 cudaSuccess (Some [1, 1 / 2, - (13421773 / 67108864)])
       (Some [p]) 1 1)) [p] = Completed [Uchar3 255 127 0]
   \<and> clip (fmul (1 / 2) 255) (float_of_int 0) (float_of_int 255) = 255 / 2
   \<and> uchar_of_float (255 / 2) = Some 127"
proof -
  have e1: "fl32 (255 / 2) = 255 / 2"
    by (simp add: fl_eval)
  show ?thesis
    by (simp add: cudaTensor32ToRGB8_1x1 output_after_def run_grid_TensorToRGB_1x1 clip_def f_ops
        fl32_0 fl32_255 e1 uchar_of_float_def int_of_float_def)
qed


section \<open>The overlay kernel, point filter\<close>

text \<open>
  C1, as stated: in point-filter mask-only mode the pixel \<open>(x, y)\<close> would show the colour of
  the cell \<open>(floor ((x / out_width) * scores_dim.x), floor ((y / out_height) * scores_dim.y))\<close>.
  For an output 22 pixels wide over a score grid 22 cells wide whose cells alternate between
  class 0 (red) and class 1 (green), take \<open>x = 13\<close>: \<open>(13 / 22) * 22\<close> is 13, the cell of the
  claim is cell 13, of class 1, green. The kernel divides and multiplies in single precision,
  gets \<open>13631487 / 1048576\<close>, just below 13, and truncates it to cell 12: it stores red.
\<close>

theorem point_mask_nearest_cell_rounded:
  "gpuSegOverlay T_uchar3 False True None 0 0 22 1
       (Some [make_float4 255 0 0 255, make_float4 0 255 0 255])
       (Some [0, 1, 0, 1, 0, 1, 0, 1, 0, 1, 0, 1, 0, 1, 0, 1, 0, 1, 0, 1, 0, 1])
       (make_int2 22 1) 13 0 =
     Store 13 (Uchar3 255 0 0)
   \<and> [make_float4 255 0 0 255, make_float4 0 255 0 255] !
       unat ([0, 1, 0, 1, 0, 1, 0, 1, 0, 1, 0, 1, 0, 1, 0, 1, 0, 1, 0, 1, 0, 1 :: 8 word] !
             nat (\<lfloor>(0 / 1 :: real) * 1\<rfloor> * 22 + \<lfloor>(13 / 22 :: real) * 22\<rfloor>)) =
     make_float4 0 255 0 255"
proof -
  have e0: "fl32 13 = 13" by (simp add: fl_eval)
  have e1: "fl32 22 = 22" by (simp add: fl_eval)
  have e2: "fl32 (13 / 22) = 9913809 / 16777216" by (simp add: fl_eval)
  have e3: "fl32 (109051899 / 8388608) = 13631487 / 1048576" by (simp add: fl_eval)
  have cx: "fmul (fdiv (float_of_int 13) (float_of_int 22)) (float_of_int 22) = 13631487 / 1048576"
    by (simp add: f_ops e0 e1 e2 e3)
  have cy: "fmul (fdiv (float_of_int 0) (float_of_int 1)) (float_of_int 1) = 0"
    by (simp add: f_ops fl32_0 fl32_1)
  have i: "int_of_float (13631487 / 1048576) = 12" "int_of_float 0 = 0"
    by (simp_all add: int_of_float_def)
  have u: "uchar_of_float 255 = Some 255" "uchar_of_float 0 = Some 0"
    using uchar_of_float_of_int [of 0] by (simp_all add: uchar_of_float_255)
  have "gpuSegOverlay T_uchar3 False True None 0 0 22 1
       (Some [make_float4 255 0 0 255, make_float4 0 255 0 255])
       (Some [0, 1, 0, 1, 0, 1, 0, 1, 0, 1, 0, 1, 0, 1, 0, 1, 0, 1, 0, 1, 0, 1])
       (make_int2 22 1) 13 0 =
     Store 13 (Uchar3 255 0 0)"
    by (simp add: gpuSegOverlay_def LOOKUP_CLASS_MAP_def rd_def store_def make_vec_def make_uchar3_def
        cx cy i u)
  then show ?thesis
    by simp
qed

text \<open>
  C1, amended. Point filter, mask only: for every pixel \<open>(x, y)\<close> with \<open>x < out_width\<close> and
  \<open>y < out_height\<close> of an output of at most \<open>2 ^ 24\<close> pixels in width and in height (and fewer
  than \<open>2 ^ 31\<close> pixels in all), over a score grid of positive \<open>scores_dim\<close> with
  \<open>scores_dim.x * scores_dim.y\<close> cells (fewer than \<open>2 ^ 31\<close>), the class read having a colour in
  the table, the thread stores at \<open>y * out_width + x\<close> the pixel built from the red, green and
  blue of \<open>class_colors[scores[y1 * scores_dim.x + x1]]\<close> and the alpha argument 255. Here
  \<open>x1\<close> is \<open>(x / out_width) * scores_dim.x\<close> and \<open>y1\<close> is \<open>(y / out_height) * scores_dim.y\<close>,
  each operation rounded to single precision and the product truncated to \<^verbatim>\<open>int\<close>: a cell of
  the grid which, for a grid of at most \<open>2 ^ 22\<close> cells a side, is the cell of the exact floor
  or a cell next to it. Nothing is blended: the three channels are those of the class colour,
  written in the channel type of the output (for the float formats they are the colour's
  floats themselves). No index leaves the range of an \<^verbatim>\<open>int\<close>, and when the grid has run to
  completion the output buffer holds that pixel at that index.
\<close>

theorem point_mask_pixel:
  fixes x y :: nat and out_width out_height :: int and scores_dim :: int2
    and class_colors :: "float4 list" and scores :: "8 word list"
  defines "px \<equiv> fdiv (float_of_int (int x)) (float_of_int out_width)"
    and "py \<equiv> fdiv (float_of_int (int y)) (float_of_int out_height)"
  defines "x1 \<equiv> int_of_float (fmul px (float_of_int (i2_x scores_dim)))"
    and "y1 \<equiv> int_of_float (fmul py (float_of_int (i2_y scores_dim)))"
  defines "col \<equiv> class_colors ! unat (scores ! nat (y1 * i2_x scores_dim + x1))"
  assumes xw: "int x < out_width" "out_width \<le> 2 ^ 24"
    and yh: "int y < out_height" "out_height \<le> 2 ^ 24"
    and out: "out_width * out_height < 2 ^ 31"
    and dim: "0 < i2_x scores_dim" "0 < i2_y scores_dim"
    and len: "int (length scores) = i2_x scores_dim * i2_y scores_dim"
    and fit: "int (length scores) < 2 ^ 31"
    and cls: "unat (scores ! nat (y1 * i2_x scores_dim + x1)) < length class_colors"
  shows "gpuSegOverlay T False True input in_width in_height out_width out_height
             (Some class_colors) (Some scores) scores_dim x y =
           store (int y * out_width + int x) (make_vec T (f4_x col) (f4_y col) (f4_z col) 255)
       \<and> 0 \<le> x1 \<and> x1 < i2_x scores_dim \<and> 0 \<le> y1 \<and> y1 < i2_y scores_dim
       \<and> (i2_x scores_dim \<le> 2 ^ 22 \<longrightarrow>
            \<bar>x1 - \<lfloor>of_int (int x) / of_int out_width * (of_int (i2_x scores_dim) :: real)\<rfloor>\<bar> \<le> 1)
       \<and> (i2_y scores_dim \<le> 2 ^ 22 \<longrightarrow>
            \<bar>y1 - \<lfloor>of_int (int y) / of_int out_height * (of_int (i2_y scores_dim) :: real)\<rfloor>\<bar> \<le> 1)
       \<and> 0 \<le> int y * out_width + int x \<and> int y * out_width + int x < 2 ^ 31
       \<and> 0 \<le> y1 * i2_x scores_dim + x1 \<and> y1 * i2_x scores_dim + x1 < 2 ^ 31
       \<and> make_vec T_float3 (f4_x col) (f4_y col) (f4_z col) 255 = Some (Float3 (f4_x col) (f4_y col) (f4_z col))
       \<and> (\<forall>g buf buf'. x < fst g * 8 \<and> y < snd g * 8 \<and>
             run_grid g (gpuSegOverlay T False True input in_width in_height out_width out_height
               (Some class_colors) (Some scores) scores_dim) buf = Completed buf' \<longrightarrow>
             make_vec T (f4_x col) (f4_y col) (f4_z col) 255 = Some (buf' ! nat (int y * out_width + int x)))"
proof -
  let ?k = "gpuSegOverlay T False True input in_width in_height out_width out_height
               (Some class_colors) (Some scores) scores_dim"
  have x0: "0 \<le> int x" and y0: "0 \<le> int y" by simp_all
  have dim1: "1 \<le> i2_x scores_dim" "1 \<le> i2_y scores_dim"
    using dim by simp_all
  have x1: "0 \<le> x1" "x1 < i2_x scores_dim"
    using point_cell_in_range [OF x0 xw dim1(1)] by (simp_all add: x1_def px_def)
  have y1: "0 \<le> y1" "y1 < i2_y scores_dim"
    using point_cell_in_range [OF y0 yh dim1(2)] by (simp_all add: y1_def py_def)
  have nx: "\<bar>x1 - \<lfloor>of_int (int x) / of_int out_width * (of_int (i2_x scores_dim) :: real)\<rfloor>\<bar> \<le> 1"
    if "i2_x scores_dim \<le> 2 ^ 22"
    using point_cell_near_floor [OF x0 xw dim1(1) that] by (simp add: x1_def px_def)
  have ny: "\<bar>y1 - \<lfloor>of_int (int y) / of_int out_height * (of_int (i2_y scores_dim) :: real)\<rfloor>\<bar> \<le> 1"
    if "i2_y scores_dim \<le> 2 ^ 22"
    using point_cell_near_floor [OF y0 yh dim1(2) that] by (simp add: y1_def py_def)
  have si: "0 \<le> y1 * i2_x scores_dim + x1" "y1 * i2_x scores_dim + x1 < int (length scores)"
    using index_in_range [OF x1 y1] len by simp_all
  have si31: "y1 * i2_x scores_dim + x1 < 2 ^ 31"
    using si(2) fit by (rule less_trans)
  have "0 \<le> int y * out_width + int x \<and> int y * out_width + int x < out_width * out_height"
    using index_in_range [OF x0 xw(1) y0 yh(1)] .
  then have oi: "0 \<le> int y * out_width + int x" "int y * out_width + int x < 2 ^ 31"
    using out by linarith+
  have k: "?k x y = store (int y * out_width + int x) (make_vec T (f4_x col) (f4_y col) (f4_z col) 255)"
    using xw(1) yh(1) si cls
    unfolding gpuSegOverlay_def Let_def LOOKUP_CLASS_MAP_def px_def py_def x1_def y1_def col_def
    by (simp add: rd_Some rd_uint)
  have "make_vec T (f4_x col) (f4_y col) (f4_z col) 255 = Some (buf' ! nat (int y * out_width + int x))"
    if "x < fst g * 8" "y < snd g * 8" "run_grid g ?k buf = Completed buf'" for g buf buf'
    using run_grid_gpuSegOverlay_pixel [OF that(3) that(1,2) xw(1) yh(1)] k
    by (simp add: store_eq_Store)
  then show ?thesis
    using k x1 y1 nx ny si(1) si31 oi by (auto simp: make_vec_float3)
qed

theorem point_mask_pixel_witness:
  "gpuSegOverlay T_uchar4 False True None 0 0 3 1
       (Some [make_float4 255 0 0 255, make_float4 0 255 0 128, make_float4 10 20 30 64])
       (Some [2, 0, 1]) (make_int2 3 1) 2 0 =
     Store 2 (Uchar4 0 255 0 255)
   \<and> int_of_float (fmul (fdiv (float_of_int 2) (float_of_int 3)) (float_of_int 3)) = 2
   \<and> run_grid (1, 1) (gpuSegOverlay T_uchar4 False True None 0 0 3 1
       (Some [make_float4 255 0 0 255, make_float4 0 255 0 128, make_float4 10 20 30 64])
       (Some [2, 0, 1]) (make_int2 3 1)) [Uchar4 7 7 7 7, Uchar4 7 7 7 7, Uchar4 7 7 7 7] =
     Completed [Uchar4 10 20 30 255, Uchar4 255 0 0 255, Uchar4 0 255 0 255]"
proof -
  let ?k = "gpuSegOverlay T_uchar4 False True None 0 0 3 1
       (Some [make_float4 255 0 0 255, make_float4 0 255 0 128, make_float4 10 20 30 64])
       (Some [2, 0, 1]) (make_int2 3 1)"
  have e1: "fl32 3 = 3" by (simp add: fl_eval)
  have e3: "fl32 (1 / 3) = 11184811 / 33554432" by (simp add: fl_eval)
  have e4: "fl32 (33554433 / 33554432) = 1" by (simp add: fl_eval)
  have e5: "fl32 2 = 2" by (simp add: fl_eval)
  have e6: "fl32 (2 / 3) = 11184811 / 16777216" by (simp add: fl_eval)
  have e7: "fl32 (33554433 / 16777216) = 2" by (simp add: fl_eval)
  have cx: "fmul (fdiv (float_of_int 0) (float_of_int 3)) (float_of_int 3) = 0"
      "fmul (fdiv (float_of_int 1) (float_of_int 3)) (float_of_int 3) = 1"
      "fmul (fdiv (float_of_int 2) (float_of_int 3)) (float_of_int 3) = 2"
    by (simp_all add: f_ops fl32_0 fl32_1 e1 e3 e4 e5 e6 e7)
  have cy: "fmul (fdiv (float_of_int 0) (float_of_int 1)) (float_of_int 1) = 0"
    by (simp add: f_ops fl32_0 fl32_1)
  have i: "int_of_float 0 = 0" "int_of_float 1 = 1" "int_of_float 2 = 2"
    by (simp_all add: int_of_float_def)
  have u: "uchar_of_float 0 = Some 0" "uchar_of_float 10 = Some 10" "uchar_of_float 20 = Some 20"
      "uchar_of_float 30 = Some 30" "uchar_of_float 255 = Some 255"
    using uchar_of_float_of_int [of 0] uchar_of_float_of_int [of 10] uchar_of_float_of_int [of 20]
      uchar_of_float_of_int [of 30] uchar_of_float_of_int [of 255]
    by simp_all
  note t = point_mask_pixel [where x = 2 and y = 0 and out_width = 3 and out_height = 1
      and scores_dim = "make_int2 3 1" and scores = "[2, 0, 1]" and T = T_uchar4
      and class_colors = "[make_float4 255 0 0 255, make_float4 0 255 0 128, make_float4 10 20 30 64]"
      and input = None and in_width = 0 and in_height = 0]
  have k2: "?k 2 0 = Store 2 (Uchar4 0 255 0 255)"
    using t by (simp add: cx cy i u make_vec_def store_def)
  have k0: "?k 0 0 = Store 0 (Uchar4 10 20 30 255)"
    by (simp add: gpuSegOverlay_def LOOKUP_CLASS_MAP_def rd_def store_def make_vec_def cx cy i u)
  have k1: "?k (Suc 0) 0 = Store 1 (Uchar4 255 0 0 255)"
    by (simp add: gpuSegOverlay_def LOOKUP_CLASS_MAP_def rd_def store_def make_vec_def cx cy i u)
  have r: "run_grid (1, 1) ?k [Uchar4 7 7 7 7, Uchar4 7 7 7 7, Uchar4 7 7 7 7] =
     Completed [Uchar4 10 20 30 255, Uchar4 255 0 0 255, Uchar4 0 255 0 255]"
    by (rule run_grid_3x1) (use k0 k1 k2 in \<open>simp_all add: gpuSegOverlay_Idle\<close>)
  show ?thesis
    using k2 r by (simp add: cx i)
qed


text \<open>
  C2, as stated: in point-filter overlay mode the input image would be sampled at
  \<open>(floor (px * in_width), floor (py * in_height))\<close> with \<open>(px, py) = (x / out_width, y / out_height)\<close>.
  For an output and an input both 22 pixels wide, the input alternating between
  \<open>(10, 10, 10)\<close> and \<open>(20, 20, 20)\<close>, and a class colour of alpha 0 (so that the blend is the
  input pixel itself), take \<open>x = 13\<close>: \<open>(13 / 22) * 22\<close> is 13 and the input pixel of the claim is
  \<open>(20, 20, 20)\<close>. The kernel computes the coordinate in single precision, truncates it to 12,
  and stores \<open>(10, 10, 10)\<close>.
\<close>

theorem point_overlay_sample_rounded:
  "gpuSegOverlay T_uchar3 False False
       (Some [Uchar3 10 10 10, Uchar3 20 20 20, Uchar3 10 10 10, Uchar3 20 20 20, Uchar3 10 10 10, Uchar3 20 20
           20, Uchar3 10 10 10, Uchar3 20 20 20, Uchar3 10 10 10, Uchar3 20 20 20, Uchar3 10 10 10, Uchar3 20
           20 20, Uchar3 10 10 10, Uchar3 20 20 20, Uchar3 10 10 10, Uchar3 20 20 20, Uchar3 10 10 10, Uchar3
           20 20 20, Uchar3 10 10 10, Uchar3 20 20 20, Uchar3 10 10 10, Uchar3 20 20 20])
       22 1 22 1 (Some [make_float4 255 0 0 0]) (Some [0]) (make_int2 1 1) 13 0 =
     Store 13 (Uchar3 10 10 10)
   \<and> [Uchar3 10 10 10, Uchar3 20 20 20, Uchar3 10 10 10, Uchar3 20 20 20, Uchar3 10 10 10, Uchar3 20 20
           20, Uchar3 10 10 10, Uchar3 20 20 20, Uchar3 10 10 10, Uchar3 20 20 20, Uchar3 10 10 10, Uchar3 20
           20 20, Uchar3 10 10 10, Uchar3 20 20 20, Uchar3 10 10 10, Uchar3 20 20 20, Uchar3 10 10 10, Uchar3
           20 20 20, Uchar3 10 10 10, Uchar3 20 20 20, Uchar3 10 10 10, Uchar3 20 20 20] !
       nat (\<lfloor>(0 / 1 :: real) * 1\<rfloor> * 22 + \<lfloor>(13 / 22 :: real) * 22\<rfloor>) =
     Uchar3 20 20 20"
proof -
  have e0: "fl32 13 = 13" by (simp add: fl_eval)
  have e1: "fl32 22 = 22" by (simp add: fl_eval)
  have e2: "fl32 (13 / 22) = 9913809 / 16777216" by (simp add: fl_eval)
  have e3: "fl32 (109051899 / 8388608) = 13631487 / 1048576" by (simp add: fl_eval)
  have e4: "fl32 (9913809 / 16777216) = 9913809 / 16777216" by (simp add: fl_eval)
  have e5: "fl32 10 = 10" by (simp add: fl_eval)
  have xin: "fmul (fdiv (float_of_int 13) (float_of_int 22)) (float_of_int 22) = 13631487 / 1048576"
    by (simp add: f_ops e0 e1 e2 e3)
  have cx: "fmul (fdiv (float_of_int 13) (float_of_int 22)) (float_of_int 1) = 9913809 / 16777216"
    by (simp add: f_ops fl32_1 e0 e1 e2 e4)
  have cy: "fmul (fdiv (float_of_int 0) (float_of_int 1)) (float_of_int 1) = 0"
    by (simp add: f_ops fl32_0 fl32_1)
  have i: "int_of_float (13631487 / 1048576) = 12" "int_of_float 0 = 0"
      "int_of_float (9913809 / 16777216) = 0"
    by (simp_all add: int_of_float_def)
  have a: "fdiv 0 255 = 0" "fsub 1 0 = 1" "fadd (fmul 0 255) (fmul 1 10) = 10"
      "fadd (fmul 0 0) (fmul 1 10) = 10"
    by (simp_all add: f_ops fl32_0 fl32_1 e5)
  have u: "uchar_of_float 10 = Some 10"
    using uchar_of_float_of_int [of 10] by simp
  have "gpuSegOverlay T_uchar3 False False
       (Some [Uchar3 10 10 10, Uchar3 20 20 20, Uchar3 10 10 10, Uchar3 20 20 20, Uchar3 10 10 10, Uchar3 20 20
           20, Uchar3 10 10 10, Uchar3 20 20 20, Uchar3 10 10 10, Uchar3 20 20 20, Uchar3 10 10 10, Uchar3 20
           20 20, Uchar3 10 10 10, Uchar3 20 20 20, Uchar3 10 10 10, Uchar3 20 20 20, Uchar3 10 10 10, Uchar3
           20 20 20, Uchar3 10 10 10, Uchar3 20 20 20, Uchar3 10 10 10, Uchar3 20 20 20])
       22 1 22 1 (Some [make_float4 255 0 0 0]) (Some [0]) (make_int2 1 1) 13 0 =
     Store 13 (Uchar3 10 10 10)"
    by (simp add: gpuSegOverlay_def LOOKUP_CLASS_MAP_def rd_def store_def make_vec_def make_uchar3_def
        xin cx cy i a u)
  then show ?thesis
    by simp
qed

text \<open>
  C2, amended. Point filter, overlay: for every pixel \<open>(x, y)\<close> of an output of at most
  \<open>2 ^ 24\<close> pixels in width and in height (fewer than \<open>2 ^ 31\<close> in all), with a score grid and
  an input image of positive sizes and fewer than \<open>2 ^ 31\<close> elements each, the thread stores
  the pixel built from \<open>alpha * color + (1 - alpha) * input_pixel\<close>, channel by channel and in
  single precision, and the alpha argument 255. Here \<open>alpha = color.w / 255\<close>, \<open>color\<close> is the
  class colour of the cell \<open>(x1, y1)\<close>, and \<open>input_pixel\<close> is the input image at
  \<open>(x_in, y_in) = (int (px * in_width), int (py * in_height))\<close> for
  \<open>(px, py) = (x / out_width, y / out_height)\<close>, every operation rounded to single precision
  and the products truncated: a pixel of the input which, for an input of at most \<open>2 ^ 22\<close>
  pixels a side, is the pixel of the exact floor or one next to it. The blend is handed to the
  pixel constructor as it is, neither rounded nor clamped: for the float formats the stored
  channels are the three floats themselves.
\<close>

theorem point_overlay_pixel:
  fixes x y :: nat and out_width out_height in_width in_height :: int and scores_dim :: int2
    and class_colors :: "float4 list" and scores :: "8 word list" and input :: "pixel list"
  defines "px \<equiv> fdiv (float_of_int (int x)) (float_of_int out_width)"
    and "py \<equiv> fdiv (float_of_int (int y)) (float_of_int out_height)"
  defines "x1 \<equiv> int_of_float (fmul px (float_of_int (i2_x scores_dim)))"
    and "y1 \<equiv> int_of_float (fmul py (float_of_int (i2_y scores_dim)))"
    and "x_in \<equiv> int_of_float (fmul px (float_of_int in_width))"
    and "y_in \<equiv> int_of_float (fmul py (float_of_int in_height))"
  defines "color \<equiv> class_colors ! unat (scores ! nat (y1 * i2_x scores_dim + x1))"
    and "input_pixel \<equiv> input ! nat (y_in * in_width + x_in)"
  defines "alpha \<equiv> fdiv (f4_w color) 255"
  defines "r \<equiv> fadd (fmul alpha (f4_x color)) (fmul (fsub 1 alpha) (px_x input_pixel))"
    and "g \<equiv> fadd (fmul alpha (f4_y color)) (fmul (fsub 1 alpha) (px_y input_pixel))"
    and "b \<equiv> fadd (fmul alpha (f4_z color)) (fmul (fsub 1 alpha) (px_z input_pixel))"
  assumes xw: "int x < out_width" "out_width \<le> 2 ^ 24"
    and yh: "int y < out_height" "out_height \<le> 2 ^ 24"
    and out: "out_width * out_height < 2 ^ 31"
    and dim: "0 < i2_x scores_dim" "0 < i2_y scores_dim"
    and len: "int (length scores) = i2_x scores_dim * i2_y scores_dim"
    and fit: "int (length scores) < 2 ^ 31"
    and cls: "unat (scores ! nat (y1 * i2_x scores_dim + x1)) < length class_colors"
    and inp: "0 < in_width" "0 < in_height"
    and ilen: "int (length input) = in_width * in_height"
    and ifit: "int (length input) < 2 ^ 31"
  shows "gpuSegOverlay T False False (Some input) in_width in_height out_width out_height
             (Some class_colors) (Some scores) scores_dim x y =
           store (int y * out_width + int x) (make_vec T r g b 255)
       \<and> 0 \<le> x1 \<and> x1 < i2_x scores_dim \<and> 0 \<le> y1 \<and> y1 < i2_y scores_dim
       \<and> 0 \<le> x_in \<and> x_in < in_width \<and> 0 \<le> y_in \<and> y_in < in_height
       \<and> (in_width \<le> 2 ^ 22 \<longrightarrow>
            \<bar>x_in - \<lfloor>of_int (int x) / of_int out_width * (of_int in_width :: real)\<rfloor>\<bar> \<le> 1)
       \<and> (in_height \<le> 2 ^ 22 \<longrightarrow>
            \<bar>y_in - \<lfloor>of_int (int y) / of_int out_height * (of_int in_height :: real)\<rfloor>\<bar> \<le> 1)
       \<and> 0 \<le> int y * out_width + int x \<and> int y * out_width + int x < 2 ^ 31
       \<and> 0 \<le> y1 * i2_x scores_dim + x1 \<and> y1 * i2_x scores_dim + x1 < 2 ^ 31
       \<and> 0 \<le> y_in * in_width + x_in \<and> y_in * in_width + x_in < 2 ^ 31
       \<and> make_vec T_float3 r g b 255 = Some (Float3 r g b)
       \<and> (\<forall>gr buf buf'. x < fst gr * 8 \<and> y < snd gr * 8 \<and>
             run_grid gr (gpuSegOverlay T False False (Some input) in_width in_height out_width out_height
               (Some class_colors) (Some scores) scores_dim) buf = Completed buf' \<longrightarrow>
             make_vec T r g b 255 = Some (buf' ! nat (int y * out_width + int x)))"
proof -
  let ?k = "gpuSegOverlay T False False (Some input) in_width in_height out_width out_height
               (Some class_colors) (Some scores) scores_dim"
  have x0: "0 \<le> int x" and y0: "0 \<le> int y" by simp_all
  have dim1: "1 \<le> i2_x scores_dim" "1 \<le> i2_y scores_dim" and inp1: "1 \<le> in_width" "1 \<le> in_height"
    using dim inp by simp_all
  have x1: "0 \<le> x1" "x1 < i2_x scores_dim"
    using point_cell_in_range [OF x0 xw dim1(1)] by (simp_all add: x1_def px_def)
  have y1: "0 \<le> y1" "y1 < i2_y scores_dim"
    using point_cell_in_range [OF y0 yh dim1(2)] by (simp_all add: y1_def py_def)
  have xi: "0 \<le> x_in" "x_in < in_width"
    using point_cell_in_range [OF x0 xw inp1(1)] by (simp_all add: x_in_def px_def)
  have yi: "0 \<le> y_in" "y_in < in_height"
    using point_cell_in_range [OF y0 yh inp1(2)] by (simp_all add: y_in_def py_def)
  have nx: "\<bar>x_in - \<lfloor>of_int (int x) / of_int out_width * (of_int in_width :: real)\<rfloor>\<bar> \<le> 1"
    if "in_width \<le> 2 ^ 22"
    using point_cell_near_floor [OF x0 xw inp1(1) that] by (simp add: x_in_def px_def)
  have ny: "\<bar>y_in - \<lfloor>of_int (int y) / of_int out_height * (of_int in_height :: real)\<rfloor>\<bar> \<le> 1"
    if "in_height \<le> 2 ^ 22"
    using point_cell_near_floor [OF y0 yh inp1(2) that] by (simp add: y_in_def py_def)
  have si: "0 \<le> y1 * i2_x scores_dim + x1" "y1 * i2_x scores_dim + x1 < int (length scores)"
    using index_in_range [OF x1 y1] len by simp_all
  have si31: "y1 * i2_x scores_dim + x1 < 2 ^ 31"
    using si(2) fit by (rule less_trans)
  have ii: "0 \<le> y_in * in_width + x_in" "y_in * in_width + x_in < int (length input)"
    using index_in_range [OF xi yi] ilen by simp_all
  have ii31: "y_in * in_width + x_in < 2 ^ 31"
    using ii(2) ifit by (rule less_trans)
  have "0 \<le> int y * out_width + int x \<and> int y * out_width + int x < out_width * out_height"
    using index_in_range [OF x0 xw(1) y0 yh(1)] .
  then have oi: "0 \<le> int y * out_width + int x" "int y * out_width + int x < 2 ^ 31"
    using out by linarith+
  have k: "?k x y = store (int y * out_width + int x) (make_vec T r g b 255)"
    using xw(1) yh(1) si cls ii
    unfolding gpuSegOverlay_def Let_def LOOKUP_CLASS_MAP_def px_def py_def x1_def y1_def x_in_def y_in_def
      color_def input_pixel_def alpha_def r_def g_def b_def
    by (simp add: rd_Some rd_uint)
  have "make_vec T r g b 255 = Some (buf' ! nat (int y * out_width + int x))"
    if "x < fst gr * 8" "y < snd gr * 8" "run_grid gr ?k buf = Completed buf'" for gr buf buf'
    using run_grid_gpuSegOverlay_pixel [OF that(3) that(1,2) xw(1) yh(1)] k
    by (simp add: store_eq_Store)
  then show ?thesis
    using k x1 y1 xi yi nx ny si(1) si31 ii(1) ii31 oi by (auto simp: make_vec_float3)
qed

theorem point_overlay_pixel_witness:
  "gpuSegOverlay T_float3 False False (Some [Float3 10 20 30, Float3 40 50 60]) 2 1 3 1
       (Some [make_float4 255 0 0 255, make_float4 0 255 0 128, make_float4 90 60 30 64])
       (Some [2, 0, 1]) (make_int2 3 1) 2 0 =
     Store 2 (Float3 (10444639 / 524288) (10020583 / 65536) (7833479 / 262144))
   \<and> int_of_float (fmul (fdiv (float_of_int 2) (float_of_int 3)) (float_of_int 3)) = 2
   \<and> int_of_float (fmul (fdiv (float_of_int 2) (float_of_int 3)) (float_of_int 2)) = 1
   \<and> run_grid (1, 1) (gpuSegOverlay T_float3 False False (Some [Float3 10 20 30, Float3 40 50 60]) 2 1 3 1
       (Some [make_float4 255 0 0 255, make_float4 0 255 0 128, make_float4 90 60 30 64])
       (Some [2, 0, 1]) (make_int2 3 1)) [Float3 0 0 0, Float3 0 0 0, Float3 0 0 0] =
     Completed [Float3 (15769761 / 524288) (15749201 / 524288) 30, Float3 255 0 0,
                Float3 (10444639 / 524288) (10020583 / 65536) (7833479 / 262144)]"
proof -
  let ?k = "gpuSegOverlay T_float3 False False (Some [Float3 10 20 30, Float3 40 50 60]) 2 1 3 1
       (Some [make_float4 255 0 0 255, make_float4 0 255 0 128, make_float4 90 60 30 64])
       (Some [2, 0, 1]) (make_int2 3 1)"
  have e0: "fl32 0 = 0" by (simp add: fl_eval)
  have e1: "fl32 3 = 3" by (simp add: fl_eval)
  have e2: "fl32 1 = 1" by (simp add: fl_eval)
  have e3: "fl32 2 = 2" by (simp add: fl_eval)
  have e4: "fl32 (64 / 255) = 8421505 / 33554432" by (simp add: fl_eval)
  have e5: "fl32 (25132927 / 33554432) = 196351 / 262144" by (simp add: fl_eval)
  have e6: "fl32 (378967725 / 16777216) = 11842741 / 524288" by (simp add: fl_eval)
  have e7: "fl32 (981755 / 131072) = 981755 / 131072" by (simp add: fl_eval)
  have e8: "fl32 (15769761 / 524288) = 15769761 / 524288" by (simp add: fl_eval)
  have e9: "fl32 (126322575 / 8388608) = 7895161 / 524288" by (simp add: fl_eval)
  have e10: "fl32 (981755 / 65536) = 981755 / 65536" by (simp add: fl_eval)
  have e11: "fl32 (15749201 / 524288) = 15749201 / 524288" by (simp add: fl_eval)
  have e12: "fl32 (126322575 / 16777216) = 7895161 / 1048576" by (simp add: fl_eval)
  have e13: "fl32 (2945265 / 131072) = 2945265 / 131072" by (simp add: fl_eval)
  have e14: "fl32 (31457281 / 1048576) = 30" by (simp add: fl_eval)
  have e15: "fl32 (1 / 3) = 11184811 / 33554432" by (simp add: fl_eval)
  have e16: "fl32 (33554433 / 33554432) = 1" by (simp add: fl_eval)
  have e17: "fl32 (11184811 / 16777216) = 11184811 / 16777216" by (simp add: fl_eval)
  have e18: "fl32 255 = 255" by (simp add: fl_eval)
  have e19: "fl32 (2 / 3) = 11184811 / 16777216" by (simp add: fl_eval)
  have e20: "fl32 (33554433 / 16777216) = 2" by (simp add: fl_eval)
  have e21: "fl32 (11184811 / 8388608) = 11184811 / 8388608" by (simp add: fl_eval)
  have e22: "fl32 (128 / 255) = 8421505 / 16777216" by (simp add: fl_eval)
  have e23: "fl32 (8355711 / 16777216) = 8355711 / 16777216" by (simp add: fl_eval)
  have e24: "fl32 (41778555 / 2097152) = 10444639 / 524288" by (simp add: fl_eval)
  have e25: "fl32 (10444639 / 524288) = 10444639 / 524288" by (simp add: fl_eval)
  have e26: "fl32 (2147483775 / 16777216) = 128" by (simp add: fl_eval)
  have e27: "fl32 (208892775 / 8388608) = 6527899 / 262144" by (simp add: fl_eval)
  have e28: "fl32 (40082331 / 262144) = 10020583 / 65536" by (simp add: fl_eval)
  have e29: "fl32 (125335665 / 4194304) = 7833479 / 262144" by (simp add: fl_eval)
  have e30: "fl32 (7833479 / 262144) = 7833479 / 262144" by (simp add: fl_eval)
  have cx: "fmul (fdiv (float_of_int 0) (float_of_int 3)) (float_of_int 3) = 0"
      "fmul (fdiv (float_of_int 1) (float_of_int 3)) (float_of_int 3) = 1"
      "fmul (fdiv (float_of_int 2) (float_of_int 3)) (float_of_int 3) = 2"
    by (simp_all add: f_ops e0 e1 e2 e3 e15 e16 e19 e20)
  have xi: "fmul (fdiv (float_of_int 0) (float_of_int 3)) (float_of_int 2) = 0"
      "fmul (fdiv (float_of_int 1) (float_of_int 3)) (float_of_int 2) = 11184811 / 16777216"
      "fmul (fdiv (float_of_int 2) (float_of_int 3)) (float_of_int 2) = 11184811 / 8388608"
    by (simp_all add: f_ops e0 e1 e2 e3 e15 e17 e19 e21)
  have cy: "fmul (fdiv (float_of_int 0) (float_of_int 1)) (float_of_int 1) = 0"
    by (simp add: f_ops e0 e2)
  have i: "int_of_float 0 = 0" "int_of_float 1 = 1" "int_of_float 2 = 2"
      "int_of_float (11184811 / 16777216) = 0" "int_of_float (11184811 / 8388608) = 1"
    by (simp_all add: int_of_float_def)
  have a: "fdiv 64 255 = 8421505 / 33554432" "fsub 1 (8421505 / 33554432) = 196351 / 262144"
      "fdiv 255 255 = 1" "fsub 1 1 = 0"
      "fdiv 128 255 = 8421505 / 16777216" "fsub 1 (8421505 / 16777216) = 8355711 / 16777216"
    by (simp_all add: f_ops e0 e1 e2 e3 e4 e5 e6 e7 e8 e9 e10 e11 e12 e13 e14 e15 e16 e17 e18 e19 e20 e21 e22 e23 e24 e25 e26 e27 e28 e29 e30)
  have b0: "fadd (fmul (8421505 / 33554432) 90) (fmul (196351 / 262144) 10) = 15769761 / 524288"
      "fadd (fmul (8421505 / 33554432) 60) (fmul (196351 / 262144) 20) = 15749201 / 524288"
      "fadd (fmul (8421505 / 33554432) 30) (fmul (196351 / 262144) 30) = 30"
    by (simp_all add: f_ops e0 e1 e2 e3 e4 e5 e6 e7 e8 e9 e10 e11 e12 e13 e14 e15 e16 e17 e18 e19 e20 e21 e22 e23 e24 e25 e26 e27 e28 e29 e30)
  have b1: "fadd (fmul 1 255) (fmul 0 10) = 255" "fadd (fmul 1 0) (fmul 0 20) = 0"
      "fadd (fmul 1 0) (fmul 0 30) = 0"
    by (simp_all add: f_ops e0 e1 e2 e3 e4 e5 e6 e7 e8 e9 e10 e11 e12 e13 e14 e15 e16 e17 e18 e19 e20 e21 e22 e23 e24 e25 e26 e27 e28 e29 e30)
  have b2: "fadd (fmul (8421505 / 16777216) 0) (fmul (8355711 / 16777216) 40) = 10444639 / 524288"
      "fadd (fmul (8421505 / 16777216) 255) (fmul (8355711 / 16777216) 50) = 10020583 / 65536"
      "fadd (fmul (8421505 / 16777216) 0) (fmul (8355711 / 16777216) 60) = 7833479 / 262144"
    by (simp_all add: f_ops e0 e1 e2 e3 e4 e5 e6 e7 e8 e9 e10 e11 e12 e13 e14 e15 e16 e17 e18 e19 e20 e21 e22 e23 e24 e25 e26 e27 e28 e29 e30)
  note t = point_overlay_pixel [where x = 2 and y = 0 and out_width = 3 and out_height = 1
      and in_width = 2 and in_height = 1
      and scores_dim = "make_int2 3 1" and scores = "[2, 0, 1]" and T = T_float3
      and class_colors = "[make_float4 255 0 0 255, make_float4 0 255 0 128, make_float4 90 60 30 64]"
      and input = "[Float3 10 20 30, Float3 40 50 60]"]
  have k2: "?k 2 0 = Store 2 (Float3 (10444639 / 524288) (10020583 / 65536) (7833479 / 262144))"
    using t by (simp add: cx xi cy i a b2 make_vec_def store_def)
  have k0: "?k 0 0 = Store 0 (Float3 (15769761 / 524288) (15749201 / 524288) 30)"
    by (simp add: gpuSegOverlay_def LOOKUP_CLASS_MAP_def rd_def store_def make_vec_def cx xi cy i a b0)
  have k1: "?k (Suc 0) 0 = Store 1 (Float3 255 0 0)"
    by (simp add: gpuSegOverlay_def LOOKUP_CLASS_MAP_def rd_def store_def make_vec_def cx xi cy i a b1)
  have r: "run_grid (1, 1) ?k [Float3 0 0 0, Float3 0 0 0, Float3 0 0 0] =
     Completed [Float3 (15769761 / 524288) (15749201 / 524288) 30, Float3 255 0 0,
                Float3 (10444639 / 524288) (10020583 / 65536) (7833479 / 262144)]"
    by (rule run_grid_3x1) (use k0 k1 k2 in \<open>simp_all add: gpuSegOverlay_Idle\<close>)
  show ?thesis
    using k2 r by (simp add: cx xi i)
qed


section \<open>The overlay kernel, linear filter: the four cells and the weighted sum\<close>

lemma round_step:
  assumes lo: "x * (16777215 / 16777216) ^ k \<le> v" and hi: "v \<le> x * (16777217 / 16777216) ^ k"
    and n: "v = 0 \<or> 2 powi (- 126) \<le> v"
  shows "x * (16777215 / 16777216) ^ Suc k \<le> fl32 v \<and> fl32 v \<le> x * (16777217 / 16777216) ^ Suc k"
proof -
  note r = fl32_rel [OF n]
  have "x * (16777215 / 16777216) ^ k * (16777215 / 16777216) \<le> v * (16777215 / 16777216)"
    using lo by (intro mult_right_mono) simp_all
  moreover have "v * (16777217 / 16777216) \<le> x * (16777217 / 16777216) ^ k * (16777217 / 16777216)"
    using hi by (intro mult_right_mono) simp_all
  ultimately show ?thesis
    using r by (simp add: mult.assoc)
qed

lemma weaken_bounds:
  assumes "y * (16777215 / 16777216) ^ j \<le> t" and "t \<le> y * (16777217 / 16777216) ^ j"
    and "j \<le> k" and "0 \<le> (y::real)"
  shows "y * (16777215 / 16777216) ^ k \<le> t \<and> t \<le> y * (16777217 / 16777216) ^ k"
proof -
  have "(16777215 / 16777216 :: real) ^ k \<le> (16777215 / 16777216) ^ j"
    using assms(3) by (intro power_decreasing) simp_all
  then have "y * (16777215 / 16777216) ^ k \<le> y * (16777215 / 16777216) ^ j"
    using assms(4) by (intro mult_left_mono)
  moreover have "(16777217 / 16777216 :: real) ^ j \<le> (16777217 / 16777216) ^ k"
    using assms(3) by (intro power_increasing) simp_all
  then have "y * (16777217 / 16777216) ^ j \<le> y * (16777217 / 16777216) ^ k"
    using assms(4) by (intro mult_left_mono)
  ultimately show ?thesis
    using assms(1,2) by linarith
qed

text \<open>One term \<^verbatim>\<open>c * (wx * wy)\<close> of the interpolation, for weights on the grid.\<close>

lemma term_bounds:
  fixes A B :: int
  assumes A: "0 \<le> A" and B: "0 \<le> B" and c: "c = 0 \<or> 2 powi (- 78) \<le> c"
  defines "w \<equiv> (of_int A / 2 ^ 24) * (of_int B / 2 ^ 24)"
  defines "t \<equiv> fmul c (fmul (of_int A / 2 ^ 24) (of_int B / 2 ^ 24))"
  shows "c * w * (16777215 / 16777216) ^ 2 \<le> t \<and> t \<le> c * w * (16777217 / 16777216) ^ 2
         \<and> (t = 0 \<or> 2 powi (- 126) \<le> t) \<and> 0 \<le> t \<and> 0 \<le> c * w"
proof -
  have c0: "0 \<le> c"
    using c two_powi_pos [of "- 78"] by (auto simp: less_imp_le intro: order_trans)
  have w0: "0 \<le> w"
    using A B by (simp add: w_def)
  have wn: "w = 0 \<or> 2 powi (- 48) \<le> w"
  proof (cases "A * B = 0")
    case True
    then show ?thesis by (auto simp: w_def)
  next
    case False
    then have "1 \<le> A * B"
      using A B by (smt (verit) mult_nonneg_nonneg)
    then have "(1::real) \<le> of_int (A * B)"
      by (simp only: of_int_1_le_iff)
    then have "1 / 2 ^ 48 \<le> (of_int (A * B) :: real) / 2 ^ 48"
      by (intro divide_right_mono) simp_all
    moreover have "w = of_int (A * B) / 2 ^ 48"
      by (simp add: w_def)
    moreover have "(2::real) powi (- 48) = 1 / 2 ^ 48"
      by (simp add: power_int_minus field_simps)
    ultimately show ?thesis by simp
  qed
  define W where "W = fl32 w"
  have p48: "(2::real) powi (- 48) \<le> 2 powi (- 126) \<or> 2 powi (- 126) \<le> (2::real) powi (- 48)"
    by linarith
  have wn': "w = 0 \<or> 2 powi (- 126) \<le> w"
    using wn two_powi_mono [of "- 126" "- 48"] by auto
  have W: "w * (16777215 / 16777216) \<le> W" "W \<le> w * (16777217 / 16777216)"
    using fl32_rel [OF wn'] by (simp_all add: W_def)
  have Wn: "W = 0 \<or> 2 powi (- 48) \<le> W"
  proof (cases "w = 0")
    case True
    then show ?thesis by (simp add: W_def fl32_0)
  next
    case False
    then have "2 powi (- 48) \<le> w" using wn by simp
    moreover have "fl32 (2 powi (- 48)) = 2 powi (- 48)"
      using fl32_repr [of "2 powi (- 48)" 1 "- 48"] by simp
    ultimately have "2 powi (- 48) \<le> W"
      unfolding W_def using two_powi_pos [of "- 48"] by (intro fl32_ge) (simp_all add: less_imp_le)
    then show ?thesis ..
  qed
  have W0: "0 \<le> W"
    unfolding W_def using w0 by (rule fl32_nonneg)
  have cW: "c * W = 0 \<or> 2 powi (- 126) \<le> c * W"
  proof (cases "c = 0 \<or> W = 0")
    case True
    then show ?thesis by auto
  next
    case False
    then have "2 powi (- 78) \<le> c" "2 powi (- 48) \<le> W"
      using c Wn by simp_all
    then have "2 powi (- 78) * 2 powi (- 48) \<le> c * W"
      using two_powi_pos [of "- 78"] two_powi_pos [of "- 48"]
      by (intro mult_mono) (simp_all add: less_imp_le)
    moreover have "(2::real) powi (- 78) * 2 powi (- 48) = 2 powi (- 126)"
      by (simp flip: two_powi_add)
    ultimately show ?thesis by simp
  qed
  have lo1: "c * w * (16777215 / 16777216) ^ 1 \<le> c * W"
    using W(1) c0 by (simp add: mult_left_mono mult.assoc)
  have hi1: "c * W \<le> c * w * (16777217 / 16777216) ^ 1"
    using W(2) c0 by (simp add: mult_left_mono mult.assoc)
  have t: "t = fl32 (c * W)"
    by (simp add: t_def fmul_def W_def w_def)
  have "c * w * (16777215 / 16777216) ^ Suc 1 \<le> t \<and> t \<le> c * w * (16777217 / 16777216) ^ Suc 1"
    unfolding t by (rule round_step [OF lo1 hi1 cW])
  moreover have "t = 0 \<or> 2 powi (- 126) \<le> t"
    unfolding t by (rule fl32_normal [OF cW])
  moreover have "0 \<le> t"
    unfolding t using c0 W0 by (intro fl32_nonneg) simp
  moreover have "0 \<le> c * w"
    using c0 w0 by simp
  ultimately show ?thesis
    by (simp add: numeral_2_eq_2)
qed

lemma sum_step:
  assumes s: "x * (16777215 / 16777216) ^ k \<le> s \<and> s \<le> x * (16777217 / 16777216) ^ k
              \<and> (s = 0 \<or> 2 powi (- 126) \<le> s) \<and> 0 \<le> s \<and> 0 \<le> x"
    and t: "y * (16777215 / 16777216) ^ 2 \<le> t \<and> t \<le> y * (16777217 / 16777216) ^ 2
              \<and> (t = 0 \<or> 2 powi (- 126) \<le> t) \<and> 0 \<le> t \<and> 0 \<le> y"
    and k: "2 \<le> k"
  shows "(x + y) * (16777215 / 16777216) ^ Suc k \<le> fl32 (s + t)
         \<and> fl32 (s + t) \<le> (x + y) * (16777217 / 16777216) ^ Suc k
         \<and> (fl32 (s + t) = 0 \<or> 2 powi (- 126) \<le> fl32 (s + t))
         \<and> 0 \<le> fl32 (s + t) \<and> 0 \<le> x + y"
proof -
  have tk: "y * (16777215 / 16777216) ^ k \<le> t \<and> t \<le> y * (16777217 / 16777216) ^ k"
    using t k by (intro weaken_bounds [where j = 2]) simp_all
  have lo: "(x + y) * (16777215 / 16777216) ^ k \<le> s + t"
    using s tk by (simp add: distrib_right)
  have hi: "s + t \<le> (x + y) * (16777217 / 16777216) ^ k"
    using s tk by (simp add: distrib_right)
  have n: "s + t = 0 \<or> 2 powi (- 126) \<le> s + t"
    using s t by auto
  have "0 \<le> s + t"
    using s t by simp
  then have "0 \<le> fl32 (s + t)"
    by (rule fl32_nonneg)
  moreover note round_step [OF lo hi n] fl32_normal [OF n]
  moreover have "0 \<le> x + y"
    using s t by simp
  ultimately show ?thesis
    by simp
qed

text \<open>The weighted sum of four equal values, as the kernel evaluates it.\<close>

lemma bilinear_uniform:
  fixes A B :: int
  assumes A: "0 \<le> A" "A \<le> 2 ^ 24" and B: "0 \<le> B" "B \<le> 2 ^ 24"
    and c: "c = 0 \<or> 2 powi (- 78) \<le> c"
  defines "a1 \<equiv> of_int A / 2 ^ 24" and "a2 \<equiv> of_int (2 ^ 24 - A) / 2 ^ 24"
    and "b1 \<equiv> of_int B / 2 ^ 24" and "b2 \<equiv> of_int (2 ^ 24 - B) / 2 ^ 24"
  shows "\<bar>fadd (fadd (fadd (fmul c (fmul a1 b1)) (fmul c (fmul a2 b1))) (fmul c (fmul a2 b2)))
               (fmul c (fmul a1 b2)) - c\<bar> \<le> c * 6 / 2 ^ 24"
proof -
  have A': "0 \<le> 2 ^ 24 - A" and B': "0 \<le> 2 ^ 24 - B"
    using A B by simp_all
  note t1 = term_bounds [OF A(1) B(1) c, folded a1_def b1_def]
  note t2 = term_bounds [OF A' B(1) c, folded a2_def b1_def]
  note t3 = term_bounds [OF A' B' c, folded a2_def b2_def]
  note t4 = term_bounds [OF A(1) B' c, folded a1_def b2_def]
  note s1 = sum_step [OF t1 t2 order_refl, folded fadd_def]
  have k3: "2 \<le> Suc 2" and k4: "2 \<le> Suc (Suc 2)"
    by simp_all
  note s2 = sum_step [OF s1 t3 k3, folded fadd_def]
  note s3 = sum_step [OF s2 t4 k4, folded fadd_def]
  have "a1 + a2 = 1" "b1 + b2 = 1"
    by (simp_all add: a1_def a2_def b1_def b2_def flip: add_divide_distrib)
  have "c * (a1 * b1) + c * (a2 * b1) + c * (a2 * b2) + c * (a1 * b2) = c * ((a1 + a2) * (b1 + b2))"
    by (simp add: algebra_simps)
  with \<open>a1 + a2 = 1\<close> \<open>b1 + b2 = 1\<close>
  have total: "c * (a1 * b1) + c * (a2 * b1) + c * (a2 * b2) + c * (a1 * b2) = c"
    by simp
  define r where "r = fadd (fadd (fadd (fmul c (fmul a1 b1)) (fmul c (fmul a2 b1))) (fmul c (fmul a2 b2)))
               (fmul c (fmul a1 b2))"
  have lo: "c * (16777215 / 16777216) ^ 5 \<le> r" and hi: "r \<le> c * (16777217 / 16777216) ^ 5"
    using s3 unfolding total r_def by (simp_all add: eval_nat_numeral)
  have c0: "0 \<le> c"
    using c two_powi_pos [of "- 78"] by (auto simp: less_imp_le intro: order_trans)
  have "c - c * 6 / 2 ^ 24 \<le> c * (16777215 / 16777216) ^ 5"
    using c0 by (simp add: field_simps)
  moreover have "c * (16777217 / 16777216) ^ 5 \<le> c + c * 6 / 2 ^ 24"
    using c0 by (simp add: field_simps)
  ultimately have "c - c * 6 / 2 ^ 24 \<le> r" "r \<le> c + c * 6 / 2 ^ 24"
    using lo hi by linarith+
  then have "\<bar>r - c\<bar> \<le> c * 6 / 2 ^ 24"
    unfolding abs_le_iff by linarith
  then show ?thesis
    by (simp only: r_def)
qed

lemma clamped_coordinate:
  fixes a b :: real
  shows "fl32 (if fsub a b < 0 then 0 else fsub a b) = (if fsub a b < 0 then 0 else fsub a b)
         \<and> 0 \<le> (if fsub a b < 0 then 0 else fsub a b)"
  by (simp add: fl32_0 fsub_def fl32_idem)

lemma linear_cells_in_grid:
  fixes x y :: nat and out_width out_height :: int and scores_dim :: int2 and scores :: "8 word list"
  defines "px \<equiv> fdiv (float_of_int (int x)) (float_of_int out_width)"
    and "py \<equiv> fdiv (float_of_int (int y)) (float_of_int out_height)"
  defines "bx \<equiv> fsub (fmul px (float_of_int (i2_x scores_dim))) (1 / 2)"
    and "bY \<equiv> fsub (fmul py (float_of_int (i2_y scores_dim))) (1 / 2)"
  defines "x1 \<equiv> int_of_float (if bx < 0 then 0 else bx)"
    and "y1 \<equiv> int_of_float (if bY < 0 then 0 else bY)"
  defines "x2 \<equiv> min (x1 + 1) (i2_x scores_dim - 1)"
    and "y2 \<equiv> min (y1 + 1) (i2_y scores_dim - 1)"
  assumes xw: "int x < out_width" "out_width \<le> 2 ^ 24"
    and yh: "int y < out_height" "out_height \<le> 2 ^ 24"
    and dim: "0 < i2_x scores_dim" "0 < i2_y scores_dim"
    and len: "int (length scores) = i2_x scores_dim * i2_y scores_dim"
  shows "0 \<le> x1 \<and> x1 \<le> x2 \<and> x2 < i2_x scores_dim
       \<and> 0 \<le> y1 \<and> y1 \<le> y2 \<and> y2 < i2_y scores_dim
       \<and> (if x1 \<ge> i2_x scores_dim - 1 then x1 else x1 + 1) = x2
       \<and> (if y1 \<ge> i2_y scores_dim - 1 then y1 else y1 + 1) = y2
       \<and> LOOKUP_CLASS_MAP (Some scores) scores_dim x1 y1 = Some (scores ! nat (y1 * i2_x scores_dim + x1))
       \<and> LOOKUP_CLASS_MAP (Some scores) scores_dim x2 y1 = Some (scores ! nat (y1 * i2_x scores_dim + x2))
       \<and> LOOKUP_CLASS_MAP (Some scores) scores_dim x2 y2 = Some (scores ! nat (y2 * i2_x scores_dim + x2))
       \<and> LOOKUP_CLASS_MAP (Some scores) scores_dim x1 y2 = Some (scores ! nat (y2 * i2_x scores_dim + x1))
       \<and> y2 * i2_x scores_dim + x2 < int (length scores)"
proof -
  have x: "0 \<le> int x" and y: "0 \<le> int y" by simp_all
  have "0 \<le> x1 \<and> x1 \<le> i2_x scores_dim - 1"
    unfolding x1_def bx_def px_def
    by (rule linear_cell_in_range [OF x xw]) (use dim in linarith)
  then have x1: "0 \<le> x1" "x1 \<le> i2_x scores_dim - 1"
    by simp_all
  have "0 \<le> y1 \<and> y1 \<le> i2_y scores_dim - 1"
    unfolding y1_def bY_def py_def
    by (rule linear_cell_in_range [OF y yh]) (use dim in linarith)
  then have y1: "0 \<le> y1" "y1 \<le> i2_y scores_dim - 1"
    by simp_all
  have x2: "(if x1 \<ge> i2_x scores_dim - 1 then x1 else x1 + 1) = x2" "x1 \<le> x2" "x2 < i2_x scores_dim"
    using x1 by (auto simp: x2_def)
  have y2: "(if y1 \<ge> i2_y scores_dim - 1 then y1 else y1 + 1) = y2" "y1 \<le> y2" "y2 < i2_y scores_dim"
    using y1 by (auto simp: y2_def)
  have rd: "LOOKUP_CLASS_MAP (Some scores) scores_dim a b = Some (scores ! nat (b * i2_x scores_dim + a))"
    if "0 \<le> a" "a < i2_x scores_dim" "0 \<le> b" "b < i2_y scores_dim" for a b
    unfolding LOOKUP_CLASS_MAP_def using index_in_range [OF that] len by (intro rd_Some) simp_all
  have "LOOKUP_CLASS_MAP (Some scores) scores_dim x1 y1 = Some (scores ! nat (y1 * i2_x scores_dim + x1))"
       "LOOKUP_CLASS_MAP (Some scores) scores_dim x2 y1 = Some (scores ! nat (y1 * i2_x scores_dim + x2))"
       "LOOKUP_CLASS_MAP (Some scores) scores_dim x2 y2 = Some (scores ! nat (y2 * i2_x scores_dim + x2))"
       "LOOKUP_CLASS_MAP (Some scores) scores_dim x1 y2 = Some (scores ! nat (y2 * i2_x scores_dim + x1))"
    using x1 y1 x2 y2 by (intro rd; linarith)+
  moreover have "y2 * i2_x scores_dim + x2 < int (length scores)"
    using index_in_range [of x2 "i2_x scores_dim" y2 "i2_y scores_dim"] x1 y1 x2 y2 len by simp
  ultimately show ?thesis
    using x1 y1 x2 y2 by simp
qed

lemma gpuSegOverlay_linear_mask_cells:
  fixes x y :: nat and out_width out_height :: int and scores_dim :: int2
  defines "px \<equiv> fdiv (float_of_int (int x)) (float_of_int out_width)"
    and "py \<equiv> fdiv (float_of_int (int y)) (float_of_int out_height)"
  defines "bx \<equiv> fsub (fmul px (float_of_int (i2_x scores_dim))) (1 / 2)"
    and "bY \<equiv> fsub (fmul py (float_of_int (i2_y scores_dim))) (1 / 2)"
  defines "cx \<equiv> (if bx < 0 then 0 else bx)"
    and "cy \<equiv> (if bY < 0 then 0 else bY)"
  defines "x1 \<equiv> int_of_float cx"
    and "y1 \<equiv> int_of_float cy"
  defines "x1f \<equiv> fsub 1 (fsub cx (float_of_int x1))"
    and "y1f \<equiv> fsub 1 (fsub cy (float_of_int y1))"
  defines "x2f \<equiv> fsub 1 x1f"
    and "y2f \<equiv> fsub 1 y1f"
  assumes "int x < out_width" and "int y < out_height"
    and "(if x1 \<ge> i2_x scores_dim - 1 then x1 else x1 + 1) = xh"
    and "(if y1 \<ge> i2_y scores_dim - 1 then y1 else y1 + 1) = yh"
    and "LOOKUP_CLASS_MAP scores scores_dim x1 y1 = Some ka"
    and "LOOKUP_CLASS_MAP scores scores_dim xh y1 = Some kb"
    and "LOOKUP_CLASS_MAP scores scores_dim xh yh = Some kc"
    and "LOOKUP_CLASS_MAP scores scores_dim x1 yh = Some kd"
    and "rd class_colors (uint ka) = Some ca"
    and "rd class_colors (uint kb) = Some cb"
    and "rd class_colors (uint kc) = Some cc"
    and "rd class_colors (uint kd) = Some cd"
  shows "gpuSegOverlay T True True input in_width in_height out_width out_height
           class_colors scores scores_dim x y =
         store (int y * out_width + int x)
           (make_vec T
             (fadd (fadd (fadd (fmul (f4_x ca) (fmul x1f y1f)) (fmul (f4_x cb) (fmul x2f y1f)))
                         (fmul (f4_x cc) (fmul x2f y2f))) (fmul (f4_x cd) (fmul x1f y2f)))
             (fadd (fadd (fadd (fmul (f4_y ca) (fmul x1f y1f)) (fmul (f4_y cb) (fmul x2f y1f)))
                         (fmul (f4_y cc) (fmul x2f y2f))) (fmul (f4_y cd) (fmul x1f y2f)))
             (fadd (fadd (fadd (fmul (f4_z ca) (fmul x1f y1f)) (fmul (f4_z cb) (fmul x2f y1f)))
                         (fmul (f4_z cc) (fmul x2f y2f))) (fmul (f4_z cd) (fmul x1f y2f)))
             255)"
proof -
  have c: "LOOKUP_CLASS_MAP scores scores_dim x1 (if y1 \<ge> i2_y scores_dim - 1 then y1 else y1 + 1) = Some kd"
      "LOOKUP_CLASS_MAP scores scores_dim (if x1 \<ge> i2_x scores_dim - 1 then x1 else x1 + 1) y1 = Some kb"
      "LOOKUP_CLASS_MAP scores scores_dim (if x1 \<ge> i2_x scores_dim - 1 then x1 else x1 + 1)
         (if y1 \<ge> i2_y scores_dim - 1 then y1 else y1 + 1) = Some kc"
    using assms(15-20) by simp_all
  show ?thesis
    using assms(13,14,17,21-24) c
    unfolding gpuSegOverlay_def Let_def px_def py_def bx_def bY_def cx_def cy_def x1_def y1_def
      x1f_def y1f_def x2f_def y2f_def
    by simp
qed


section \<open>The alpha channel in mask-only mode\<close>

lemma gpuSegOverlay_mask_make_vec:
  assumes "gpuSegOverlay T fl True input iw ih ow oh cc sc sd x y = Store j p"
  shows "\<exists>r g b. make_vec T r g b 255 = Some p"
proof (cases fl)
  case False
  with assms show ?thesis
    unfolding gpuSegOverlay_def Let_def
    by (auto simp: store_eq_Store bind_eq_Some_conv split: if_splits)
next
  case True
  with assms show ?thesis
    unfolding gpuSegOverlay_def Let_def
    by (auto simp: store_eq_Store bind_eq_Some_conv split: if_splits)
qed

lemma make_vec_255:
  assumes "make_vec T r g b 255 = Some p"
  shows "case T of
           T_uchar3 \<Rightarrow> \<exists>a b c. p = Uchar3 a b c
         | T_uchar4 \<Rightarrow> \<exists>a b c. p = Uchar4 a b c 255
         | T_float3 \<Rightarrow> \<exists>a b c. p = Float3 a b c
         | T_float4 \<Rightarrow> \<exists>a b c. p = Float4 a b c 1"
  using assms
  by (cases T)
    (auto simp: make_vec_def make_uchar3_def bind_eq_Some_conv uchar_of_float_255 fdiv_def fl32_1)

lemma cells_3x1:
  "fmul (fdiv (float_of_int 0) (float_of_int 3)) (float_of_int 3) = 0"
  "fmul (fdiv (float_of_int 1) (float_of_int 3)) (float_of_int 3) = 1"
  "fmul (fdiv (float_of_int 2) (float_of_int 3)) (float_of_int 3) = 2"
  "fmul (fdiv (float_of_int 0) (float_of_int 1)) (float_of_int 1) = 0"
proof -
  have e1: "fl32 3 = 3" by (simp add: fl_eval)
  have e3: "fl32 (1 / 3) = 11184811 / 33554432" by (simp add: fl_eval)
  have e4: "fl32 (33554433 / 33554432) = 1" by (simp add: fl_eval)
  have e5: "fl32 2 = 2" by (simp add: fl_eval)
  have e6: "fl32 (2 / 3) = 11184811 / 16777216" by (simp add: fl_eval)
  have e7: "fl32 (33554433 / 16777216) = 2" by (simp add: fl_eval)
  show "fmul (fdiv (float_of_int 0) (float_of_int 3)) (float_of_int 3) = 0"
    "fmul (fdiv (float_of_int 1) (float_of_int 3)) (float_of_int 3) = 1"
    "fmul (fdiv (float_of_int 2) (float_of_int 3)) (float_of_int 3) = 2"
    "fmul (fdiv (float_of_int 0) (float_of_int 1)) (float_of_int 1) = 0"
    by (simp_all add: f_ops fl32_0 fl32_1 e1 e3 e4 e5 e6 e7)
qed

lemma int_of_float_012: "int_of_float 0 = 0" "int_of_float 1 = 1" "int_of_float 2 = 2"
  by (simp_all add: int_of_float_def)

lemma run_point_mask_float4_3x1:
  "run_grid (1, 1) (gpuSegOverlay T_float4 False True None 0 0 3 1
       (Some [make_float4 255 0 0 255, make_float4 0 255 0 128, make_float4 90 60 30 64])
       (Some [2, 0, 1]) (make_int2 3 1)) [Float4 0 0 0 0, Float4 0 0 0 0, Float4 0 0 0 0] =
     Completed [Float4 90 60 30 1, Float4 255 0 0 1, Float4 0 255 0 1]"
  by (rule run_grid_3x1)
    (simp_all add: gpuSegOverlay_Idle,
     simp_all add: gpuSegOverlay_def LOOKUP_CLASS_MAP_def rd_def store_def make_vec_float4
       cells_3x1 int_of_float_012)

lemma run_linear_mask_uchar4_1x1:
  "run_grid (1, 1) (gpuSegOverlay T_uchar4 True True None 0 0 1 1
       (Some [make_float4 10 20 30 64]) (Some [0]) (make_int2 1 1)) [Uchar4 7 7 7 7] =
     Completed [Uchar4 10 20 30 255]"
proof (rule run_grid_1x1)
  have e: "fl32 (- (1 / 2)) = - (1 / 2)" "fl32 10 = 10" "fl32 20 = 20" "fl32 30 = 30"
    by (simp_all add: fl_eval)
  have b: "fsub (fmul (fdiv (float_of_int 0) (float_of_int 1)) (float_of_int 1)) (1 / 2) = - (1 / 2)"
    by (simp add: f_ops fl32_0 fl32_1 e)
  have w: "fsub 0 (float_of_int 0) = 0" "fsub 1 0 = 1" "fsub 1 1 = 0" "fmul 1 1 = 1" "fmul 0 1 = 0"
      "fmul 1 0 = 0" "fmul 0 0 = 0"
    by (simp_all add: f_ops fl32_0 fl32_1)
  have m: "fadd (fadd (fadd (fmul 10 1) (fmul 10 0)) (fmul 10 0)) (fmul 10 0) = 10"
      "fadd (fadd (fadd (fmul 20 1) (fmul 20 0)) (fmul 20 0)) (fmul 20 0) = 20"
      "fadd (fadd (fadd (fmul 30 1) (fmul 30 0)) (fmul 30 0)) (fmul 30 0) = 30"
    by (simp_all add: f_ops fl32_0 e)
  have u: "uchar_of_float 10 = Some 10" "uchar_of_float 20 = Some 20" "uchar_of_float 30 = Some 30"
      "uchar_of_float 255 = Some 255"
    using uchar_of_float_of_int [of 10] uchar_of_float_of_int [of 20] uchar_of_float_of_int [of 30]
      uchar_of_float_of_int [of 255]
    by simp_all
  show "gpuSegOverlay T_uchar4 True True None 0 0 1 1
       (Some [make_float4 10 20 30 64]) (Some [0]) (make_int2 1 1) 0 0 = Store 0 (Uchar4 10 20 30 255)"
    using gpuSegOverlay_linear_mask_cells [where x = 0 and y = 0 and out_width = 1 and out_height = 1
        and scores_dim = "make_int2 1 1" and scores = "Some [0]" and T = T_uchar4
        and class_colors = "Some [make_float4 10 20 30 64]"
        and input = None and in_width = 0 and in_height = 0 and xh = 0 and yh = 0
        and ka = 0 and kb = 0 and kc = 0 and kd = 0
        and ca = "make_float4 10 20 30 64" and cb = "make_float4 10 20 30 64"
        and cc = "make_float4 10 20 30 64" and cd = "make_float4 10 20 30 64"]
    by (simp add: LOOKUP_CLASS_MAP_def rd_def store_def make_vec_def b w m u int_of_float_012)
  show "gpuSegOverlay T_uchar4 True True None 0 0 1 1
       (Some [make_float4 10 20 30 64]) (Some [0]) (make_int2 1 1) x y = Idle"
    if "1 \<le> int x \<or> 1 \<le> int y" for x y
    using that by (simp add: gpuSegOverlay_Idle)
qed

text \<open>
  C8. In mask-only mode, for point and for linear filtering, for every output pixel and each
  of the four supported formats, the pixel stored is built by the pixel constructor with the
  opaque alpha 255 as its last argument: the alpha channel written is 255 for the 4-channel
  8-bit format and 1.0 for the 4-channel float format; the 3-channel formats have no alpha
  channel. The sizes are those for which no \<^verbatim>\<open>int\<close> of the kernel overflows.
\<close>

theorem mask_alpha_opaque:
  fixes x y :: nat and out_width out_height :: int and scores_dim :: int2
  defines "p \<equiv> \<lambda>buf'. buf' ! nat (int y * out_width + int x)"
  assumes fmt: "LAUNCH_OVERLAY format = Some T"
    and run: "run_grid gr (gpuSegOverlay T filter_linear True input in_width in_height out_width out_height
              class_colors scores scores_dim) buf = Completed buf'"
    and thr: "x < fst gr * 8" "y < snd gr * 8"
    and xw: "int x < out_width" "out_width \<le> 2 ^ 24"
    and yh: "int y < out_height" "out_height \<le> 2 ^ 24"
    and out: "out_width * out_height < 2 ^ 31"
    and dim: "0 < i2_x scores_dim" "0 < i2_y scores_dim" "i2_x scores_dim * i2_y scores_dim < 2 ^ 31"
  shows "gpuSegOverlay T filter_linear True input in_width in_height out_width out_height
             class_colors scores scores_dim x y =
           Store (int y * out_width + int x) (p buf')
       \<and> 0 \<le> int y * out_width + int x \<and> int y * out_width + int x < 2 ^ 31
       \<and> (\<exists>r g b. make_vec T r g b 255 = Some (p buf'))
       \<and> (case format of
             IMAGE_RGB8 \<Rightarrow> \<exists>a b c. p buf' = Uchar3 a b c
           | IMAGE_RGBA8 \<Rightarrow> \<exists>a b c. p buf' = Uchar4 a b c 255
           | IMAGE_RGB32F \<Rightarrow> \<exists>a b c. p buf' = Float3 a b c
           | IMAGE_RGBA32F \<Rightarrow> \<exists>a b c. p buf' = Float4 a b c 1
           | IMAGE_OTHER n \<Rightarrow> False)"
proof -
  have st: "gpuSegOverlay T filter_linear True input in_width in_height out_width out_height
             class_colors scores scores_dim x y =
           Store (int y * out_width + int x) (p buf')"
    unfolding p_def using run thr xw(1) yh(1) by (rule run_grid_gpuSegOverlay_pixel)
  from gpuSegOverlay_mask_make_vec [OF st]
  obtain r g b where mk: "make_vec T r g b 255 = Some (p buf')"
    by blast
  have "0 \<le> int y * out_width + int x \<and> int y * out_width + int x < out_width * out_height"
    by (rule index_in_range) (use xw yh in simp_all)
  then have oi: "0 \<le> int y * out_width + int x" "int y * out_width + int x < 2 ^ 31"
    using out by linarith+
  have "case format of
             IMAGE_RGB8 \<Rightarrow> \<exists>a b c. p buf' = Uchar3 a b c
           | IMAGE_RGBA8 \<Rightarrow> \<exists>a b c. p buf' = Uchar4 a b c 255
           | IMAGE_RGB32F \<Rightarrow> \<exists>a b c. p buf' = Float3 a b c
           | IMAGE_RGBA32F \<Rightarrow> \<exists>a b c. p buf' = Float4 a b c 1
           | IMAGE_OTHER n \<Rightarrow> False"
    using make_vec_255 [OF mk] fmt by (cases format) auto
  with st mk oi show ?thesis
    by blast
qed

theorem mask_alpha_opaque_witness:
  "gpuSegOverlay T_float4 False True None 0 0 3 1
       (Some [make_float4 255 0 0 255, make_float4 0 255 0 128, make_float4 90 60 30 64])
       (Some [2, 0, 1]) (make_int2 3 1) 2 0 = Store 2 (Float4 0 255 0 1)
   \<and> run_grid (1, 1) (gpuSegOverlay T_float4 False True None 0 0 3 1
       (Some [make_float4 255 0 0 255, make_float4 0 255 0 128, make_float4 90 60 30 64])
       (Some [2, 0, 1]) (make_int2 3 1)) [Float4 0 0 0 0, Float4 0 0 0 0, Float4 0 0 0 0] =
     Completed [Float4 90 60 30 1, Float4 255 0 0 1, Float4 0 255 0 1]
   \<and> gpuSegOverlay T_uchar4 True True None 0 0 1 1
       (Some [make_float4 10 20 30 64]) (Some [0]) (make_int2 1 1) 0 0 = Store 0 (Uchar4 10 20 30 255)
   \<and> run_grid (1, 1) (gpuSegOverlay T_uchar4 True True None 0 0 1 1
       (Some [make_float4 10 20 30 64]) (Some [0]) (make_int2 1 1)) [Uchar4 7 7 7 7] =
     Completed [Uchar4 10 20 30 255]"
  using mask_alpha_opaque [where format = IMAGE_RGBA32F and x = 2 and y = 0 and scores_dim = "make_int2 3 1",
      OF _ run_point_mask_float4_3x1]
    mask_alpha_opaque [where format = IMAGE_RGBA8 and x = 0 and y = 0 and scores_dim = "make_int2 1 1",
      OF _ run_linear_mask_uchar4_1x1]
    run_point_mask_float4_3x1 run_linear_mask_uchar4_1x1
  by simp


section \<open>The matting kernel\<close>

lemma BlendRGBA32ToRGB8_Store:
  assumes "BlendRGBA32ToRGB8 src alph w h x y = Store j p"
  shows "int x < w \<and> j = int y * w + int x"
  using assms unfolding BlendRGBA32ToRGB8_def Let_def
  by (auto simp: store_eq_Store split: if_splits)

lemma BlendRGBA32ToRGB8_not_Idle:
  "int x < w \<Longrightarrow> int y < h \<Longrightarrow> BlendRGBA32ToRGB8 src alph w h x y \<noteq> Idle"
  unfolding BlendRGBA32ToRGB8_def Let_def by (simp add: store_not_Idle)

lemma coordinate_round_trip:
  assumes "int x \<le> 2 ^ 24"
  shows "int_of_float (fmul (float_of_int (int x)) 1) = int x"
proof -
  have "float_of_int (int x) = of_int (int x)"
    using assms by (intro float_of_int_exact) simp
  moreover have "fl32 (of_int (int x)) = of_int (int x)"
    using assms by (intro fl32_of_int) simp
  ultimately show ?thesis
    by (simp add: fmul_def int_of_float_def)
qed

lemma clip_0_255: "0 \<le> clip v 0 255 \<and> clip v 0 255 \<le> 255"
  by (simp add: clip_def)

lemma uchar_of_float_in_range:
  "0 \<le> v \<Longrightarrow> v \<le> 255 \<Longrightarrow> uchar_of_float v = Some (word_of_int \<lfloor>v\<rfloor>)"
  by (simp add: uchar_of_float_def int_of_float_def le_floor_iff floor_le_iff)

lemma clip3_0_255:
  "clip3 (make_float3 a b c) 0 255 =
     Some (Uchar3 (word_of_int \<lfloor>clip a 0 255\<rfloor>) (word_of_int \<lfloor>clip b 0 255\<rfloor>)
                  (word_of_int \<lfloor>clip c 0 255\<rfloor>))"
  using clip_0_255 [of a] clip_0_255 [of b] clip_0_255 [of c]
  by (simp add: clip3_def float_of_int_def fl32_0 fl32_255 make_uchar3_def uchar_of_float_in_range)

lemma BlendRGBA32ToRGB8_Idle:
  "w \<le> int x \<or> h \<le> int y \<Longrightarrow> BlendRGBA32ToRGB8 src alph w h x y = Idle"
  by (simp add: BlendRGBA32ToRGB8_def)

text \<open>
  C6, as stated: for every pixel the output would be the clipped blend of the source and the
  alpha read at that pixel. The kernel reads at \<open>(dx, dy)\<close>, the pixel's coordinates after a
  round trip through \<^verbatim>\<open>float\<close>, and stores at \<open>(x, y)\<close>. In an image 16777218 pixels wide the
  thread \<open>x = 16777217\<close> has \<open>dx = 16777216\<close>: with a source that is 1 at pixel 16777216 and 0
  elsewhere and an alpha of 1 everywhere, it stores red 255 where the blend of its own pixel
  is 0.
\<close>

theorem matte_pixel_far_column:
  "BlendRGBA32ToRGB8 (Some (replicate 16777216 0 @ [1, 0] @ replicate 33554436 0))
       (Some (replicate 16777218 1)) 16777218 1 16777217 0 = Store 16777217 (Uchar3 255 0 0)
   \<and> (replicate 16777216 0 @ [1, 0] @ replicate 33554436 0) ! 16777217 = (0 :: real)
   \<and> clip (fadd (fmul (fmul 0 255) 1) (fmul (fsub 1 1) 120)) 0 255 = 0"
proof -
  have e0: "fl32 16777217 = 16777216" by (simp add: fl_eval)
  have e1: "fl32 16777216 = 16777216" by (simp add: fl_eval)
  have dx: "int_of_float (fmul (float_of_int (int 16777217)) 1) = 16777216"
    by (simp add: f_ops e0 e1 int_of_float_def)
  have dy: "int_of_float (fmul (float_of_int (int 0)) 1) = 0"
    by (simp add: f_ops fl32_0 int_of_float_def)
  have c: "clip (fadd (fmul (fmul 1 255) 1) (fmul (fsub 1 1) 120)) 0 255 = 255"
    "clip (fadd (fmul (fmul 0 255) 1) (fmul (fsub 1 1) 255)) 0 255 = 0"
    "clip (fadd (fmul (fmul 0 255) 1) (fmul (fsub 1 1) 155)) 0 255 = 0"
    "clip (fadd (fmul (fmul 0 255) 1) (fmul (fsub 1 1) 120)) 0 255 = 0"
    by (simp_all add: f_ops clip_def fl32_0 fl32_255)
  have "BlendRGBA32ToRGB8 (Some (replicate 16777216 0 @ [1, 0] @ replicate 33554436 0))
       (Some (replicate 16777218 1)) 16777218 1 16777217 0 = Store 16777217 (Uchar3 255 0 0)"
    unfolding BlendRGBA32ToRGB8_def Let_def dx dy
    by (simp add: rd_def nth_append clip3_0_255 store_def c)
  then show ?thesis
    by (simp add: nth_append c)
qed

text \<open>
  C6, amended: for every pixel of an image of at most \<open>2 ^ 24\<close> pixels in width and in height
  (and fewer than \<open>2 ^ 31\<close> tensor elements, so that the indices fit an \<^verbatim>\<open>int\<close>), and for each
  of the three channels, the kernel computes
  \<open>clip (src * 255 * alpha + (1 - alpha) * BG, 0, 255)\<close> in single precision, where \<open>src\<close> is the
  channel plane and \<open>alpha\<close> the alpha plane at that pixel and \<open>BG\<close> is the constant 120, 255 or
  155 of the channel, written into the kernel. The clipped value is in \<open>[0, 255]\<close> and is
  stored truncated to an 8-bit channel of a 3-channel pixel.
\<close>

theorem matte_pixel:
  fixes x y :: nat and width height :: int and srcImage alphImage :: "real list"
  defines "i \<equiv> int y * width + int x"
    and "n \<equiv> width * height"
  defines "alpha \<equiv> alphImage ! nat i"
    and "src_r \<equiv> srcImage ! nat i"
    and "src_g \<equiv> srcImage ! nat (n + i)"
    and "src_b \<equiv> srcImage ! nat (2 * n + i)"
  defines "out_r \<equiv> clip (fadd (fmul (fmul src_r 255) alpha) (fmul (fsub 1 alpha) 120)) 0 255"
    and "out_g \<equiv> clip (fadd (fmul (fmul src_g 255) alpha) (fmul (fsub 1 alpha) 255)) 0 255"
    and "out_b \<equiv> clip (fadd (fmul (fmul src_b 255) alpha) (fmul (fsub 1 alpha) 155)) 0 255"
  assumes xw: "int x < width" "width \<le> 2 ^ 24"
    and yh: "int y < height" "height \<le> 2 ^ 24"
    and len: "int (length srcImage) = 3 * (width * height)" "int (length alphImage) = width * height"
    and fit: "int (length srcImage) < 2 ^ 31"
  shows "BlendRGBA32ToRGB8 (Some srcImage) (Some alphImage) width height x y =
           Store i (Uchar3 (word_of_int \<lfloor>out_r\<rfloor>) (word_of_int \<lfloor>out_g\<rfloor>) (word_of_int \<lfloor>out_b\<rfloor>))
       \<and> 0 \<le> out_r \<and> out_r \<le> 255 \<and> 0 \<le> out_g \<and> out_g \<le> 255 \<and> 0 \<le> out_b \<and> out_b \<le> 255
       \<and> 2 * n + i < 2 ^ 31
       \<and> (\<forall>g buf buf'. x < fst g * 8 \<and> y < snd g * 8 \<and>
             run_grid g (BlendRGBA32ToRGB8 (Some srcImage) (Some alphImage) width height) buf = Completed buf' \<longrightarrow>
             buf' ! nat i = Uchar3 (word_of_int \<lfloor>out_r\<rfloor>) (word_of_int \<lfloor>out_g\<rfloor>) (word_of_int \<lfloor>out_b\<rfloor>))"
proof -
  let ?k = "BlendRGBA32ToRGB8 (Some srcImage) (Some alphImage) width height"
  let ?p = "Uchar3 (word_of_int \<lfloor>out_r\<rfloor>) (word_of_int \<lfloor>out_g\<rfloor>) (word_of_int \<lfloor>out_b\<rfloor>)"
  have dx: "int_of_float (fmul (float_of_int (int x)) 1) = int x"
    using xw by (intro coordinate_round_trip) linarith
  have dy: "int_of_float (fmul (float_of_int (int y)) 1) = int y"
    using yh by (intro coordinate_round_trip) linarith
  have i: "0 \<le> i" "i < n"
    using index_in_range [of "int x" width "int y" height] xw yh by (simp_all add: i_def n_def)
  have rds: "rd (Some srcImage) (int y * width + int x) = Some src_r"
       "rd (Some srcImage) (n + int y * width + int x) = Some src_g"
       "rd (Some srcImage) (n * 2 + int y * width + int x) = Some src_b"
       "rd (Some alphImage) (int y * width + int x) = Some alpha"
    using i len unfolding src_r_def src_g_def src_b_def alpha_def
    by (simp_all add: rd_def i_def n_def algebra_simps)
  have k: "?k x y = Store i ?p"
    using xw(1) yh(1) unfolding BlendRGBA32ToRGB8_def Let_def dx dy n_def [symmetric]
    by (simp add: rds clip3_0_255 store_def i_def out_r_def out_g_def out_b_def)
  have "buf' ! nat i = ?p"
    if "x < fst g * 8" "y < snd g * 8" "run_grid g ?k buf = Completed buf'" for g buf buf'
  proof -
    have "?k x y = Store (int y * width + int x) (buf' ! nat (int y * width + int x))"
    proof (rule run_grid_pixel [OF that(3) _ _ that(1,2)])
      show "?k x y \<noteq> Idle"
        using xw(1) yh(1) by (rule BlendRGBA32ToRGB8_not_Idle)
      show "int x' < width \<and> j = int y' * width + int x'" if "?k x' y' = Store j q" for x' y' j q
        using BlendRGBA32ToRGB8_Store [OF that] .
    qed
    with k show ?thesis
      by (simp add: i_def)
  qed
  moreover have "2 * n + i < int (length srcImage)"
    using i len unfolding n_def by linarith
  then have "2 * n + i < 2 ^ 31"
    using fit by (rule less_trans)
  ultimately show ?thesis
    using k clip_0_255 by (auto simp: out_r_def out_g_def out_b_def)
qed

theorem matte_pixel_witness:
  "BlendRGBA32ToRGB8 (Some [1, 1 / 2, 1 / 4]) (Some [1 / 2]) 1 1 0 0 = Store 0 (Uchar3 187 191 109)
   \<and> clip (fadd (fmul (fmul 1 255) (1 / 2)) (fmul (fsub 1 (1 / 2)) 120)) 0 255 = 375 / 2
   \<and> clip (fadd (fmul (fmul (1 / 2) 255) (1 / 2)) (fmul (fsub 1 (1 / 2)) 255)) 0 255 = 765 / 4
   \<and> clip (fadd (fmul (fmul (1 / 4) 255) (1 / 2)) (fmul (fsub 1 (1 / 2)) 155)) 0 255 = 875 / 8
   \<and> run_grid (1, 1) (BlendRGBA32ToRGB8 (Some [1, 1 / 2, 1 / 4]) (Some [1 / 2]) 1 1) [Uchar3 0 0 0] =
       Completed [Uchar3 187 191 109]"
proof -
  have e2: "fl32 (255 / 2) = 255 / 2" by (simp add: fl_eval)
  have e3: "fl32 (1 / 2) = 1 / 2" by (simp add: fl_eval)
  have e4: "fl32 60 = 60" by (simp add: fl_eval)
  have e5: "fl32 (375 / 2) = 375 / 2" by (simp add: fl_eval)
  have e6: "fl32 (255 / 4) = 255 / 4" by (simp add: fl_eval)
  have e7: "fl32 (765 / 4) = 765 / 4" by (simp add: fl_eval)
  have e8: "fl32 (255 / 8) = 255 / 8" by (simp add: fl_eval)
  have e9: "fl32 (155 / 2) = 155 / 2" by (simp add: fl_eval)
  have e10: "fl32 (875 / 8) = 875 / 8" by (simp add: fl_eval)
  have c: "clip (fadd (fmul (fmul 1 255) (1 / 2)) (fmul (fsub 1 (1 / 2)) 120)) 0 255 = 375 / 2"
    "clip (fadd (fmul (fmul (1 / 2) 255) (1 / 2)) (fmul (fsub 1 (1 / 2)) 255)) 0 255 = 765 / 4"
    "clip (fadd (fmul (fmul (1 / 4) 255) (1 / 2)) (fmul (fsub 1 (1 / 2)) 155)) 0 255 = 875 / 8"
    by (simp_all add: f_ops clip_def fl32_255 e2 e3 e4 e5 e6 e7 e8 e9 e10)
  have k: "BlendRGBA32ToRGB8 (Some [1, 1 / 2, 1 / 4]) (Some [1 / 2]) 1 1 0 0 = Store 0 (Uchar3 187 191 109)"
    using matte_pixel [where x = 0 and y = 0 and width = 1 and height = 1
        and srcImage = "[1, 1 / 2, 1 / 4]" and alphImage = "[1 / 2]"]
    by (simp add: c)
  have "run_grid (1, 1) (BlendRGBA32ToRGB8 (Some [1, 1 / 2, 1 / 4]) (Some [1 / 2]) 1 1) [Uchar3 0 0 0] =
       Completed [Uchar3 187 191 109]"
    by (rule run_grid_1x1) (use k in \<open>simp_all add: BlendRGBA32ToRGB8_Idle\<close>)
  then show ?thesis
    using k c by simp
qed


section \<open>Read indices\<close>


text \<open>
  C10, as stated: in point-filter mode every read index would be in bounds for every output
  pixel, \<open>px = x / out_width\<close> being always below 1. For an output 16777217 pixels wide the
  thread \<open>x = 16777216\<close> converts both \<open>x\<close> and \<open>out_width\<close> to the float 16777216, so
  \<open>px\<close> is 1 and the cell index \<open>x1\<close> equals \<open>scores_dim.x\<close>: with a 1x1 score grid the
  thread reads \<open>scores[1]\<close>, outside the grid.
\<close>

theorem point_read_out_of_bounds:
  "fdiv (float_of_int (int 16777216)) (float_of_int 16777217) = 1
   \<and> gpuSegOverlay T_float4 False True None 0 0 16777217 1
       (Some [make_float4 255 0 0 255]) (Some [0]) (make_int2 1 1) 16777216 0 = Fault"
proof -
  have e0: "fl32 16777216 = 16777216" by (simp add: fl_eval)
  have e1: "fl32 16777217 = 16777216" by (simp add: fl_eval)
  show ?thesis
    by (simp add: gpuSegOverlay_def LOOKUP_CLASS_MAP_def f_ops fl32_0 fl32_1 e0 e1 int_of_float_def
        rd_def store_def)
qed

text \<open>
  C10, amended: in point-filter mode, for every output pixel \<open>(x, y)\<close> with \<open>x < out_width\<close> and
  \<open>y < out_height\<close>, with positive \<open>scores_dim\<close> and positive input sizes, and with an output
  of at most \<open>2 ^ 24\<close> pixels in width and in height, every read index is in bounds without
  any clamp: \<open>px\<close> and \<open>py\<close> are floats in \<open>[0, 1)\<close>, the cell satisfies
  \<open>0 \<le> x1 < scores_dim.x\<close> and \<open>0 \<le> y1 < scores_dim.y\<close>, and the sample of the input image
  satisfies \<open>0 \<le> x_in < in_width\<close> and \<open>0 \<le> y_in < in_height\<close>; with a score grid of
  \<open>scores_dim.x * scores_dim.y\<close> cells and an input of \<open>in_width * in_height\<close> pixels (fewer
  than \<open>2 ^ 31\<close> each, so that the indices fit an \<^verbatim>\<open>int\<close>) both reads succeed.
\<close>

theorem point_reads_in_bounds:
  fixes x y :: nat and out_width out_height in_width in_height :: int and scores_dim :: int2
    and scores :: "8 word list" and input :: "pixel list"
  defines "px \<equiv> fdiv (float_of_int (int x)) (float_of_int out_width)"
    and "py \<equiv> fdiv (float_of_int (int y)) (float_of_int out_height)"
  defines "x1 \<equiv> int_of_float (fmul px (float_of_int (i2_x scores_dim)))"
    and "y1 \<equiv> int_of_float (fmul py (float_of_int (i2_y scores_dim)))"
    and "x_in \<equiv> int_of_float (fmul px (float_of_int in_width))"
    and "y_in \<equiv> int_of_float (fmul py (float_of_int in_height))"
  assumes xw: "int x < out_width" "out_width \<le> 2 ^ 24"
    and yh: "int y < out_height" "out_height \<le> 2 ^ 24"
    and dim: "0 < i2_x scores_dim" "0 < i2_y scores_dim"
    and inp: "0 < in_width" "0 < in_height"
    and len: "int (length scores) = i2_x scores_dim * i2_y scores_dim"
      "int (length input) = in_width * in_height"
    and fit: "int (length scores) < 2 ^ 31" "int (length input) < 2 ^ 31"
  shows "0 \<le> px \<and> px < 1 \<and> 0 \<le> py \<and> py < 1
       \<and> 0 \<le> x1 \<and> x1 < i2_x scores_dim \<and> 0 \<le> y1 \<and> y1 < i2_y scores_dim
       \<and> 0 \<le> x_in \<and> x_in < in_width \<and> 0 \<le> y_in \<and> y_in < in_height
       \<and> LOOKUP_CLASS_MAP (Some scores) scores_dim x1 y1 = Some (scores ! nat (y1 * i2_x scores_dim + x1))
       \<and> rd (Some input) (y_in * in_width + x_in) = Some (input ! nat (y_in * in_width + x_in))
       \<and> y1 * i2_x scores_dim + x1 < 2 ^ 31 \<and> y_in * in_width + x_in < 2 ^ 31"
proof -
  have x: "0 \<le> int x" and y: "0 \<le> int y" by simp_all
  have px: "0 \<le> px" "px < 1"
    using fdiv_below_1 [OF x xw] by (simp_all add: px_def)
  have py: "0 \<le> py" "py < 1"
    using fdiv_below_1 [OF y yh] by (simp_all add: py_def)
  have x1: "0 \<le> x1" "x1 < i2_x scores_dim"
    using point_cell_in_range [OF x xw, of "i2_x scores_dim"] dim by (simp_all add: x1_def px_def)
  have y1: "0 \<le> y1" "y1 < i2_y scores_dim"
    using point_cell_in_range [OF y yh, of "i2_y scores_dim"] dim by (simp_all add: y1_def py_def)
  have xi: "0 \<le> x_in" "x_in < in_width"
    using point_cell_in_range [OF x xw, of in_width] inp by (simp_all add: x_in_def px_def)
  have yi: "0 \<le> y_in" "y_in < in_height"
    using point_cell_in_range [OF y yh, of in_height] inp by (simp_all add: y_in_def py_def)
  have "LOOKUP_CLASS_MAP (Some scores) scores_dim x1 y1 = Some (scores ! nat (y1 * i2_x scores_dim + x1))"
    unfolding LOOKUP_CLASS_MAP_def using index_in_range [OF x1 y1] len by (intro rd_Some) simp_all
  moreover have "rd (Some input) (y_in * in_width + x_in) = Some (input ! nat (y_in * in_width + x_in))"
    using index_in_range [OF xi yi] len by (intro rd_Some) simp_all
  moreover have "y1 * i2_x scores_dim + x1 < int (length scores)"
    using index_in_range [OF x1 y1] len by simp
  then have "y1 * i2_x scores_dim + x1 < 2 ^ 31"
    using fit(1) by (rule less_trans)
  moreover have "y_in * in_width + x_in < int (length input)"
    using index_in_range [OF xi yi] len by simp
  then have "y_in * in_width + x_in < 2 ^ 31"
    using fit(2) by (rule less_trans)
  ultimately show ?thesis
    using px py x1 y1 xi yi by simp
qed

theorem point_reads_in_bounds_witness:
  "int_of_float (fmul (fdiv (float_of_int 3) (float_of_int 5)) (float_of_int 4)) = 2
   \<and> int_of_float (fmul (fdiv (float_of_int 1) (float_of_int 2)) (float_of_int 2)) = 1
   \<and> int_of_float (fmul (fdiv (float_of_int 3) (float_of_int 5)) (float_of_int 7)) = 4
   \<and> int_of_float (fmul (fdiv (float_of_int 1) (float_of_int 2)) (float_of_int 3)) = 1
   \<and> LOOKUP_CLASS_MAP (Some [0, 0, 0, 0, 0, 0, 7, 0]) (make_int2 4 2) 2 1 = Some 7
   \<and> rd (Some (replicate 21 (Float3 1 2 3))) (1 * 7 + 4) = Some (Float3 1 2 3)"
proof -
  have e0: "fl32 3 = 3" by (simp add: fl_eval)
  have e1: "fl32 5 = 5" by (simp add: fl_eval)
  have e2: "fl32 (3 / 5) = 5033165 / 8388608" by (simp add: fl_eval)
  have e4: "fl32 2 = 2" by (simp add: fl_eval)
  have e5: "fl32 (1 / 2) = 1 / 2" by (simp add: fl_eval)
  have e6: "fl32 4 = 4" by (simp add: fl_eval)
  have e7: "fl32 (5033165 / 2097152) = 5033165 / 2097152" by (simp add: fl_eval)
  have e8: "fl32 7 = 7" by (simp add: fl_eval)
  have e9: "fl32 (35232155 / 8388608) = 8808039 / 2097152" by (simp add: fl_eval)
  have e10: "fl32 (3 / 2) = 3 / 2" by (simp add: fl_eval)
  show ?thesis
    using point_reads_in_bounds [where x = 3 and y = 1 and out_width = 5 and out_height = 2
        and in_width = 7 and in_height = 3 and scores_dim = "make_int2 4 2"
        and scores = "[0, 0, 0, 0, 0, 0, 7, 0]" and input = "replicate 21 (Float3 1 2 3)"]
    by (simp add: f_ops fl32_1 e0 e1 e2 e4 e5 e6 e7 e8 e9 e10 int_of_float_def)
qed





section \<open>The overlay kernel, linear filter over a region of one class\<close>

text \<open>
  C4, as stated: when the four cells selected by the linear filter hold the same class, the
  interpolated colour would be that class's colour exactly, as in point mode. For a 5x5
  output over a 1x1 score grid whose class has the colour \<open>(200, 200, 200)\<close>, the pixel
  \<open>(3, 3)\<close> has the weights \<open>7549747 / 8388608\<close> and \<open>838861 / 8388608\<close> on each axis; their four
  products are rounded, and so are the four terms and the three sums: the linear filter
  stores \<open>13107199 / 65536\<close> (199.99998) in a float pixel and 199 in an 8-bit pixel, where
  the point filter stores 200.
\<close>

theorem linear_uniform_not_exact:
  "gpuSegOverlay T_float3 True True None 0 0 5 5
       (Some [make_float4 200 200 200 255]) (Some [0]) (make_int2 1 1) 3 3 =
     Store 18 (Float3 (13107199 / 65536) (13107199 / 65536) (13107199 / 65536))
   \<and> gpuSegOverlay T_float3 False True None 0 0 5 5
       (Some [make_float4 200 200 200 255]) (Some [0]) (make_int2 1 1) 3 3 =
     Store 18 (Float3 200 200 200)
   \<and> gpuSegOverlay T_uchar3 True True None 0 0 5 5
       (Some [make_float4 200 200 200 255]) (Some [0]) (make_int2 1 1) 3 3 =
     Store 18 (Uchar3 199 199 199)
   \<and> gpuSegOverlay T_uchar3 False True None 0 0 5 5
       (Some [make_float4 200 200 200 255]) (Some [0]) (make_int2 1 1) 3 3 =
     Store 18 (Uchar3 200 200 200)"
proof -
  have e0: "fl32 3 = 3" by (simp add: fl_eval)
  have e1: "fl32 5 = 5" by (simp add: fl_eval)
  have e2: "fl32 (3 / 5) = 5033165 / 8388608" by (simp add: fl_eval)
  have e4: "fl32 (5033165 / 8388608) = 5033165 / 8388608" by (simp add: fl_eval)
  have e5: "fl32 (838861 / 8388608) = 838861 / 8388608" by (simp add: fl_eval)
  have e7: "fl32 (7549747 / 8388608) = 7549747 / 8388608" by (simp add: fl_eval)
  have e8: "fl32 (56998679764009 / 70368744177664) = 1698693 / 2097152" by (simp add: fl_eval)
  have e9: "fl32 (6333188318167 / 70368744177664) = 6039799 / 67108864" by (simp add: fl_eval)
  have e10: "fl32 (703687777321 / 70368744177664) = 10737423 / 1073741824" by (simp add: fl_eval)
  have e11: "fl32 (42467325 / 262144) = 10616831 / 65536" by (simp add: fl_eval)
  have e12: "fl32 (150994975 / 8388608) = 4718593 / 262144" by (simp add: fl_eval)
  have e13: "fl32 (47185917 / 262144) = 11796479 / 65536" by (simp add: fl_eval)
  have e14: "fl32 (268435575 / 134217728) = 2097153 / 1048576" by (simp add: fl_eval)
  have e15: "fl32 (190840817 / 1048576) = 11927551 / 65536" by (simp add: fl_eval)
  have e16: "fl32 (52428797 / 262144) = 13107199 / 65536" by (simp add: fl_eval)
  have bx: "fsub (fmul (fdiv (float_of_int 3) (float_of_int 5)) (float_of_int 1)) (1 / 2) = 838861 / 8388608"
    by (simp add: f_ops fl32_1 e0 e1 e2 e4 e5)
  have cx: "fmul (fdiv (float_of_int 3) (float_of_int 5)) (float_of_int 1) = 5033165 / 8388608"
    by (simp add: f_ops fl32_1 e0 e1 e2 e4)
  have i: "int_of_float (838861 / 8388608) = 0" "int_of_float (5033165 / 8388608) = 0"
    "int_of_float (13107199 / 65536) = 199" "int_of_float 200 = 200"
    by (simp_all add: int_of_float_def)
  have w: "fsub (838861 / 8388608) (float_of_int 0) = 838861 / 8388608"
      "fsub 1 (838861 / 8388608) = 7549747 / 8388608"
      "fsub 1 (7549747 / 8388608) = 838861 / 8388608"
    by (simp_all add: f_ops fl32_0 e5 e7)
  have p: "fmul (7549747 / 8388608) (7549747 / 8388608) = 1698693 / 2097152"
      "fmul (838861 / 8388608) (7549747 / 8388608) = 6039799 / 67108864"
      "fmul (7549747 / 8388608) (838861 / 8388608) = 6039799 / 67108864"
      "fmul (838861 / 8388608) (838861 / 8388608) = 10737423 / 1073741824"
    by (simp_all add: f_ops e8 e9 e10)
  have m: "fadd (fadd (fadd (fmul 200 (1698693 / 2097152)) (fmul 200 (6039799 / 67108864)))
                  (fmul 200 (10737423 / 1073741824))) (fmul 200 (6039799 / 67108864)) = 13107199 / 65536"
    by (simp add: f_ops e11 e12 e13 e14 e15 e16)
  have u: "uchar_of_float (13107199 / 65536) = Some 199" "uchar_of_float 200 = Some 200"
    by (simp_all add: uchar_of_float_def i)
  note K = gpuSegOverlay_linear_mask_cells [where x = 3 and y = 3 and out_width = 5 and out_height = 5
        and scores_dim = "make_int2 1 1" and scores = "Some [0]"
        and class_colors = "Some [make_float4 200 200 200 255]"
        and input = None and in_width = 0 and in_height = 0 and xh = 0 and yh = 0
        and ka = 0 and kb = 0 and kc = 0 and kd = 0
        and ca = "make_float4 200 200 200 255" and cb = "make_float4 200 200 200 255"
        and cc = "make_float4 200 200 200 255" and cd = "make_float4 200 200 200 255"]
  have "gpuSegOverlay T_float3 True True None 0 0 5 5
       (Some [make_float4 200 200 200 255]) (Some [0]) (make_int2 1 1) 3 3 =
     Store 18 (Float3 (13107199 / 65536) (13107199 / 65536) (13107199 / 65536))"
    using K [where T = T_float3]
    by (simp add: LOOKUP_CLASS_MAP_def rd_def store_def make_vec_def bx i w p m)
  moreover have "gpuSegOverlay T_float3 False True None 0 0 5 5
       (Some [make_float4 200 200 200 255]) (Some [0]) (make_int2 1 1) 3 3 =
     Store 18 (Float3 200 200 200)"
    by (simp add: gpuSegOverlay_def LOOKUP_CLASS_MAP_def rd_def store_def make_vec_def cx i)
  moreover have "gpuSegOverlay T_uchar3 True True None 0 0 5 5
       (Some [make_float4 200 200 200 255]) (Some [0]) (make_int2 1 1) 3 3 =
     Store 18 (Uchar3 199 199 199)"
    using K [where T = T_uchar3]
    by (simp add: LOOKUP_CLASS_MAP_def rd_def store_def make_vec_def make_uchar3_def bx i w p m u)
  moreover have "gpuSegOverlay T_uchar3 False True None 0 0 5 5
       (Some [make_float4 200 200 200 255]) (Some [0]) (make_int2 1 1) 3 3 =
     Store 18 (Uchar3 200 200 200)"
    by (simp add: gpuSegOverlay_def LOOKUP_CLASS_MAP_def rd_def store_def make_vec_def make_uchar3_def cx i u)
  ultimately show ?thesis
    by (intro conjI)
qed

text \<open>
  C4, amended: in linear-filter mask-only mode, for every pixel of an output of at most
  \<open>2 ^ 24\<close> pixels in width and in height (fewer than \<open>2 ^ 31\<close> in all) over a score grid of
  positive \<open>scores_dim\<close> and fewer than \<open>2 ^ 31\<close> cells, when the four cells \<open>(x1, y1)\<close>,
  \<open>(x2, y1)\<close>, \<open>(x2, y2)\<close>, \<open>(x1, y2)\<close> hold the same class, the interpolated colour equals that
  class's colour up to the rounding of single precision: each channel \<open>c\<close> of the colour (zero,
  or at least \<open>2 powi -78\<close>) comes out within \<open>6 * c / 2 ^ 24\<close> of \<open>c\<close>. The weights of each axis
  sum to 1 exactly, \<open>x1f + x2f = 1\<close> and \<open>y1f + y2f = 1\<close>; their four rounded products need
  not.
\<close>

theorem linear_uniform_region:
  fixes x y :: nat and out_width out_height :: int and scores_dim :: int2 and scores :: "8 word list"
    and class_colors :: "float4 list" and k :: "8 word"
  defines "px \<equiv> fdiv (float_of_int (int x)) (float_of_int out_width)"
    and "py \<equiv> fdiv (float_of_int (int y)) (float_of_int out_height)"
  defines "bx \<equiv> fsub (fmul px (float_of_int (i2_x scores_dim))) (1 / 2)"
    and "bY \<equiv> fsub (fmul py (float_of_int (i2_y scores_dim))) (1 / 2)"
  defines "cx \<equiv> (if bx < 0 then 0 else bx)"
    and "cy \<equiv> (if bY < 0 then 0 else bY)"
  defines "x1 \<equiv> int_of_float cx"
    and "y1 \<equiv> int_of_float cy"
  defines "x2 \<equiv> min (x1 + 1) (i2_x scores_dim - 1)"
    and "y2 \<equiv> min (y1 + 1) (i2_y scores_dim - 1)"
  defines "x1f \<equiv> fsub 1 (fsub cx (float_of_int x1))"
    and "y1f \<equiv> fsub 1 (fsub cy (float_of_int y1))"
  defines "x2f \<equiv> fsub 1 x1f"
    and "y2f \<equiv> fsub 1 y1f"
  defines "col \<equiv> class_colors ! unat k"
  assumes xw: "int x < out_width" "out_width \<le> 2 ^ 24"
    and yh: "int y < out_height" "out_height \<le> 2 ^ 24"
    and out: "out_width * out_height < 2 ^ 31"
    and dim: "0 < i2_x scores_dim" "0 < i2_y scores_dim"
    and len: "int (length scores) = i2_x scores_dim * i2_y scores_dim"
    and fit: "int (length scores) < 2 ^ 31"
    and same: "scores ! nat (y1 * i2_x scores_dim + x1) = k" "scores ! nat (y1 * i2_x scores_dim + x2) = k"
      "scores ! nat (y2 * i2_x scores_dim + x2) = k" "scores ! nat (y2 * i2_x scores_dim + x1) = k"
    and cls: "unat k < length class_colors"
    and r: "f4_x col = 0 \<or> 2 powi (- 78) \<le> f4_x col"
    and g: "f4_y col = 0 \<or> 2 powi (- 78) \<le> f4_y col"
    and b: "f4_z col = 0 \<or> 2 powi (- 78) \<le> f4_z col"
  shows "x1f + x2f = 1 \<and> y1f + y2f = 1
       \<and> int y * out_width + int x < 2 ^ 31 \<and> y2 * i2_x scores_dim + x2 < 2 ^ 31
       \<and> (\<exists>r g b.
             gpuSegOverlay T True True input in_width in_height out_width out_height
               (Some class_colors) (Some scores) scores_dim x y =
             store (int y * out_width + int x) (make_vec T r g b 255)
           \<and> \<bar>r - f4_x col\<bar> \<le> f4_x col * 6 / 2 ^ 24
           \<and> \<bar>g - f4_y col\<bar> \<le> f4_y col * 6 / 2 ^ 24
           \<and> \<bar>b - f4_z col\<bar> \<le> f4_z col * 6 / 2 ^ 24)"
proof -
  have fx: "fl32 cx = cx" "0 \<le> cx"
    using clamped_coordinate [of "fmul px (float_of_int (i2_x scores_dim))" "1 / 2"]
    by (simp_all only: cx_def bx_def)
  have fy: "fl32 cy = cy" "0 \<le> cy"
    using clamped_coordinate [of "fmul py (float_of_int (i2_y scores_dim))" "1 / 2"]
    by (simp_all only: cy_def bY_def)
  have dx: "fl32 (fsub cx (float_of_int x1)) = fsub cx (float_of_int x1)"
      "0 \<le> fsub cx (float_of_int x1)" "fsub cx (float_of_int x1) \<le> 1"
    using fraction_float [OF fx] by (simp_all only: x1_def)
  have dy: "fl32 (fsub cy (float_of_int y1)) = fsub cy (float_of_int y1)"
      "0 \<le> fsub cy (float_of_int y1)" "fsub cy (float_of_int y1) \<le> 1"
    using fraction_float [OF fy] by (simp_all only: y1_def)
  obtain A :: int where A: "0 \<le> A" "A \<le> 2 ^ 24" "x1f = of_int A / 2 ^ 24"
      "x2f = of_int (2 ^ 24 - A) / 2 ^ 24"
    using axis_weights [OF dx] unfolding x2f_def x1f_def by blast
  obtain B :: int where B: "0 \<le> B" "B \<le> 2 ^ 24" "y1f = of_int B / 2 ^ 24"
      "y2f = of_int (2 ^ 24 - B) / 2 ^ 24"
    using axis_weights [OF dy] unfolding y2f_def y1f_def by blast
  have sx: "x1f + x2f = 1" and sy: "y1f + y2f = 1"
    unfolding A(3,4) B(3,4) by (simp_all flip: add_divide_distrib)
  note L = linear_cells_in_grid [OF xw yh dim len, folded px_def py_def, folded bx_def bY_def,
      folded cx_def cy_def, folded x1_def y1_def, folded x2_def y2_def]
  have cl: "(if x1 \<ge> i2_x scores_dim - 1 then x1 else x1 + 1) = x2"
      "(if y1 \<ge> i2_y scores_dim - 1 then y1 else y1 + 1) = y2"
    and lk: "LOOKUP_CLASS_MAP (Some scores) scores_dim x1 y1 = Some k"
      "LOOKUP_CLASS_MAP (Some scores) scores_dim x2 y1 = Some k"
      "LOOKUP_CLASS_MAP (Some scores) scores_dim x2 y2 = Some k"
      "LOOKUP_CLASS_MAP (Some scores) scores_dim x1 y2 = Some k"
    and top: "y2 * i2_x scores_dim + x2 < int (length scores)"
    using L same by simp_all
  have c: "rd (Some class_colors) (uint k) = Some col"
    unfolding col_def using cls by (rule rd_uint)
  note K = gpuSegOverlay_linear_mask_cells [where T = T and input = input and in_width = in_width
      and in_height = in_height, OF xw(1) yh(1)
      cl [unfolded x1_def y1_def cx_def cy_def bx_def bY_def px_def py_def]
      lk [unfolded x1_def y1_def cx_def cy_def bx_def bY_def px_def py_def]
      c c c c,
      folded px_def py_def, folded bx_def bY_def, folded cx_def cy_def, folded x1_def y1_def,
      folded x1f_def y1f_def, folded x2f_def y2f_def]
  note e = bilinear_uniform [OF A(1,2) B(1,2), folded A(3,4) B(3,4)]
  have "0 \<le> int y * out_width + int x \<and> int y * out_width + int x < out_width * out_height"
    by (rule index_in_range) (use xw yh in simp_all)
  then have oi: "int y * out_width + int x < 2 ^ 31"
    using out by linarith
  have t31: "y2 * i2_x scores_dim + x2 < 2 ^ 31"
    using top fit by (rule less_trans)
  show ?thesis
    using sx sy oi t31 K e [OF r] e [OF g] e [OF b] by blast
qed

theorem linear_uniform_region_witness:
  "gpuSegOverlay T_float3 True True None 0 0 5 7
       (Some [make_float4 255 0 0 255, make_float4 200 100 50 255, make_float4 90 60 30 64])
       (Some [1, 1, 1, 1, 0, 2]) (make_int2 2 3) 4 2 =
     Store 14 (Float3 (6553601 / 32768) (6553601 / 65536) (6553601 / 131072))
   \<and> \<bar>6553601 / 32768 - 200 :: real\<bar> \<le> 200 * 6 / 2 ^ 24
   \<and> \<bar>6553601 / 65536 - 100 :: real\<bar> \<le> 100 * 6 / 2 ^ 24
   \<and> \<bar>6553601 / 131072 - 50 :: real\<bar> \<le> 50 * 6 / 2 ^ 24
   \<and> int_of_float (fsub (fmul (fdiv (float_of_int 4) (float_of_int 5)) (float_of_int 2)) (1 / 2)) = 1
   \<and> int_of_float (fsub (fmul (fdiv (float_of_int 2) (float_of_int 7)) (float_of_int 3)) (1 / 2)) = 0"
proof -
  have e0: "fl32 4 = 4" by (simp add: fl_eval)
  have e1: "fl32 5 = 5" by (simp add: fl_eval)
  have e2: "fl32 (4 / 5) = 13421773 / 16777216" by (simp add: fl_eval)
  have e3: "fl32 2 = 2" by (simp add: fl_eval)
  have e4: "fl32 7 = 7" by (simp add: fl_eval)
  have e5: "fl32 (2 / 7) = 9586981 / 33554432" by (simp add: fl_eval)
  have e6: "fl32 (13421773 / 8388608) = 13421773 / 8388608" by (simp add: fl_eval)
  have e7: "fl32 (9227469 / 8388608) = 9227469 / 8388608" by (simp add: fl_eval)
  have e8: "fl32 3 = 3" by (simp add: fl_eval)
  have e9: "fl32 (28760943 / 33554432) = 1797559 / 2097152" by (simp add: fl_eval)
  have e10: "fl32 (748983 / 2097152) = 748983 / 2097152" by (simp add: fl_eval)
  have e11: "fl32 1 = 1" by (simp add: fl_eval)
  have e12: "fl32 (838861 / 8388608) = 838861 / 8388608" by (simp add: fl_eval)
  have e13: "fl32 0 = 0" by (simp add: fl_eval)
  have e14: "fl32 (7549747 / 8388608) = 7549747 / 8388608" by (simp add: fl_eval)
  have e15: "fl32 (1348169 / 2097152) = 1348169 / 2097152" by (simp add: fl_eval)
  have e16: "fl32 (10178334863243 / 17592186044416) = 9706817 / 16777216" by (simp add: fl_eval)
  have e17: "fl32 (5654632157301 / 17592186044416) = 10785355 / 33554432" by (simp add: fl_eval)
  have e18: "fl32 (1130926395509 / 17592186044416) = 2157071 / 33554432" by (simp add: fl_eval)
  have e19: "fl32 (628292628363 / 17592186044416) = 9586985 / 268435456" by (simp add: fl_eval)
  have e20: "fl32 (242670425 / 2097152) = 7583451 / 65536" by (simp add: fl_eval)
  have e21: "fl32 (53926775 / 4194304) = 6740847 / 524288" by (simp add: fl_eval)
  have e22: "fl32 (67408455 / 524288) = 8426057 / 65536" by (simp add: fl_eval)
  have e23: "fl32 (239674625 / 33554432) = 936229 / 131072" by (simp add: fl_eval)
  have e24: "fl32 (17788343 / 131072) = 2223543 / 16384" by (simp add: fl_eval)
  have e25: "fl32 (269633875 / 4194304) = 8426059 / 131072" by (simp add: fl_eval)
  have e26: "fl32 (26214403 / 131072) = 6553601 / 32768" by (simp add: fl_eval)
  have e27: "fl32 (242670425 / 4194304) = 7583451 / 131072" by (simp add: fl_eval)
  have e28: "fl32 (53926775 / 8388608) = 6740847 / 1048576" by (simp add: fl_eval)
  have e29: "fl32 (67408455 / 1048576) = 8426057 / 131072" by (simp add: fl_eval)
  have e30: "fl32 (239674625 / 67108864) = 936229 / 262144" by (simp add: fl_eval)
  have e31: "fl32 (17788343 / 262144) = 2223543 / 32768" by (simp add: fl_eval)
  have e32: "fl32 (269633875 / 8388608) = 8426059 / 262144" by (simp add: fl_eval)
  have e33: "fl32 (26214403 / 262144) = 6553601 / 65536" by (simp add: fl_eval)
  have e34: "fl32 (242670425 / 8388608) = 7583451 / 262144" by (simp add: fl_eval)
  have e35: "fl32 (53926775 / 16777216) = 6740847 / 2097152" by (simp add: fl_eval)
  have e36: "fl32 (67408455 / 2097152) = 8426057 / 262144" by (simp add: fl_eval)
  have e37: "fl32 (239674625 / 134217728) = 936229 / 524288" by (simp add: fl_eval)
  have e38: "fl32 (17788343 / 524288) = 2223543 / 65536" by (simp add: fl_eval)
  have e39: "fl32 (269633875 / 16777216) = 8426059 / 524288" by (simp add: fl_eval)
  have e40: "fl32 (26214403 / 524288) = 6553601 / 131072" by (simp add: fl_eval)
  have bb: "fsub (fmul (fdiv (float_of_int 4) (float_of_int 5)) (float_of_int 2)) (1 / 2) = 9227469 / 8388608"
      "fsub (fmul (fdiv (float_of_int 2) (float_of_int 7)) (float_of_int 3)) (1 / 2) = 748983 / 2097152"
    by (simp_all add: f_ops e0 e1 e2 e3 e4 e5 e6 e7 e8 e9 e10 e11 e12 e13 e14 e15 e16 e17 e18 e19 e20 e21 e22 e23 e24 e25 e26 e27 e28 e29 e30 e31 e32 e33 e34 e35 e36 e37 e38 e39 e40)
  have i: "int_of_float (9227469 / 8388608) = 1" "int_of_float (748983 / 2097152) = 0"
    by (simp_all add: int_of_float_def)
  have w: "fsub (9227469 / 8388608) (float_of_int 1) = 838861 / 8388608"
      "fsub 1 (838861 / 8388608) = 7549747 / 8388608"
      "fsub 1 (7549747 / 8388608) = 838861 / 8388608"
      "fsub (748983 / 2097152) (float_of_int 0) = 748983 / 2097152"
      "fsub 1 (748983 / 2097152) = 1348169 / 2097152"
      "fsub 1 (1348169 / 2097152) = 748983 / 2097152"
    by (simp_all add: f_ops e0 e1 e2 e3 e4 e5 e6 e7 e8 e9 e10 e11 e12 e13 e14 e15 e16 e17 e18 e19 e20 e21 e22 e23 e24 e25 e26 e27 e28 e29 e30 e31 e32 e33 e34 e35 e36 e37 e38 e39 e40)
  have p: "fmul (7549747 / 8388608) (1348169 / 2097152) = 9706817 / 16777216"
      "fmul (838861 / 8388608) (1348169 / 2097152) = 2157071 / 33554432"
      "fmul (838861 / 8388608) (748983 / 2097152) = 9586985 / 268435456"
      "fmul (7549747 / 8388608) (748983 / 2097152) = 10785355 / 33554432"
    by (simp_all add: f_ops e0 e1 e2 e3 e4 e5 e6 e7 e8 e9 e10 e11 e12 e13 e14 e15 e16 e17 e18 e19 e20 e21 e22 e23 e24 e25 e26 e27 e28 e29 e30 e31 e32 e33 e34 e35 e36 e37 e38 e39 e40)
  have m: "fadd (fadd (fadd (fmul 200 (9706817 / 16777216)) (fmul 200 (2157071 / 33554432)))
                  (fmul 200 (9586985 / 268435456))) (fmul 200 (10785355 / 33554432)) = 6553601 / 32768"
      "fadd (fadd (fadd (fmul 100 (9706817 / 16777216)) (fmul 100 (2157071 / 33554432)))
                  (fmul 100 (9586985 / 268435456))) (fmul 100 (10785355 / 33554432)) = 6553601 / 65536"
      "fadd (fadd (fadd (fmul 50 (9706817 / 16777216)) (fmul 50 (2157071 / 33554432)))
                  (fmul 50 (9586985 / 268435456))) (fmul 50 (10785355 / 33554432)) = 6553601 / 131072"
    by (simp_all add: f_ops e0 e1 e2 e3 e4 e5 e6 e7 e8 e9 e10 e11 e12 e13 e14 e15 e16 e17 e18 e19 e20 e21 e22 e23 e24 e25 e26 e27 e28 e29 e30 e31 e32 e33 e34 e35 e36 e37 e38 e39 e40)
  note t = linear_uniform_region [where x = 4 and y = 2 and out_width = 5 and out_height = 7
      and scores_dim = "make_int2 2 3" and scores = "[1, 1, 1, 1, 0, 2]" and T = T_float3
      and class_colors = "[make_float4 255 0 0 255, make_float4 200 100 50 255, make_float4 90 60 30 64]" and k = 1
      and input = None and in_width = 0 and in_height = 0]
  have "\<exists>r g b. gpuSegOverlay T_float3 True True None 0 0 5 7
       (Some [make_float4 255 0 0 255, make_float4 200 100 50 255, make_float4 90 60 30 64])
       (Some [1, 1, 1, 1, 0, 2]) (make_int2 2 3) 4 2 = Store 14 (Float3 r g b)
       \<and> \<bar>r - 200\<bar> \<le> 200 * 6 / 2 ^ 24 \<and> \<bar>g - 100\<bar> \<le> 100 * 6 / 2 ^ 24 \<and> \<bar>b - 50\<bar> \<le> 50 * 6 / 2 ^ 24"
    using t by (simp add: bb i w power_int_minus make_vec_def store_def)
  moreover have "gpuSegOverlay T_float3 True True None 0 0 5 7
       (Some [make_float4 255 0 0 255, make_float4 200 100 50 255, make_float4 90 60 30 64])
       (Some [1, 1, 1, 1, 0, 2]) (make_int2 2 3) 4 2 =
     Store 14 (Float3 (6553601 / 32768) (6553601 / 65536) (6553601 / 131072))"
    using gpuSegOverlay_linear_mask_cells [where x = 4 and y = 2 and out_width = 5 and out_height = 7
        and scores_dim = "make_int2 2 3" and scores = "Some [1, 1, 1, 1, 0, 2]" and T = T_float3
        and class_colors = "Some [make_float4 255 0 0 255, make_float4 200 100 50 255, make_float4 90 60 30 64]"
        and input = None and in_width = 0 and in_height = 0 and xh = 1 and yh = 1
        and ka = 1 and kb = 1 and kc = 1 and kd = 1
        and ca = "make_float4 200 100 50 255" and cb = "make_float4 200 100 50 255"
        and cc = "make_float4 200 100 50 255" and cd = "make_float4 200 100 50 255"]
    by (simp add: LOOKUP_CLASS_MAP_def rd_def store_def make_vec_def bb i w p m)
  ultimately show ?thesis
    by (auto simp: bb i)
qed

end
